theory Spec2Isabelle
  imports Main "HOL-Library.Word" "HOL-Library.Signed_Division" "HOL-Library.Multiset"
    "HOL-Library.Product_Lexorder"
begin

unbundle bit_operations_syntax

section \<open>etl2pcapng: data model of \<open>main.c\<close>\<close>

text \<open>
  The program targets Windows: \<open>unsigned long\<close>, \<open>long\<close>, \<open>ULONG\<close> and \<open>DWORD\<close> are
  32 bits wide, \<open>USHORT\<close> and \<open>short\<close> 16 bits, \<open>ULONGLONG\<close>, \<open>LONGLONG\<close> and the
  event keyword 64 bits. \<open>size_t\<close> is taken at 64 bits (x64 build).
\<close>

type_synonym UCHAR = "8 word"
type_synonym USHORT = "16 word"
type_synonym ULONG = "32 word"
type_synonym ULONGLONG = "64 word"

definition MAX_PACKET_SIZE :: nat where
  "MAX_PACKET_SIZE = 65535"

definition KW_MEDIA_WIRELESS_WAN :: ULONGLONG where
  "KW_MEDIA_WIRELESS_WAN = 0x200"

definition KW_MEDIA_NATIVE_802_11 :: ULONGLONG where
  "KW_MEDIA_NATIVE_802_11 = 0x10000"

definition KW_PACKET_START :: ULONGLONG where
  "KW_PACKET_START = 0x40000000"

definition KW_PACKET_END :: ULONGLONG where
  "KW_PACKET_END = 0x80000000"

definition KW_SEND :: ULONGLONG where
  "KW_SEND = 0x100000000"

definition KW_RECEIVE :: ULONGLONG where
  "KW_RECEIVE = 0x200000000"

definition tidPacketFragment :: USHORT where
  "tidPacketFragment = 1001"

definition tidPacketMetadata :: USHORT where
  "tidPacketMetadata = 1002"

definition tidVMSwitchPacketFragment :: USHORT where
  "tidVMSwitchPacketFragment = 1003"

text \<open>
  \<open>DOT11_EXTSTA_RECV_CONTEXT\<close>, field by field. Under \<open>#pragma pack(push,8)\<close> the
  fields sit at offsets 0 (header, 4 bytes), 4, 8, 12, 16 (2 bytes), 20, 24 (1 byte),
  28, 32 (pointer), 40 (8 bytes): the structure is 48 bytes long, with a 4-byte or an
  8-byte pointer alike.
\<close>

record DOT11_EXTSTA_RECV_CONTEXT =
  Header_Type :: UCHAR
  Header_Revision :: UCHAR
  Header_Size :: USHORT
  uReceiveFlags :: ULONG
  uPhyId :: ULONG
  uChCenterFrequency :: ULONG
  usNumberOfMPDUsReceived :: USHORT
  lRSSI :: ULONG
  ucDataRate :: UCHAR
  uSizeMediaSpecificInfo :: ULONG
  pvMediaSpecificInfo :: ULONGLONG
  ullTimestamp :: ULONGLONG

definition sizeof_DOT11_EXTSTA_RECV_CONTEXT :: nat where
  "sizeof_DOT11_EXTSTA_RECV_CONTEXT = 48"

text \<open>\<open>memset(&PacketMetadata, 0, sizeof(DOT11_EXTSTA_RECV_CONTEXT))\<close>.\<close>

definition zero_metadata :: DOT11_EXTSTA_RECV_CONTEXT where
  "zero_metadata =
     \<lparr>Header_Type = 0, Header_Revision = 0, Header_Size = 0, uReceiveFlags = 0,
      uPhyId = 0, uChCenterFrequency = 0, usNumberOfMPDUsReceived = 0, lRSSI = 0,
      ucDataRate = 0, uSizeMediaSpecificInfo = 0, pvMediaSpecificInfo = 0,
      ullTimestamp = 0\<rparr>"

definition DOT11_PHY_TYPE_NAMES :: "string list" where
  "DOT11_PHY_TYPE_NAMES =
     [''Unknown'', ''Fhss'', ''Dsss'', ''IrBaseband'', ''802.11a'', ''802.11b'',
      ''802.11g'', ''802.11n'', ''802.11ac'', ''802.11ad'', ''802.11ax'']"

text \<open>
  Modelled from the spec: \<open>pcapng.h\<close> is not part of the source, so the three link-type
  constants \<open>PCAPNG_LINKTYPE_*\<close> stored in \<open>INTERFACE.Type\<close> are the three media types
  of the spec (Ethernet, Wifi, RawIp), kept distinct.
\<close>

datatype linktype =
  PCAPNG_LINKTYPE_ETHERNET | PCAPNG_LINKTYPE_IEEE802_11 | PCAPNG_LINKTYPE_RAW

text \<open>
  \<open>struct INTERFACE\<close>. The \<open>Next\<close> pointer is the tail of the bucket's list.
  \<open>PcapNgIfIndex\<close> is not written by \<open>AddInterface\<close>: it is \<open>None\<close> (indeterminate)
  until \<open>WriteInterfaces\<close> assigns it.
\<close>

record INTERFACE =
  LowerIfIndex :: ULONG
  MiniportIfIndex :: ULONG
  PcapNgIfIndex :: "ULONG option"
  Type :: linktype

definition IFACE_HT_SIZE :: nat where
  "IFACE_HT_SIZE = 100"

text \<open>A \<open>GUID\<close>: \<open>Data1\<close>, \<open>Data2\<close>, \<open>Data3\<close> and the eight bytes of \<open>Data4\<close>.\<close>

type_synonym GUID = "ULONG \<times> USHORT \<times> USHORT \<times> UCHAR list"

definition NdisCapId :: GUID where
  "NdisCapId =
     (0x2ed6006e, 0x4729, 0x4609, [0xb4, 0x23, 0x3e, 0xe7, 0xbc, 0xd6, 0x78, 0xef])"

text \<open>
  An \<open>EVENT_RECORD\<close> as the callback reads it: the header fields, and for each named
  property the outcome of \<open>TdhGetProperty\<close> on it (\<open>Inl\<close> the Win32 error code, \<open>Inr\<close>
  the value). \<open>prop_Fragment\<close> holds the bytes the event carries from the start of the
  \<open>Fragment\<close> property on; a read of \<open>n\<close> bytes copies the first \<open>n\<close> of them.
\<close>

record EVENT_RECORD =
  ProviderId :: GUID
  Id :: USHORT
  Keyword :: ULONGLONG
  TimeStamp :: ULONGLONG
  ProcessId :: ULONG
  prop_LowerIfIndex :: "ULONG + ULONG"
  prop_MiniportIfIndex :: "ULONG + ULONG"
  prop_MetadataSize :: "ULONG + ULONG"
  prop_Metadata :: "ULONG + DOT11_EXTSTA_RECV_CONTEXT"
  prop_FragmentSize :: "ULONG + ULONG"
  prop_Fragment :: "ULONG + UCHAR list"

text \<open>
  The output writer of \<open>pcapng.h\<close> is outside the source. The output file is the list
  of the calls made on it, in order, each with its arguments. \<open>FragBuf\<close> is the
  content of the array the pointer argument designates, at the time of the call.
\<close>

record enhanced_packet =
  FragBuf :: "UCHAR list"
  FragLength :: ULONG
  InterfaceId :: ULONG
  IsSend :: ULONG
  TimeStampHigh :: ULONG
  TimeStampLow :: ULONG
  Comment :: "string option"
  CommentLength :: USHORT

datatype pcapng_call =
  PcapNgWriteSectionHeader
| PcapNgWriteInterfaceDesc linktype nat
| PcapNgWriteEnhancedPacket (packet_of: enhanced_packet)

text \<open>The lines printed on standard output, one constructor per \<open>printf\<close>.\<close>

datatype console_line =
  TdhGetProperty_failed string ULONG
| inconsistent_media_type
| unknown_metadata_length nat ULONG
| packet_too_large ULONG
| failed_converting_metadata
| failed_metadata_length
| IF_line linktype ULONG ULONG "ULONG option"

text \<open>
  The ways a run stops: the two \<open>exit(1)\<close> calls, and the reads and writes outside an
  array, whose behaviour C leaves undefined.
\<close>

datatype fatal =
  out_of_memory
| unrecognized_IfIndex
| phy_name_out_of_bounds
| interface_array_out_of_bounds
| indeterminate_PcapNgIfIndex

text \<open>
  The global variables. \<open>InterfaceHashTable\<close> maps a bucket number to the bucket's
  linked list, head first. \<open>malloc\<close> is an oracle of the environment: its
  \<open>malloc_calls\<close>-th call succeeds iff \<open>malloc_ok\<close> says so.
\<close>

record globals =
  OutFile :: "pcapng_call list"
  NumFramesConverted :: ULONGLONG
  Pass2 :: bool
  AuxFragBuf :: "UCHAR list"
  AuxFragBufOffset :: ULONG
  PacketMetadata :: DOT11_EXTSTA_RECV_CONTEXT
  AddMetadata :: bool
  InterfaceHashTable :: "nat \<Rightarrow> INTERFACE list"
  NumInterfaces :: ULONG
  console :: "console_line list"
  malloc_ok :: "nat \<Rightarrow> bool"
  malloc_calls :: nat

definition printf :: "console_line \<Rightarrow> globals \<Rightarrow> globals" where
  "printf l s = s\<lparr>console := console s @ [l]\<rparr>"

text \<open>The state at program start, for a given allocator oracle.\<close>

definition initial_globals :: "(nat \<Rightarrow> bool) \<Rightarrow> globals" where
  "initial_globals m =
     \<lparr>OutFile = [], NumFramesConverted = 0, Pass2 = False,
      AuxFragBuf = replicate MAX_PACKET_SIZE 0, AuxFragBufOffset = 0,
      PacketMetadata = zero_metadata, AddMetadata = False,
      InterfaceHashTable = (\<lambda>_. []), NumInterfaces = 0, console = [],
      malloc_ok = m, malloc_calls = 0\<rparr>"

section \<open>The interface table\<close>

definition GetInterface :: "ULONG \<Rightarrow> globals \<Rightarrow> INTERFACE option" where
  "GetInterface L s =
     find (\<lambda>Iface. LowerIfIndex Iface = L) (InterfaceHashTable s (unat L mod IFACE_HT_SIZE))"

definition AddInterface :: "ULONG \<Rightarrow> ULONG \<Rightarrow> linktype \<Rightarrow> globals \<Rightarrow> fatal + globals" where
  "AddInterface L M T s =
     (if \<not> malloc_ok s (malloc_calls s) then Inl out_of_memory
      else
        let b = unat L mod IFACE_HT_SIZE;
            NewIface = \<lparr>LowerIfIndex = L, MiniportIfIndex = M, PcapNgIfIndex = None, Type = T\<rparr>
        in Inr (s\<lparr>InterfaceHashTable :=
                      (InterfaceHashTable s)(b := NewIface # InterfaceHashTable s b),
                   NumInterfaces := NumInterfaces s + 1,
                   malloc_calls := Suc (malloc_calls s)\<rparr>))"

definition InterfaceCompareFn :: "INTERFACE \<Rightarrow> INTERFACE \<Rightarrow> int" where
  "InterfaceCompareFn A B =
     (let MA = MiniportIfIndex A; MB = MiniportIfIndex B;
          LA = LowerIfIndex A; LB = LowerIfIndex B
      in if MA = MB then
           (if MA = LA then - 1
            else if MB = LB then 1
            else if LA < LB then - 1
            else if LB < LA then 1
            else 0)
         else if MA < MB then - 1
         else 1)"

text \<open>
  \<open>qsort\<close> belongs to the C library. Its contract is that the array ends up a
  rearrangement of itself in which no element compares greater than a later one
  (\<open>qsort_contract\<close>). The executable model is insertion by the comparison function;
  \<open>qsort_contract_unique\<close> below shows that on interfaces with pairwise different
  \<open>LowerIfIndex\<close> the contract leaves no other result.
\<close>

fun qsort_insert :: "('a \<Rightarrow> 'a \<Rightarrow> int) \<Rightarrow> 'a \<Rightarrow> 'a list \<Rightarrow> 'a list" where
  "qsort_insert cmp x [] = [x]"
| "qsort_insert cmp x (y # ys) =
     (if cmp x y \<le> 0 then x # y # ys else y # qsort_insert cmp x ys)"

definition qsort :: "('a \<Rightarrow> 'a \<Rightarrow> int) \<Rightarrow> 'a list \<Rightarrow> 'a list" where
  "qsort cmp xs = foldr (qsort_insert cmp) xs []"

definition qsort_contract :: "('a \<Rightarrow> 'a \<Rightarrow> int) \<Rightarrow> 'a list \<Rightarrow> 'a list \<Rightarrow> bool" where
  "qsort_contract cmp xs ys \<longleftrightarrow>
     mset ys = mset xs \<and> sorted_wrt (\<lambda>a b. cmp a b \<le> 0) ys"

text \<open>
  A \<open>struct INTERFACE*\<close> is the place of the structure in the table: the bucket and
  the position in the bucket's list.
\<close>

type_synonym iface_ptr = "nat \<times> nat"

definition deref :: "globals \<Rightarrow> iface_ptr \<Rightarrow> INTERFACE" where
  "deref s p = InterfaceHashTable s (fst p) ! snd p"

text \<open>The first loop of \<open>WriteInterfaces\<close>: buckets 0 to 99, each from its head.\<close>

definition collect_interfaces :: "globals \<Rightarrow> iface_ptr list" where
  "collect_interfaces s =
     concat (map (\<lambda>i. map (Pair i) [0..<length (InterfaceHashTable s i)]) [0..<IFACE_HT_SIZE])"

definition InterfaceArray_sorted :: "globals \<Rightarrow> iface_ptr list" where
  "InterfaceArray_sorted s =
     qsort (\<lambda>A B. InterfaceCompareFn (deref s A) (deref s B)) (collect_interfaces s)"

definition set_PcapNgIfIndex :: "iface_ptr \<Rightarrow> ULONG \<Rightarrow> globals \<Rightarrow> globals" where
  "set_PcapNgIfIndex p i s =
     s\<lparr>InterfaceHashTable :=
         (InterfaceHashTable s)
           (fst p := (InterfaceHashTable s (fst p))[snd p := (deref s p)\<lparr>PcapNgIfIndex := Some i\<rparr>])\<rparr>"

text \<open>
  The second loop of \<open>WriteInterfaces\<close>: \<open>write_step\<close> is its body at index \<open>i\<close>, with
  \<open>p\<close> the pointer \<open>InterfaceArray[i]\<close>; \<open>write_loop\<close> runs it from index \<open>i\<close> over the
  rest of the array.
\<close>

definition write_step :: "nat \<Rightarrow> iface_ptr \<Rightarrow> globals \<Rightarrow> globals" where
  "write_step i p s =
     (let s1 = set_PcapNgIfIndex p (of_nat i) s;
          Interface = deref s1 p;
          s2 = s1\<lparr>OutFile := OutFile s1 @
                 [PcapNgWriteInterfaceDesc (Type Interface) MAX_PACKET_SIZE]\<rparr>
      in printf (IF_line (Type Interface) (of_nat i) (LowerIfIndex Interface)
                 (if LowerIfIndex Interface \<noteq> MiniportIfIndex Interface
                  then Some (MiniportIfIndex Interface) else None)) s2)"

fun write_loop :: "nat \<Rightarrow> iface_ptr list \<Rightarrow> globals \<Rightarrow> globals" where
  "write_loop i [] s = s"
| "write_loop i (p # ps) s = write_loop (Suc i) ps (write_step i p s)"

text \<open>
  \<open>InterfaceArray\<close> has \<open>NumInterfaces\<close> slots. The first loop fills one slot for each
  structure in the table, so a count that differs from \<open>NumInterfaces\<close> writes past
  the array or sorts unwritten slots.
\<close>

definition WriteInterfaces :: "globals \<Rightarrow> fatal + globals" where
  "WriteInterfaces s =
     (if \<not> malloc_ok s (malloc_calls s) then Inl out_of_memory
      else if length (collect_interfaces s) \<noteq> unat (NumInterfaces s)
        then Inl interface_array_out_of_bounds
      else Inr (write_loop 0 (InterfaceArray_sorted s)
                  (s\<lparr>malloc_calls := Suc (malloc_calls s)\<rparr>)))"

section \<open>Formatting the packet comment\<close>

text \<open>The conversions \<open>%u\<close>, \<open>%x\<close> and \<open>%d\<close> of the C library.\<close>

definition digit_char :: "nat \<Rightarrow> char" where
  "digit_char d = ''0123456789abcdef'' ! d"

fun fmt_u :: "nat \<Rightarrow> string" where
  "fmt_u n = (if n < 10 then [digit_char n] else fmt_u (n div 10) @ [digit_char (n mod 10)])"

fun fmt_x :: "nat \<Rightarrow> string" where
  "fmt_x n = (if n < 16 then [digit_char n] else fmt_x (n div 16) @ [digit_char (n mod 16)])"

definition fmt_d :: "int \<Rightarrow> string" where
  "fmt_d i = (if i < 0 then CHR ''-'' # fmt_u (nat (- i)) else fmt_u (nat i))"

declare fmt_u.simps [simp del] fmt_x.simps [simp del]

text \<open>
  \<open>StringCchPrintfA\<close> and \<open>StringCchLengthA\<close> of \<open>strsafe.h\<close>: both succeed iff the text
  and its terminating zero fit in the given number of characters.
\<close>

definition StringCchPrintfA :: "nat \<Rightarrow> string \<Rightarrow> string option" where
  "StringCchPrintfA cchDest txt = (if length txt < cchDest then Some txt else None)"

definition StringCchLengthA :: "string \<Rightarrow> nat \<Rightarrow> nat option" where
  "StringCchLengthA txt cchMax = (if length txt < cchMax then Some (length txt) else None)"

definition metadata_text :: "DOT11_EXTSTA_RECV_CONTEXT \<Rightarrow> string \<Rightarrow> ULONG \<Rightarrow> string" where
  "metadata_text Metadata PhyType pid =
     ''Packet Metadata: ReceiveFlags:0x'' @ fmt_x (unat (uReceiveFlags Metadata)) @
     '', PhyType:'' @ PhyType @
     '', CenterCh:'' @ fmt_u (unat (uChCenterFrequency Metadata)) @
     '', NumMPDUsReceived:'' @ fmt_u (unat (usNumberOfMPDUsReceived Metadata)) @
     '', RSSI:'' @ fmt_d (sint (lRSSI Metadata)) @
     '', DataRate:'' @ fmt_u (unat (ucDataRate Metadata)) @
     '', PID='' @ fmt_d (sint pid)"

definition pid_text :: "ULONG \<Rightarrow> string" where
  "pid_text pid = ''PID='' @ fmt_d (sint pid)"

definition COMMENT_MAX_SIZE :: nat where
  "COMMENT_MAX_SIZE = 16"

text \<open>
  \<open>CombineMetadataWithPacket\<close>. The table of names is read at \<open>uPhyId\<close> unchecked; a
  read past its last entry is undefined in C and stops the model.
\<close>

definition CombineMetadataWithPacket ::
  "UCHAR list \<Rightarrow> ULONG \<Rightarrow> ULONG \<Rightarrow> ULONG \<Rightarrow> ULONG \<Rightarrow> ULONG \<Rightarrow>
   DOT11_EXTSTA_RECV_CONTEXT \<Rightarrow> ULONG \<Rightarrow> globals \<Rightarrow> fatal + globals" where
  "CombineMetadataWithPacket buf len ifid issend hi lo Metadata pid s =
     (if length DOT11_PHY_TYPE_NAMES \<le> unat (uPhyId Metadata) then Inl phy_name_out_of_bounds
      else
        let txt = metadata_text Metadata (DOT11_PHY_TYPE_NAMES ! unat (uPhyId Metadata)) pid;
            (commentlength, s1) =
              (case StringCchPrintfA MAX_PACKET_SIZE txt of
                 None \<Rightarrow> (0, printf failed_converting_metadata s)
               | Some c \<Rightarrow>
                   (case StringCchLengthA c MAX_PACKET_SIZE of
                      None \<Rightarrow> (0, printf failed_metadata_length s)
                    | Some n \<Rightarrow> (n, s)))
        in Inr (s1\<lparr>OutFile := OutFile s1 @
                  [PcapNgWriteEnhancedPacket
                     \<lparr>FragBuf = buf,
                      FragLength = of_nat sizeof_DOT11_EXTSTA_RECV_CONTEXT + len,
                      InterfaceId = ifid, IsSend = issend,
                      TimeStampHigh = hi, TimeStampLow = lo,
                      Comment = (if 0 < commentlength then Some txt else None),
                      CommentLength = of_nat commentlength\<rparr>]\<rparr>))"

section \<open>The event callback\<close>

text \<open>
  \<open>TimeStamp.QuadPart = (ev->EventHeader.TimeStamp.QuadPart / 10) - 11644473600000000ll\<close>:
  the event's time stamp is a signed 64-bit number, C's division truncates towards
  zero (\<open>sdiv\<close>), and the result is stored in an unsigned 64-bit \<open>ULARGE_INTEGER\<close>.
\<close>

definition convert_TimeStamp :: "ULONGLONG \<Rightarrow> ULONGLONG" where
  "convert_TimeStamp t = word_of_int (sint t sdiv 10 - 11644473600000000)"

text \<open>The two 32-bit halves of a \<open>ULARGE_INTEGER\<close>.\<close>

definition HighPart :: "ULONGLONG \<Rightarrow> ULONG" where
  "HighPart q = ucast (drop_bit 32 q)"

definition LowPart :: "ULONGLONG \<Rightarrow> ULONG" where
  "LowPart q = ucast q"

text \<open>Copying bytes into an array from a given offset on.\<close>

definition copy_at :: "UCHAR list \<Rightarrow> nat \<Rightarrow> UCHAR list \<Rightarrow> UCHAR list" where
  "copy_at buf off bytes = take off buf @ bytes @ drop (off + length bytes) buf"

text \<open>
  \<open>if (AuxFragBuf[1] & 0x40) AuxFragBuf[1] = AuxFragBuf[1] & 0xBF\<close>, on the whole
  array.
\<close>

definition clear_Protected :: "UCHAR list \<Rightarrow> UCHAR list" where
  "clear_Protected buf = (if buf ! 1 AND 0x40 \<noteq> 0 then buf[1 := buf ! 1 AND 0xBF] else buf)"

text \<open>Pass 1, after \<open>LowerIfIndex\<close> has been read (lines 303 to 327).\<close>

definition Pass1_event :: "EVENT_RECORD \<Rightarrow> ULONG \<Rightarrow> globals \<Rightarrow> fatal + globals" where
  "Pass1_event ev L s =
     (let T = (if Keyword ev AND KW_MEDIA_NATIVE_802_11 \<noteq> 0 then PCAPNG_LINKTYPE_IEEE802_11
               else if Keyword ev AND KW_MEDIA_WIRELESS_WAN \<noteq> 0 then PCAPNG_LINKTYPE_RAW
               else PCAPNG_LINKTYPE_ETHERNET)
      in case GetInterface L s of
           None \<Rightarrow>
             (case prop_MiniportIfIndex ev of
                Inl err \<Rightarrow> Inr (printf (TdhGetProperty_failed ''MiniportIfIndex'' err) s)
              | Inr M \<Rightarrow> AddInterface L M T s)
         | Some Iface \<Rightarrow>
             if Type Iface \<noteq> T then Inr (printf inconsistent_media_type s) else Inr s)"

text \<open>
  A metadata event in pass 2 (lines 337 to 364). Every path of this block returns, so
  its copy at lines 367 to 394 is never reached.
\<close>

definition Metadata_event :: "EVENT_RECORD \<Rightarrow> globals \<Rightarrow> globals" where
  "Metadata_event ev s =
     (case prop_MetadataSize ev of
        Inl err \<Rightarrow> printf (TdhGetProperty_failed ''MetadataSize'' err) s
      | Inr MetadataLength \<Rightarrow>
          if unat MetadataLength \<noteq> sizeof_DOT11_EXTSTA_RECV_CONTEXT
          then printf (unknown_metadata_length sizeof_DOT11_EXTSTA_RECV_CONTEXT MetadataLength) s
          else
            (case prop_Metadata ev of
               Inl err \<Rightarrow> printf (TdhGetProperty_failed ''Metadata'' err) s
             | Inr md \<Rightarrow> s\<lparr>PacketMetadata := md, AddMetadata := True\<rparr>))"

text \<open>
  The frame-end branch (lines 443 to 499), with the fragment already copied into the
  array \<open>buf\<close> and \<open>len\<close> the fragment's length.
\<close>

definition Packet_end :: "EVENT_RECORD \<Rightarrow> INTERFACE \<Rightarrow> ULONG \<Rightarrow> UCHAR list \<Rightarrow> globals \<Rightarrow> fatal + globals" where
  "Packet_end ev Iface len buf s =
     (let buf1 = (if Keyword ev AND KW_MEDIA_NATIVE_802_11 \<noteq> 0 then clear_Protected buf else buf);
          ts = convert_TimeStamp (TimeStamp ev);
          issend = (if Keyword ev AND KW_SEND \<noteq> 0 then 1 else 0);
          s1 = s\<lparr>AuxFragBuf := buf1\<rparr>
      in case PcapNgIfIndex Iface of
           None \<Rightarrow> Inl indeterminate_PcapNgIfIndex
         | Some ifid \<Rightarrow>
            (case
               (if AddMetadata s1 then
                  CombineMetadataWithPacket buf1 (AuxFragBufOffset s1 + len) ifid issend
                    (HighPart ts) (LowPart ts) (PacketMetadata s1) (ProcessId ev) s1
                else
                  let txt = pid_text (ProcessId ev);
                      CommentLength' =
                        (case StringCchPrintfA COMMENT_MAX_SIZE txt of
                           None \<Rightarrow> 0
                         | Some c \<Rightarrow>
                             (case StringCchLengthA c COMMENT_MAX_SIZE of
                                None \<Rightarrow> 0
                              | Some n \<Rightarrow> n))
                  in Inr (s1\<lparr>OutFile := OutFile s1 @
                            [PcapNgWriteEnhancedPacket
                               \<lparr>FragBuf = buf1,
                                FragLength = AuxFragBufOffset s1 + len,
                                InterfaceId = ifid, IsSend = issend,
                                TimeStampHigh = HighPart ts, TimeStampLow = LowPart ts,
                                Comment = (if 0 < CommentLength' then Some txt else None),
                                CommentLength = of_nat CommentLength'\<rparr>]\<rparr>))
             of
               Inl e \<Rightarrow> Inl e
             | Inr s2 \<Rightarrow>
                 Inr (s2\<lparr>AddMetadata := False, PacketMetadata := zero_metadata,
                         AuxFragBufOffset := 0,
                         NumFramesConverted := NumFramesConverted s2 + 1\<rparr>)))"

text \<open>
  A fragment event in pass 2 (lines 404 to 502). The size check is made in \<open>size_t\<close>:
  \<open>FragLength > RTL_NUMBER_OF(AuxFragBuf) - AuxFragBufOffset\<close>.
\<close>

definition Fragment_event :: "EVENT_RECORD \<Rightarrow> INTERFACE \<Rightarrow> globals \<Rightarrow> fatal + globals" where
  "Fragment_event ev Iface s =
     (case prop_FragmentSize ev of
        Inl err \<Rightarrow> Inr (printf (TdhGetProperty_failed ''FragmentSize'' err) s)
      | Inr len \<Rightarrow>
          if (of_nat MAX_PACKET_SIZE :: 64 word) - ucast (AuxFragBufOffset s) < ucast len
          then Inr (printf (packet_too_large (AuxFragBufOffset s + len)) s)
          else
            (case prop_Fragment ev of
               Inl err \<Rightarrow> Inr (printf (TdhGetProperty_failed ''Fragment'' err) s)
             | Inr bytes \<Rightarrow>
                 let buf = copy_at (AuxFragBuf s) (unat (AuxFragBufOffset s))
                             (take (unat len) bytes)
                 in if Keyword ev AND KW_PACKET_END \<noteq> 0 then Packet_end ev Iface len buf s
                    else Inr (s\<lparr>AuxFragBuf := buf,
                                AuxFragBufOffset := AuxFragBufOffset s + len\<rparr>)))"

definition EventCallback :: "EVENT_RECORD \<Rightarrow> globals \<Rightarrow> fatal + globals" where
  "EventCallback ev s =
     (if ProviderId ev \<noteq> NdisCapId \<or>
         (Id ev \<noteq> tidPacketFragment \<and> Id ev \<noteq> tidPacketMetadata \<and>
          Id ev \<noteq> tidVMSwitchPacketFragment)
      then Inr s
      else
        (case prop_LowerIfIndex ev of
           Inl err \<Rightarrow> Inr (printf (TdhGetProperty_failed ''LowerIfIndex'' err) s)
         | Inr L \<Rightarrow>
             if \<not> Pass2 s then Pass1_event ev L s
             else
               (case GetInterface L s of
                  None \<Rightarrow> Inl unrecognized_IfIndex
                | Some Iface \<Rightarrow>
                    if Id ev = tidPacketMetadata then Inr (Metadata_event ev s)
                    else Fragment_event ev Iface s)))"

text \<open>\<open>ProcessTrace\<close> hands the events of the trace to the callback, one by one.\<close>

fun ProcessTrace :: "EVENT_RECORD list \<Rightarrow> globals \<Rightarrow> fatal + globals" where
  "ProcessTrace [] s = Inr s"
| "ProcessTrace (ev # evs) s =
     (case EventCallback ev s of Inl e \<Rightarrow> Inl e | Inr s' \<Rightarrow> ProcessTrace evs s')"

text \<open>
  \<open>wmain\<close> once the files are open: the section header, pass 1 over the trace,
  \<open>WriteInterfaces\<close>, then pass 2 over the same trace. \<open>pass2_start\<close> is the state in
  which pass 2 begins.
\<close>

definition pass2_start :: "EVENT_RECORD list \<Rightarrow> (nat \<Rightarrow> bool) \<Rightarrow> fatal + globals" where
  "pass2_start evs m =
     (case ProcessTrace evs ((initial_globals m)\<lparr>OutFile := [PcapNgWriteSectionHeader]\<rparr>) of
        Inl e \<Rightarrow> Inl e
      | Inr s1 \<Rightarrow>
          (case WriteInterfaces s1 of
             Inl e \<Rightarrow> Inl e
           | Inr s2 \<Rightarrow> Inr (s2\<lparr>Pass2 := True\<rparr>)))"

definition wmain_passes :: "EVENT_RECORD list \<Rightarrow> (nat \<Rightarrow> bool) \<Rightarrow> fatal + globals" where
  "wmain_passes evs m =
     (case pass2_start evs m of Inl e \<Rightarrow> Inl e | Inr s \<Rightarrow> ProcessTrace evs s)"

text \<open>
  The bytes the writer takes from an enhanced-packet call: \<open>FragLength\<close> bytes from the
  start of \<open>FragBuf\<close>; \<open>None\<close> when that many bytes reach past the array.
\<close>

definition packet_payload :: "enhanced_packet \<Rightarrow> UCHAR list option" where
  "packet_payload c =
     (if unat (FragLength c) \<le> length (FragBuf c)
      then Some (take (unat (FragLength c)) (FragBuf c)) else None)"

text \<open>The enhanced-packet calls among the calls on the output file.\<close>

fun packets :: "pcapng_call list \<Rightarrow> enhanced_packet list" where
  "packets [] = []"
| "packets (PcapNgWriteEnhancedPacket c # cs) = c # packets cs"
| "packets (PcapNgWriteInterfaceDesc t n # cs) = packets cs"
| "packets (PcapNgWriteSectionHeader # cs) = packets cs"

section \<open>The frame-end branch, named\<close>

text \<open>
  What \<open>Packet_end\<close> computes when it returns, written out once for the lemmas below:
  the array as passed to the writer, the comment, the arguments of the enhanced-packet
  call and the state afterwards (lemma \<open>frame_end_emits\<close>).
\<close>

definition frame_array :: "EVENT_RECORD \<Rightarrow> globals \<Rightarrow> ULONG \<Rightarrow> UCHAR list \<Rightarrow> UCHAR list" where
  "frame_array ev s len bytes =
     (let buf = copy_at (AuxFragBuf s) (unat (AuxFragBufOffset s)) (take (unat len) bytes)
      in if Keyword ev AND KW_MEDIA_NATIVE_802_11 \<noteq> 0 then clear_Protected buf else buf)"

definition frame_comment :: "EVENT_RECORD \<Rightarrow> globals \<Rightarrow> string" where
  "frame_comment ev s =
     (if AddMetadata s
      then metadata_text (PacketMetadata s)
             (DOT11_PHY_TYPE_NAMES ! unat (uPhyId (PacketMetadata s))) (ProcessId ev)
      else pid_text (ProcessId ev))"

definition frame_packet :: "EVENT_RECORD \<Rightarrow> globals \<Rightarrow> ULONG \<Rightarrow> ULONG \<Rightarrow> UCHAR list \<Rightarrow> enhanced_packet" where
  "frame_packet ev s ifid len bytes =
     \<lparr>FragBuf = frame_array ev s len bytes,
      FragLength = (if AddMetadata s
         then of_nat sizeof_DOT11_EXTSTA_RECV_CONTEXT + (AuxFragBufOffset s + len)
         else AuxFragBufOffset s + len),
      InterfaceId = ifid,
      IsSend = (if Keyword ev AND KW_SEND \<noteq> 0 then 1 else 0),
      TimeStampHigh = HighPart (convert_TimeStamp (TimeStamp ev)),
      TimeStampLow = LowPart (convert_TimeStamp (TimeStamp ev)),
      Comment = Some (frame_comment ev s),
      CommentLength = of_nat (length (frame_comment ev s))\<rparr>"

definition frame_end_state :: "EVENT_RECORD \<Rightarrow> globals \<Rightarrow> ULONG \<Rightarrow> ULONG \<Rightarrow> UCHAR list \<Rightarrow> globals" where
  "frame_end_state ev s ifid len bytes =
     s\<lparr>AuxFragBuf := frame_array ev s len bytes,
       OutFile := OutFile s @ [PcapNgWriteEnhancedPacket (frame_packet ev s ifid len bytes)],
       AddMetadata := False, PacketMetadata := zero_metadata,
       AuxFragBufOffset := 0, NumFramesConverted := NumFramesConverted s + 1\<rparr>"

section \<open>Fragment events of one frame\<close>

text \<open>
  A well-formed fragment event on interface \<open>L\<close>: it comes from the capture provider
  with one of the two fragment ids, its three properties can be read, and its
  \<open>FragmentSize\<close> is the number of bytes it carries.
\<close>

definition fragment_bytes :: "EVENT_RECORD \<Rightarrow> UCHAR list" where
  "fragment_bytes ev = (case prop_Fragment ev of Inr bytes \<Rightarrow> bytes | Inl err \<Rightarrow> [])"

definition fragment_event :: "ULONG \<Rightarrow> EVENT_RECORD \<Rightarrow> bool" where
  "fragment_event L ev \<longleftrightarrow>
     ProviderId ev = NdisCapId \<and>
     (Id ev = tidPacketFragment \<or> Id ev = tidVMSwitchPacketFragment) \<and>
     prop_LowerIfIndex ev = Inr L \<and>
     (case prop_Fragment ev of
        Inr bytes \<Rightarrow> prop_FragmentSize ev = Inr (of_nat (length bytes))
      | Inl err \<Rightarrow> False)"

section \<open>The order of \<open>InterfaceCompareFn\<close> as a key\<close>

text \<open>
  \<open>InterfaceCompareFn A B \<le> 0\<close> is the lexicographic order of these triples (lemma
  \<open>InterfaceCompareFn_key\<close>): the miniport's index, then 0 for the miniport itself and
  1 for an interface layered over it, then the interface's own index.
\<close>

definition interface_key :: "INTERFACE \<Rightarrow> nat \<times> nat \<times> nat" where
  "interface_key A =
     (unat (MiniportIfIndex A),
      if LowerIfIndex A = MiniportIfIndex A then 0 else 1,
      unat (LowerIfIndex A))"


section \<open>A concrete run\<close>

text \<open>
  One Ethernet interface, \<open>LowerIfIndex = MiniportIfIndex = 7\<close>, seen in pass 1 and
  written out by \<open>WriteInterfaces\<close>; \<open>example_pass2\<close> is the state at the start of
  pass 2 (lemma \<open>example_pass2_reached\<close>).
\<close>

definition example_Iface :: INTERFACE where
  "example_Iface =
     \<lparr>LowerIfIndex = 7, MiniportIfIndex = 7, PcapNgIfIndex = Some 0,
      Type = PCAPNG_LINKTYPE_ETHERNET\<rparr>"

definition example_pass2 :: globals where
  "example_pass2 =
     \<lparr>OutFile = [PcapNgWriteSectionHeader,
                 PcapNgWriteInterfaceDesc PCAPNG_LINKTYPE_ETHERNET MAX_PACKET_SIZE],
      NumFramesConverted = 0, Pass2 = True,
      AuxFragBuf = replicate MAX_PACKET_SIZE 0, AuxFragBufOffset = 0,
      PacketMetadata = zero_metadata, AddMetadata = False,
      InterfaceHashTable = (\<lambda>_. [])(7 := [example_Iface]), NumInterfaces = 1,
      console = [IF_line PCAPNG_LINKTYPE_ETHERNET 0 7 None],
      malloc_ok = (\<lambda>_. True), malloc_calls = 2\<rparr>"

text \<open>A fragment event on interface 7, with the given keyword, time stamp and bytes.\<close>

definition example_fragment :: "ULONGLONG \<Rightarrow> ULONGLONG \<Rightarrow> UCHAR list \<Rightarrow> EVENT_RECORD" where
  "example_fragment kw ts bytes =
     \<lparr>ProviderId = NdisCapId, Id = tidPacketFragment, Keyword = kw, TimeStamp = ts,
      ProcessId = 4242, prop_LowerIfIndex = Inr 7, prop_MiniportIfIndex = Inr 7,
      prop_MetadataSize = Inl 1168, prop_Metadata = Inl 1168,
      prop_FragmentSize = Inr (of_nat (length bytes)), prop_Fragment = Inr bytes\<rparr>"

text \<open>A metadata event on interface 7 carrying the given record.\<close>

definition example_metadata :: "DOT11_EXTSTA_RECV_CONTEXT \<Rightarrow> EVENT_RECORD" where
  "example_metadata md =
     \<lparr>ProviderId = NdisCapId, Id = tidPacketMetadata, Keyword = KW_MEDIA_NATIVE_802_11,
      TimeStamp = 116444736000000000, ProcessId = 4242,
      prop_LowerIfIndex = Inr 7, prop_MiniportIfIndex = Inr 7,
      prop_MetadataSize = Inr 48, prop_Metadata = Inr md,
      prop_FragmentSize = Inl 1168, prop_Fragment = Inl 1168\<rparr>"

text \<open>A metadata record (802.11n, -60 dBm) and the state in which it is pending.\<close>

definition example_record :: DOT11_EXTSTA_RECV_CONTEXT where
  "example_record =
     \<lparr>Header_Type = 0x80, Header_Revision = 1, Header_Size = 48, uReceiveFlags = 0x1f,
      uPhyId = 7, uChCenterFrequency = 2437, usNumberOfMPDUsReceived = 1,
      lRSSI = 0xFFFFFFC4, ucDataRate = 130, uSizeMediaSpecificInfo = 0,
      pvMediaSpecificInfo = 0, ullTimestamp = 0\<rparr>"

definition example_pending :: globals where
  "example_pending = example_pass2\<lparr>PacketMetadata := example_record, AddMetadata := True\<rparr>"

text \<open>
  The first event of pass 1 that shows interface \<open>L\<close>, layered over miniport \<open>M\<close>.
\<close>

definition discovery :: "ULONG \<times> ULONG \<Rightarrow> EVENT_RECORD" where
  "discovery LM =
     \<lparr>ProviderId = NdisCapId, Id = tidPacketFragment,
      Keyword = KW_PACKET_START OR KW_PACKET_END, TimeStamp = 116444736000000000,
      ProcessId = 4242, prop_LowerIfIndex = Inr (fst LM), prop_MiniportIfIndex = Inr (snd LM),
      prop_MetadataSize = Inl 1168, prop_Metadata = Inl 1168,
      prop_FragmentSize = Inr 0, prop_Fragment = Inr []\<rparr>"

text \<open>
  The state after a pass 1 that has seen the interfaces (7 over 5), (5 over 5) and
  (3 over 3), all Ethernet, in any order: they fall into three different buckets.
\<close>

definition example_three :: "(nat \<Rightarrow> bool) \<Rightarrow> globals" where
  "example_three m =
     (initial_globals m)
       \<lparr>InterfaceHashTable :=
          (\<lambda>b. if b = 3 then
                  [\<lparr>LowerIfIndex = 3, MiniportIfIndex = 3, PcapNgIfIndex = None,
                    Type = PCAPNG_LINKTYPE_ETHERNET\<rparr>]
                else if b = 5 then
                  [\<lparr>LowerIfIndex = 5, MiniportIfIndex = 5, PcapNgIfIndex = None,
                    Type = PCAPNG_LINKTYPE_ETHERNET\<rparr>]
                else if b = 7 then
                  [\<lparr>LowerIfIndex = 7, MiniportIfIndex = 5, PcapNgIfIndex = None,
                    Type = PCAPNG_LINKTYPE_ETHERNET\<rparr>]
                else []),
        NumInterfaces := 3, malloc_calls := 3\<rparr>"

text \<open>The state after a pass 1 that has seen interface 7 alone.\<close>

definition example_one :: globals where
  "example_one =
     (initial_globals (\<lambda>_. True))
       \<lparr>OutFile := [PcapNgWriteSectionHeader],
        InterfaceHashTable :=
          (\<lambda>b. if b = 7 then
                  [\<lparr>LowerIfIndex = 7, MiniportIfIndex = 7, PcapNgIfIndex = None,
                    Type = PCAPNG_LINKTYPE_ETHERNET\<rparr>]
                else []),
        NumInterfaces := 1, malloc_calls := 1\<rparr>"


text \<open>
  A trace whose keywords disagree: interface 7 is first seen in an event without a
  media keyword, so pass 1 registers it as Ethernet; the second event, on the same
  interface, is a single-fragment frame of three bytes that carries the native-802.11
  keyword, with byte 1 equal to 0xC0. Pass 1 prints its warning at this event and keeps
  the interface's type; \<open>example_mixed_pass2\<close> is the state in which pass 2 begins.
\<close>

definition wifi_frame :: EVENT_RECORD where
  "wifi_frame = example_fragment (KW_PACKET_END OR KW_MEDIA_NATIVE_802_11)
     116444736000000000 [0x08, 0xC0, 0x3A]"

definition example_mixed :: "EVENT_RECORD list" where
  "example_mixed = [discovery (7, 7), wifi_frame]"

definition example_mixed_pass2 :: globals where
  "example_mixed_pass2 = example_pass2\<lparr>console :=
          [inconsistent_media_type, IF_line PCAPNG_LINKTYPE_ETHERNET 0 7 None]\<rparr>"

text \<open>
  A trace with a metadata record whose phy id is 11, one past the last entry of the
  table of names: interface 7 is seen, then the metadata event, then a single-fragment
  frame.
\<close>

definition example_unknown_phy :: "EVENT_RECORD list" where
  "example_unknown_phy =
     [discovery (7, 7), example_metadata (example_record\<lparr>uPhyId := 11\<rparr>),
      example_fragment KW_PACKET_END 116444736000000010 [0x08, 0xC0, 0x3A]]"

section \<open>Time stamps\<close>

lemma sint_convert_TimeStamp:
  "sint (convert_TimeStamp t) = sint t sdiv 10 - 11644473600000000"
proof -
  have lo: "- (2 ^ 63) \<le> sint t" and hi: "sint t < 2 ^ 63"
    using sint_ge [of t] sint_lt [of t] by simp_all
  have a: "- (2 ^ 63) \<le> sint t sdiv 10 - 11644473600000000"
    using lo hi by (auto simp add: signed_divide_int_def sgn_if abs_if)
  have b: "sint t sdiv 10 - 11644473600000000 < 2 ^ 63"
    using lo hi by (auto simp add: signed_divide_int_def sgn_if abs_if)
  have "sint (word_of_int x :: 64 word) = x" if "- (2 ^ 63) \<le> x" "x < 2 ^ 63" for x :: int
    using that signed_take_bit_int_eq_self [of 63 x] by (simp only: sint_sbintrunc') simp
  from this [OF a b] show ?thesis
    unfolding convert_TimeStamp_def .
qed

lemma convert_epoch: "convert_TimeStamp 116444736000000000 = 0"
  by (simp add: convert_TimeStamp_def signed_divide_int_def)

lemma word_cat_halves: "(word_cat (HighPart q) (LowPart q) :: 64 word) = q"
  unfolding HighPart_def LowPart_def
  by (rule bit_word_eqI) (auto simp add: bit_word_cat_iff bit_ucast_iff bit_drop_bit_eq)

section \<open>Length of the formatted comments\<close>

lemma length_fmt_u: "0 < k \<Longrightarrow> n < 10 ^ k \<Longrightarrow> length (fmt_u n) \<le> k"
proof (induction k arbitrary: n)
  case 0
  then show ?case by simp
next
  case (Suc k)
  show ?case
  proof (cases "n < 10")
    case True
    then show ?thesis by (simp add: fmt_u.simps [of n])
  next
    case False
    then have k: "0 < k" using Suc.prems by (cases k) auto
    have "n div 10 < 10 ^ k" using Suc.prems by (simp add: less_mult_imp_div_less mult.commute)
    from Suc.IH [OF k this] False show ?thesis by (simp add: fmt_u.simps [of n])
  qed
qed

lemma length_fmt_x: "0 < k \<Longrightarrow> n < 16 ^ k \<Longrightarrow> length (fmt_x n) \<le> k"
proof (induction k arbitrary: n)
  case 0
  then show ?case by simp
next
  case (Suc k)
  show ?case
  proof (cases "n < 16")
    case True
    then show ?thesis by (simp add: fmt_x.simps [of n])
  next
    case False
    then have k: "0 < k" using Suc.prems by (cases k) auto
    have "n div 16 < 16 ^ k" using Suc.prems by (simp add: less_mult_imp_div_less mult.commute)
    from Suc.IH [OF k this] False show ?thesis by (simp add: fmt_x.simps [of n])
  qed
qed

lemma fmt_u_nonempty: "fmt_u n \<noteq> []"
  by (simp add: fmt_u.simps [of n])

lemma length_fmt_u32: "length (fmt_u (unat (w :: 32 word))) \<le> 10"
proof -
  have "unat w < 2 ^ 32" using unsigned_less [of w] by simp
  then have "unat w < 10 ^ 10" by simp
  then show ?thesis by (intro length_fmt_u) simp_all
qed

lemma length_fmt_u16: "length (fmt_u (unat (w :: 16 word))) \<le> 5"
proof -
  have "unat w < 2 ^ 16" using unsigned_less [of w] by simp
  then have "unat w < 10 ^ 5" by simp
  then show ?thesis by (intro length_fmt_u) simp_all
qed

lemma length_fmt_u8: "length (fmt_u (unat (w :: 8 word))) \<le> 3"
proof -
  have "unat w < 2 ^ 8" using unsigned_less [of w] by simp
  then have "unat w < 10 ^ 3" by simp
  then show ?thesis by (intro length_fmt_u) simp_all
qed

lemma length_fmt_x32: "length (fmt_x (unat (w :: 32 word))) \<le> 8"
proof -
  have "unat w < 2 ^ 32" using unsigned_less [of w] by simp
  then have "unat w < 16 ^ 8" by simp
  then show ?thesis by (intro length_fmt_x) simp_all
qed

lemma length_fmt_d32: "length (fmt_d (sint (w :: 32 word))) \<le> 11"
proof -
  have lo: "- (2 ^ 31) \<le> sint w" and hi: "sint w < 2 ^ 31"
    using sint_ge [of w] sint_lt [of w] by simp_all
  have "nat (- sint w) < 10 ^ 10" "nat (sint w) < 10 ^ 10" using lo hi by simp_all
  then have "length (fmt_u (nat (- sint w))) \<le> 10" "length (fmt_u (nat (sint w))) \<le> 10"
    by (auto intro!: length_fmt_u)
  then show ?thesis by (simp add: fmt_d_def)
qed

lemma length_pid_text: "length (pid_text pid) \<le> 15"
  using length_fmt_d32 [of pid] by (simp add: pid_text_def)

lemma pid_text_nonempty: "0 < length (pid_text pid)"
  by (simp add: pid_text_def)

lemma length_phy_name:
  assumes "n < length DOT11_PHY_TYPE_NAMES"
  shows "length (DOT11_PHY_TYPE_NAMES ! n) \<le> 10"
proof -
  have "\<forall>x \<in> set DOT11_PHY_TYPE_NAMES. length x \<le> 10"
    by (simp add: DOT11_PHY_TYPE_NAMES_def)
  with assms show ?thesis using nth_mem by blast
qed

lemma length_metadata_text:
  assumes "n < length DOT11_PHY_TYPE_NAMES"
  shows "length (metadata_text md (DOT11_PHY_TYPE_NAMES ! n) pid) < MAX_PACKET_SIZE"
  using length_phy_name [OF assms] length_fmt_x32 [of "uReceiveFlags md"]
    length_fmt_u32 [of "uChCenterFrequency md"] length_fmt_u16 [of "usNumberOfMPDUsReceived md"]
    length_fmt_d32 [of "lRSSI md"] length_fmt_u8 [of "ucDataRate md"] length_fmt_d32 [of pid]
  by (simp add: metadata_text_def MAX_PACKET_SIZE_def)

lemma metadata_text_nonempty: "0 < length (metadata_text md n pid)"
  by (simp add: metadata_text_def)

section \<open>The frame-end branch in closed form\<close>

lemma StringCch_pid:
  "(case StringCchPrintfA COMMENT_MAX_SIZE (pid_text pid) of None \<Rightarrow> 0
    | Some c \<Rightarrow> (case StringCchLengthA c COMMENT_MAX_SIZE of None \<Rightarrow> 0 | Some n \<Rightarrow> n))
   = length (pid_text pid)"
  using length_pid_text [of pid]
  by (simp add: StringCchPrintfA_def StringCchLengthA_def COMMENT_MAX_SIZE_def)

lemma CombineMetadataWithPacket_in_bounds:
  assumes "unat (uPhyId md) < length DOT11_PHY_TYPE_NAMES"
  shows "CombineMetadataWithPacket buf len ifid issend hi lo md pid s =
     Inr (s\<lparr>OutFile := OutFile s @
            [PcapNgWriteEnhancedPacket
               \<lparr>FragBuf = buf,
                FragLength = of_nat sizeof_DOT11_EXTSTA_RECV_CONTEXT + len,
                InterfaceId = ifid, IsSend = issend,
                TimeStampHigh = hi, TimeStampLow = lo,
                Comment = Some (metadata_text md (DOT11_PHY_TYPE_NAMES ! unat (uPhyId md)) pid),
                CommentLength = of_nat (length
                  (metadata_text md (DOT11_PHY_TYPE_NAMES ! unat (uPhyId md)) pid))\<rparr>]\<rparr>)"
  using assms length_metadata_text [OF assms, of md pid] metadata_text_nonempty
  by (simp add: CombineMetadataWithPacket_def StringCchPrintfA_def StringCchLengthA_def Let_def)

lemma CombineMetadataWithPacket_out_of_bounds:
  assumes "length DOT11_PHY_TYPE_NAMES \<le> unat (uPhyId md)"
  shows "CombineMetadataWithPacket buf len ifid issend hi lo md pid s = Inl phy_name_out_of_bounds"
  using assms by (simp add: CombineMetadataWithPacket_def)

lemma Packet_end_no_metadata:
  assumes "\<not> AddMetadata s" "PcapNgIfIndex Iface = Some ifid"
  shows "Packet_end ev Iface len buf s =
     Inr (s\<lparr>AuxFragBuf := (if Keyword ev AND KW_MEDIA_NATIVE_802_11 \<noteq> 0 then clear_Protected buf else buf),
            OutFile := OutFile s @
              [PcapNgWriteEnhancedPacket
                 \<lparr>FragBuf = (if Keyword ev AND KW_MEDIA_NATIVE_802_11 \<noteq> 0 then clear_Protected buf else buf),
                  FragLength = AuxFragBufOffset s + len,
                  InterfaceId = ifid,
                  IsSend = (if Keyword ev AND KW_SEND \<noteq> 0 then 1 else 0),
                  TimeStampHigh = HighPart (convert_TimeStamp (TimeStamp ev)),
                  TimeStampLow = LowPart (convert_TimeStamp (TimeStamp ev)),
                  Comment = Some (pid_text (ProcessId ev)),
                  CommentLength = of_nat (length (pid_text (ProcessId ev)))\<rparr>],
            AddMetadata := False, PacketMetadata := zero_metadata,
            AuxFragBufOffset := 0, NumFramesConverted := NumFramesConverted s + 1\<rparr>)"
  using assms pid_text_nonempty [of "ProcessId ev"]
  by (simp add: Packet_end_def Let_def StringCch_pid)

lemma Packet_end_metadata:
  assumes "AddMetadata s" "PcapNgIfIndex Iface = Some ifid"
    "unat (uPhyId (PacketMetadata s)) < length DOT11_PHY_TYPE_NAMES"
  shows "Packet_end ev Iface len buf s =
     Inr (s\<lparr>AuxFragBuf := (if Keyword ev AND KW_MEDIA_NATIVE_802_11 \<noteq> 0 then clear_Protected buf else buf),
            OutFile := OutFile s @
              [PcapNgWriteEnhancedPacket
                 \<lparr>FragBuf = (if Keyword ev AND KW_MEDIA_NATIVE_802_11 \<noteq> 0 then clear_Protected buf else buf),
                  FragLength = of_nat sizeof_DOT11_EXTSTA_RECV_CONTEXT + (AuxFragBufOffset s + len),
                  InterfaceId = ifid,
                  IsSend = (if Keyword ev AND KW_SEND \<noteq> 0 then 1 else 0),
                  TimeStampHigh = HighPart (convert_TimeStamp (TimeStamp ev)),
                  TimeStampLow = LowPart (convert_TimeStamp (TimeStamp ev)),
                  Comment = Some (metadata_text (PacketMetadata s)
                     (DOT11_PHY_TYPE_NAMES ! unat (uPhyId (PacketMetadata s))) (ProcessId ev)),
                  CommentLength = of_nat (length (metadata_text (PacketMetadata s)
                     (DOT11_PHY_TYPE_NAMES ! unat (uPhyId (PacketMetadata s))) (ProcessId ev)))\<rparr>],
            AddMetadata := False, PacketMetadata := zero_metadata,
            AuxFragBufOffset := 0, NumFramesConverted := NumFramesConverted s + 1\<rparr>)"
  using assms
  by (simp add: Packet_end_def Let_def CombineMetadataWithPacket_in_bounds)

lemma Packet_end_out_of_bounds:
  assumes "AddMetadata s" "PcapNgIfIndex Iface = Some ifid"
    "length DOT11_PHY_TYPE_NAMES \<le> unat (uPhyId (PacketMetadata s))"
  shows "Packet_end ev Iface len buf s = Inl phy_name_out_of_bounds"
  using assms
  by (simp add: Packet_end_def Let_def CombineMetadataWithPacket_out_of_bounds)

lemma Packet_end_indeterminate:
  assumes "PcapNgIfIndex Iface = None"
  shows "Packet_end ev Iface len buf s = Inl indeterminate_PcapNgIfIndex"
  using assms by (simp add: Packet_end_def Let_def)

section \<open>Which calls of the callback write a packet\<close>

lemma unat_ucast_32_64: "unat (ucast (w :: 32 word) :: 64 word) = unat w"
proof -
  have "unat w < 2 ^ 32" using unsigned_less [of w] by simp
  then have "unat w < 2 ^ 64" by simp
  then show ?thesis by (simp add: unsigned_ucast_eq take_bit_nat_eq_self)
qed

lemma size_check:
  assumes "unat off \<le> MAX_PACKET_SIZE"
  shows "((of_nat MAX_PACKET_SIZE :: 64 word) - ucast (off :: 32 word) < ucast (len :: 32 word))
     \<longleftrightarrow> MAX_PACKET_SIZE < unat off + unat len"
proof -
  have le: "(ucast off :: 64 word) \<le> of_nat MAX_PACKET_SIZE"
    using assms by (simp add: word_le_nat_alt unat_ucast_32_64 MAX_PACKET_SIZE_def)
  have "unat ((of_nat MAX_PACKET_SIZE :: 64 word) - ucast off) = MAX_PACKET_SIZE - unat off"
    using le by (simp add: unat_sub unat_ucast_32_64 MAX_PACKET_SIZE_def)
  then show ?thesis
    using assms by (auto simp add: word_less_nat_alt unat_ucast_32_64)
qed

lemma Pass1_event_OutFile:
  "Pass1_event ev L s = Inr s' \<Longrightarrow> OutFile s' = OutFile s"
  by (auto simp add: Pass1_event_def AddInterface_def printf_def Let_def
      split: option.splits sum.splits if_splits)

lemma Metadata_event_OutFile: "OutFile (Metadata_event ev s) = OutFile s"
  by (simp add: Metadata_event_def printf_def split: sum.splits)

lemma emission_cases:
  assumes "EventCallback ev s = Inr s'" "OutFile s' \<noteq> OutFile s"
  obtains L Iface len bytes where
    "Pass2 s" "ProviderId ev = NdisCapId" "Id ev = tidPacketFragment \<or> Id ev = tidVMSwitchPacketFragment"
    "prop_LowerIfIndex ev = Inr L" "GetInterface L s = Some Iface"
    "prop_FragmentSize ev = Inr len" "prop_Fragment ev = Inr bytes"
    "\<not> (of_nat MAX_PACKET_SIZE :: 64 word) - ucast (AuxFragBufOffset s) < ucast len"
    "Keyword ev AND KW_PACKET_END \<noteq> 0"
    "Packet_end ev Iface len
       (copy_at (AuxFragBuf s) (unat (AuxFragBufOffset s)) (take (unat len) bytes)) s = Inr s'"
  using assms
  by (auto simp add: EventCallback_def Fragment_event_def Pass1_event_OutFile
      Metadata_event_OutFile printf_def Let_def
      split: option.splits sum.splits if_splits)

lemma Packet_end_Inr:
  assumes "Packet_end ev Iface len buf s = Inr s'"
  obtains ifid where
    "PcapNgIfIndex Iface = Some ifid"
    "AddMetadata s \<Longrightarrow> unat (uPhyId (PacketMetadata s)) < length DOT11_PHY_TYPE_NAMES"
    "s' = s\<lparr>AuxFragBuf := (if Keyword ev AND KW_MEDIA_NATIVE_802_11 \<noteq> 0 then clear_Protected buf else buf),
            OutFile := OutFile s @
              [PcapNgWriteEnhancedPacket
                 \<lparr>FragBuf = (if Keyword ev AND KW_MEDIA_NATIVE_802_11 \<noteq> 0 then clear_Protected buf else buf),
                  FragLength = (if AddMetadata s
                     then of_nat sizeof_DOT11_EXTSTA_RECV_CONTEXT + (AuxFragBufOffset s + len)
                     else AuxFragBufOffset s + len),
                  InterfaceId = ifid,
                  IsSend = (if Keyword ev AND KW_SEND \<noteq> 0 then 1 else 0),
                  TimeStampHigh = HighPart (convert_TimeStamp (TimeStamp ev)),
                  TimeStampLow = LowPart (convert_TimeStamp (TimeStamp ev)),
                  Comment = Some (if AddMetadata s
                     then metadata_text (PacketMetadata s)
                       (DOT11_PHY_TYPE_NAMES ! unat (uPhyId (PacketMetadata s))) (ProcessId ev)
                     else pid_text (ProcessId ev)),
                  CommentLength = of_nat (length (if AddMetadata s
                     then metadata_text (PacketMetadata s)
                       (DOT11_PHY_TYPE_NAMES ! unat (uPhyId (PacketMetadata s))) (ProcessId ev)
                     else pid_text (ProcessId ev)))\<rparr>],
            AddMetadata := False, PacketMetadata := zero_metadata,
            AuxFragBufOffset := 0, NumFramesConverted := NumFramesConverted s + 1\<rparr>"
proof (cases "PcapNgIfIndex Iface")
  case None
  with assms show ?thesis by (simp add: Packet_end_indeterminate)
next
  case (Some ifid)
  show ?thesis
  proof (cases "AddMetadata s")
    case False
    with assms Some that [of ifid] show ?thesis
      by (simp add: Packet_end_no_metadata)
  next
    case True
    show ?thesis
    proof (cases "unat (uPhyId (PacketMetadata s)) < length DOT11_PHY_TYPE_NAMES")
      case False
      with assms Some True show ?thesis by (simp add: Packet_end_out_of_bounds)
    next
      case ib: True
      with assms Some True that [of ifid] show ?thesis
        by (simp add: Packet_end_metadata)
    qed
  qed
qed

lemma emitted_packet:
  assumes "EventCallback ev s = Inr s'" "OutFile s' = OutFile s @ [PcapNgWriteEnhancedPacket c]"
  obtains L Iface ifid len bytes where
    "Pass2 s" "ProviderId ev = NdisCapId"
    "Id ev = tidPacketFragment \<or> Id ev = tidVMSwitchPacketFragment"
    "prop_LowerIfIndex ev = Inr L" "GetInterface L s = Some Iface"
    "PcapNgIfIndex Iface = Some ifid"
    "prop_FragmentSize ev = Inr len" "prop_Fragment ev = Inr bytes"
    "\<not> (of_nat MAX_PACKET_SIZE :: 64 word) - ucast (AuxFragBufOffset s) < ucast len"
    "Keyword ev AND KW_PACKET_END \<noteq> 0"
    "AddMetadata s \<Longrightarrow> unat (uPhyId (PacketMetadata s)) < length DOT11_PHY_TYPE_NAMES"
    "FragBuf c = (if Keyword ev AND KW_MEDIA_NATIVE_802_11 \<noteq> 0
        then clear_Protected (copy_at (AuxFragBuf s) (unat (AuxFragBufOffset s)) (take (unat len) bytes))
        else copy_at (AuxFragBuf s) (unat (AuxFragBufOffset s)) (take (unat len) bytes))"
    "FragLength c = (if AddMetadata s
        then of_nat sizeof_DOT11_EXTSTA_RECV_CONTEXT + (AuxFragBufOffset s + len)
        else AuxFragBufOffset s + len)"
    "InterfaceId c = ifid"
    "IsSend c = (if Keyword ev AND KW_SEND \<noteq> 0 then 1 else 0)"
    "TimeStampHigh c = HighPart (convert_TimeStamp (TimeStamp ev))"
    "TimeStampLow c = LowPart (convert_TimeStamp (TimeStamp ev))"
    "Comment c = Some (if AddMetadata s
        then metadata_text (PacketMetadata s)
          (DOT11_PHY_TYPE_NAMES ! unat (uPhyId (PacketMetadata s))) (ProcessId ev)
        else pid_text (ProcessId ev))"
    "\<not> AddMetadata s'" "PacketMetadata s' = zero_metadata" "AuxFragBufOffset s' = 0"
proof -
  from assms have "OutFile s' \<noteq> OutFile s" by simp
  from emission_cases [OF assms(1) this] obtain L Iface len bytes where
    h: "Pass2 s" "ProviderId ev = NdisCapId"
      "Id ev = tidPacketFragment \<or> Id ev = tidVMSwitchPacketFragment"
      "prop_LowerIfIndex ev = Inr L" "GetInterface L s = Some Iface"
      "prop_FragmentSize ev = Inr len" "prop_Fragment ev = Inr bytes"
      "\<not> (of_nat MAX_PACKET_SIZE :: 64 word) - ucast (AuxFragBufOffset s) < ucast len"
      "Keyword ev AND KW_PACKET_END \<noteq> 0"
    and pe: "Packet_end ev Iface len
       (copy_at (AuxFragBuf s) (unat (AuxFragBufOffset s)) (take (unat len) bytes)) s = Inr s'"
    by blast
  from Packet_end_Inr [OF pe] obtain ifid where
    i: "PcapNgIfIndex Iface = Some ifid"
      "AddMetadata s \<Longrightarrow> unat (uPhyId (PacketMetadata s)) < length DOT11_PHY_TYPE_NAMES"
    and s': "s' = s\<lparr>AuxFragBuf := (if Keyword ev AND KW_MEDIA_NATIVE_802_11 \<noteq> 0 then clear_Protected (copy_at (AuxFragBuf s) (unat (AuxFragBufOffset s)) (take (unat len) bytes)) else (copy_at (AuxFragBuf s) (unat (AuxFragBufOffset s)) (take (unat len) bytes))),
            OutFile := OutFile s @
              [PcapNgWriteEnhancedPacket
                 \<lparr>FragBuf = (if Keyword ev AND KW_MEDIA_NATIVE_802_11 \<noteq> 0 then clear_Protected (copy_at (AuxFragBuf s) (unat (AuxFragBufOffset s)) (take (unat len) bytes)) else (copy_at (AuxFragBuf s) (unat (AuxFragBufOffset s)) (take (unat len) bytes))),
                  FragLength = (if AddMetadata s
                     then of_nat sizeof_DOT11_EXTSTA_RECV_CONTEXT + (AuxFragBufOffset s + len)
                     else AuxFragBufOffset s + len),
                  InterfaceId = ifid,
                  IsSend = (if Keyword ev AND KW_SEND \<noteq> 0 then 1 else 0),
                  TimeStampHigh = HighPart (convert_TimeStamp (TimeStamp ev)),
                  TimeStampLow = LowPart (convert_TimeStamp (TimeStamp ev)),
                  Comment = Some (if AddMetadata s
                     then metadata_text (PacketMetadata s)
                       (DOT11_PHY_TYPE_NAMES ! unat (uPhyId (PacketMetadata s))) (ProcessId ev)
                     else pid_text (ProcessId ev)),
                  CommentLength = of_nat (length (if AddMetadata s
                     then metadata_text (PacketMetadata s)
                       (DOT11_PHY_TYPE_NAMES ! unat (uPhyId (PacketMetadata s))) (ProcessId ev)
                     else pid_text (ProcessId ev)))\<rparr>],
            AddMetadata := False, PacketMetadata := zero_metadata,
            AuxFragBufOffset := 0, NumFramesConverted := NumFramesConverted s + 1\<rparr>"
    by blast
  from s' assms(2) have c: "c = \<lparr>FragBuf = (if Keyword ev AND KW_MEDIA_NATIVE_802_11 \<noteq> 0 then clear_Protected (copy_at (AuxFragBuf s) (unat (AuxFragBufOffset s)) (take (unat len) bytes)) else (copy_at (AuxFragBuf s) (unat (AuxFragBufOffset s)) (take (unat len) bytes))),
                  FragLength = (if AddMetadata s
                     then of_nat sizeof_DOT11_EXTSTA_RECV_CONTEXT + (AuxFragBufOffset s + len)
                     else AuxFragBufOffset s + len),
                  InterfaceId = ifid,
                  IsSend = (if Keyword ev AND KW_SEND \<noteq> 0 then 1 else 0),
                  TimeStampHigh = HighPart (convert_TimeStamp (TimeStamp ev)),
                  TimeStampLow = LowPart (convert_TimeStamp (TimeStamp ev)),
                  Comment = Some (if AddMetadata s
                     then metadata_text (PacketMetadata s)
                       (DOT11_PHY_TYPE_NAMES ! unat (uPhyId (PacketMetadata s))) (ProcessId ev)
                     else pid_text (ProcessId ev)),
                  CommentLength = of_nat (length (if AddMetadata s
                     then metadata_text (PacketMetadata s)
                       (DOT11_PHY_TYPE_NAMES ! unat (uPhyId (PacketMetadata s))) (ProcessId ev)
                     else pid_text (ProcessId ev)))\<rparr>"
    by simp
  show ?thesis
    by (rule that [OF h(1-5) i(1) h(6-9) i(2)]) (simp_all add: c s')
qed

section \<open>Fragment and metadata events in closed form\<close>

lemma tid_distinct:
  "tidPacketFragment \<noteq> tidPacketMetadata" "tidVMSwitchPacketFragment \<noteq> tidPacketMetadata"
  "tidPacketFragment \<noteq> tidVMSwitchPacketFragment"
  by (simp_all add: tidPacketFragment_def tidPacketMetadata_def tidVMSwitchPacketFragment_def)

lemma EventCallback_fragment:
  assumes "Pass2 s" "ProviderId ev = NdisCapId"
    "Id ev = tidPacketFragment \<or> Id ev = tidVMSwitchPacketFragment"
    "prop_LowerIfIndex ev = Inr L" "GetInterface L s = Some Iface"
  shows "EventCallback ev s = Fragment_event ev Iface s"
  using assms tid_distinct by (auto simp add: EventCallback_def)

lemma EventCallback_metadata:
  assumes "Pass2 s" "ProviderId ev = NdisCapId" "Id ev = tidPacketMetadata"
    "prop_LowerIfIndex ev = Inr L" "GetInterface L s = Some Iface"
    "prop_MetadataSize ev = Inr len" "unat len = sizeof_DOT11_EXTSTA_RECV_CONTEXT"
    "prop_Metadata ev = Inr md"
  shows "EventCallback ev s = Inr (s\<lparr>PacketMetadata := md, AddMetadata := True\<rparr>)"
  using assms by (simp add: EventCallback_def Metadata_event_def)

lemma Fragment_event_end:
  assumes "prop_FragmentSize ev = Inr len" "prop_Fragment ev = Inr bytes"
    "unat (AuxFragBufOffset s) + unat len \<le> MAX_PACKET_SIZE"
    "Keyword ev AND KW_PACKET_END \<noteq> 0"
  shows "Fragment_event ev Iface s =
     Packet_end ev Iface len
       (copy_at (AuxFragBuf s) (unat (AuxFragBufOffset s)) (take (unat len) bytes)) s"
proof -
  have "unat (AuxFragBufOffset s) \<le> MAX_PACKET_SIZE" using assms(3) by simp
  from size_check [OF this, of len] assms show ?thesis
    by (simp add: Fragment_event_def)
qed

lemma Fragment_event_append:
  assumes "prop_FragmentSize ev = Inr len" "prop_Fragment ev = Inr bytes"
    "unat (AuxFragBufOffset s) + unat len \<le> MAX_PACKET_SIZE"
    "Keyword ev AND KW_PACKET_END = 0"
  shows "Fragment_event ev Iface s =
     Inr (s\<lparr>AuxFragBuf :=
              copy_at (AuxFragBuf s) (unat (AuxFragBufOffset s)) (take (unat len) bytes),
            AuxFragBufOffset := AuxFragBufOffset s + len\<rparr>)"
proof -
  have "unat (AuxFragBufOffset s) \<le> MAX_PACKET_SIZE" using assms(3) by simp
  from size_check [OF this, of len] assms show ?thesis
    by (simp add: Fragment_event_def)
qed

lemma Fragment_event_too_large:
  assumes "prop_FragmentSize ev = Inr len"
    "unat (AuxFragBufOffset s) \<le> MAX_PACKET_SIZE"
    "MAX_PACKET_SIZE < unat (AuxFragBufOffset s) + unat len"
  shows "Fragment_event ev Iface s =
     Inr (printf (packet_too_large (AuxFragBufOffset s + len)) s)"
  using size_check [OF assms(2), of len] assms by (simp add: Fragment_event_def)

lemma uint_HighPart: "uint (HighPart q) = uint q div 2 ^ 32"
proof -
  have "uint q < 2 ^ 64" using unsigned_less [of q] by simp
  then have "uint q div 2 ^ 32 < 2 ^ 32" by simp
  moreover have "0 \<le> uint q div 2 ^ 32" by (simp add: pos_imp_zdiv_nonneg_iff)
  moreover have "uint (drop_bit 32 q) = uint q div 2 ^ 32"
    by (simp add: drop_bit_eq_div uint_div_distrib)
  ultimately show ?thesis
    by (simp add: HighPart_def unsigned_ucast_eq take_bit_int_eq_self)
qed

lemma uint_LowPart: "uint (LowPart q) = uint q mod 2 ^ 32"
  by (simp add: LowPart_def unsigned_ucast_eq take_bit_eq_mod)

lemma and_0xBF: "(x :: 8 word) AND 0xBF = unset_bit 6 x"
proof -
  have "(0xBF :: 8 word) = NOT (push_bit 6 1)" by simp
  then show ?thesis by (simp only: unset_bit_eq_and_not)
qed

lemma and_0x40: "(x :: 8 word) AND 0x40 \<noteq> 0 \<longleftrightarrow> bit x 6"
proof -
  have "(0x40 :: 8 word) = 2 ^ 6" by simp
  then show ?thesis by (simp only: and_exp_eq_0_iff_not_bit) simp
qed

lemma clear_Protected_eq: "clear_Protected buf = buf[1 := unset_bit 6 (buf ! 1)]"
proof (cases "bit (buf ! 1) 6")
  case True
  then show ?thesis by (simp add: clear_Protected_def and_0x40 and_0xBF)
next
  case False
  have "unset_bit 6 (buf ! 1) = buf ! 1"
    by (rule bit_eqI) (use False in \<open>auto simp add: bit_unset_bit_iff\<close>)
  with False show ?thesis by (simp add: clear_Protected_def and_0x40)
qed

lemma length_copy_at:
  "off + length bytes \<le> length buf \<Longrightarrow> length (copy_at buf off bytes) = length buf"
  by (simp add: copy_at_def)

section \<open>The concrete run, evaluated\<close>

lemma example_fragment_fields:
  "ProviderId (example_fragment kw ts bytes) = NdisCapId"
  "Id (example_fragment kw ts bytes) = tidPacketFragment"
  "Keyword (example_fragment kw ts bytes) = kw"
  "TimeStamp (example_fragment kw ts bytes) = ts"
  "ProcessId (example_fragment kw ts bytes) = 4242"
  "prop_LowerIfIndex (example_fragment kw ts bytes) = Inr 7"
  "prop_FragmentSize (example_fragment kw ts bytes) = Inr (of_nat (length bytes))"
  "prop_Fragment (example_fragment kw ts bytes) = Inr bytes"
  by (simp_all add: example_fragment_def)

lemma example_metadata_fields:
  "ProviderId (example_metadata md) = NdisCapId"
  "Id (example_metadata md) = tidPacketMetadata"
  "prop_LowerIfIndex (example_metadata md) = Inr 7"
  "prop_MetadataSize (example_metadata md) = Inr 48"
  "prop_Metadata (example_metadata md) = Inr md"
  by (simp_all add: example_metadata_def)

lemma example_pass2_fields:
  "Pass2 example_pass2" "AuxFragBufOffset example_pass2 = 0"
  "AuxFragBuf example_pass2 = replicate MAX_PACKET_SIZE 0"
  "\<not> AddMetadata example_pass2" "PacketMetadata example_pass2 = zero_metadata"
  "OutFile example_pass2 =
     [PcapNgWriteSectionHeader, PcapNgWriteInterfaceDesc PCAPNG_LINKTYPE_ETHERNET MAX_PACKET_SIZE]"
  "NumFramesConverted example_pass2 = 0"
  by (simp_all add: example_pass2_def)

lemma example_GetInterface: "GetInterface 7 example_pass2 = Some example_Iface"
  by (simp add: GetInterface_def example_pass2_def IFACE_HT_SIZE_def example_Iface_def)

lemma example_Iface_index: "PcapNgIfIndex example_Iface = Some 0"
  by (simp add: example_Iface_def)

lemma frame_end_emits:
  assumes "Pass2 s" "ProviderId ev = NdisCapId"
    "Id ev = tidPacketFragment \<or> Id ev = tidVMSwitchPacketFragment"
    "prop_LowerIfIndex ev = Inr L" "GetInterface L s = Some Iface"
    "PcapNgIfIndex Iface = Some ifid"
    "prop_FragmentSize ev = Inr len" "prop_Fragment ev = Inr bytes"
    "unat (AuxFragBufOffset s) + unat len \<le> MAX_PACKET_SIZE"
    "Keyword ev AND KW_PACKET_END \<noteq> 0"
    "AddMetadata s \<longrightarrow> unat (uPhyId (PacketMetadata s)) < length DOT11_PHY_TYPE_NAMES"
  shows "EventCallback ev s = Inr (frame_end_state ev s ifid len bytes)"
proof -
  have "EventCallback ev s = Packet_end ev Iface len
       (copy_at (AuxFragBuf s) (unat (AuxFragBufOffset s)) (take (unat len) bytes)) s"
    using assms(1-5,7-10) by (simp add: EventCallback_fragment Fragment_event_end)
  also have "\<dots> = Inr (frame_end_state ev s ifid len bytes)"
  proof (cases "AddMetadata s")
    case True
    with assms(11) have "unat (uPhyId (PacketMetadata s)) < length DOT11_PHY_TYPE_NAMES"
      by simp
    from Packet_end_metadata [OF True assms(6) this] True show ?thesis
      by (simp add: frame_end_state_def frame_packet_def frame_array_def frame_comment_def Let_def)
  next
    case False
    from Packet_end_no_metadata [OF False assms(6)] False show ?thesis
      by (simp add: frame_end_state_def frame_packet_def frame_array_def frame_comment_def Let_def)
  qed
  finally show ?thesis .
qed

lemma frame_end_state_fields:
  "OutFile (frame_end_state ev s ifid len bytes) =
     OutFile s @ [PcapNgWriteEnhancedPacket (frame_packet ev s ifid len bytes)]"
  "\<not> AddMetadata (frame_end_state ev s ifid len bytes)"
  "PacketMetadata (frame_end_state ev s ifid len bytes) = zero_metadata"
  "AuxFragBufOffset (frame_end_state ev s ifid len bytes) = 0"
  "AuxFragBuf (frame_end_state ev s ifid len bytes) = frame_array ev s len bytes"
  "Pass2 (frame_end_state ev s ifid len bytes) = Pass2 s"
  "InterfaceHashTable (frame_end_state ev s ifid len bytes) = InterfaceHashTable s"
  "NumFramesConverted (frame_end_state ev s ifid len bytes) = NumFramesConverted s + 1"
  by (simp_all add: frame_end_state_def)

lemma frame_packet_fields:
  "FragBuf (frame_packet ev s ifid len bytes) = frame_array ev s len bytes"
  "FragLength (frame_packet ev s ifid len bytes) = (if AddMetadata s
         then of_nat sizeof_DOT11_EXTSTA_RECV_CONTEXT + (AuxFragBufOffset s + len)
         else AuxFragBufOffset s + len)"
  "InterfaceId (frame_packet ev s ifid len bytes) = ifid"
  "TimeStampHigh (frame_packet ev s ifid len bytes) = HighPart (convert_TimeStamp (TimeStamp ev))"
  "TimeStampLow (frame_packet ev s ifid len bytes) = LowPart (convert_TimeStamp (TimeStamp ev))"
  "Comment (frame_packet ev s ifid len bytes) = Some (frame_comment ev s)"
  by (simp_all add: frame_packet_def)

lemma GetInterface_cong:
  "InterfaceHashTable s' = InterfaceHashTable s \<Longrightarrow> GetInterface L s' = GetInterface L s"
  by (simp add: GetInterface_def)

lemma example_pending_fields:
  "Pass2 example_pending" "AuxFragBufOffset example_pending = 0"
  "AuxFragBuf example_pending = replicate MAX_PACKET_SIZE 0"
  "AddMetadata example_pending" "PacketMetadata example_pending = example_record"
  "OutFile example_pending =
     [PcapNgWriteSectionHeader, PcapNgWriteInterfaceDesc PCAPNG_LINKTYPE_ETHERNET MAX_PACKET_SIZE]"
  "GetInterface 7 example_pending = Some example_Iface"
  using example_GetInterface
  by (simp_all add: example_pending_def example_pass2_fields GetInterface_def)

lemma unat_length_32:
  "length bytes \<le> MAX_PACKET_SIZE \<Longrightarrow> unat (word_of_nat (length bytes) :: 32 word) = length bytes"
  by (simp add: unat_of_nat MAX_PACKET_SIZE_def)

lemma example_frame:
  assumes "kw AND KW_PACKET_END \<noteq> 0" "length bytes \<le> MAX_PACKET_SIZE"
  shows "EventCallback (example_fragment kw ts bytes) example_pass2 =
     Inr (frame_end_state (example_fragment kw ts bytes) example_pass2 0
            (of_nat (length bytes)) bytes)"
  using assms
  by (intro frame_end_emits [where L = 7 and Iface = example_Iface])
     (simp_all add: example_fragment_fields example_pass2_fields example_GetInterface
        example_Iface_index unat_length_32)

lemma example_frame_pending:
  assumes "kw AND KW_PACKET_END \<noteq> 0" "length bytes \<le> MAX_PACKET_SIZE"
  shows "EventCallback (example_fragment kw ts bytes) example_pending =
     Inr (frame_end_state (example_fragment kw ts bytes) example_pending 0
            (of_nat (length bytes)) bytes)"
  using assms
  by (intro frame_end_emits [where L = 7 and Iface = example_Iface])
     (simp_all add: example_fragment_fields example_pending_fields
        example_Iface_index unat_length_32 example_record_def DOT11_PHY_TYPE_NAMES_def)

lemma KW_PACKET_END_nonzero: "KW_PACKET_END \<noteq> 0"
  by (simp add: KW_PACKET_END_def)

lemma example_frame_3:
  "EventCallback (example_fragment KW_PACKET_END ts [a, b, c]) example_pass2 =
     Inr (frame_end_state (example_fragment KW_PACKET_END ts [a, b, c]) example_pass2 0 3
            [a, b, c])"
  using example_frame [of KW_PACKET_END "[a, b, c]" ts] KW_PACKET_END_nonzero
  by (simp add: MAX_PACKET_SIZE_def)

lemma example_frame_pending_3:
  "EventCallback (example_fragment KW_PACKET_END ts [a, b, c]) example_pending =
     Inr (frame_end_state (example_fragment KW_PACKET_END ts [a, b, c]) example_pending 0 3
            [a, b, c])"
  using example_frame_pending [of KW_PACKET_END "[a, b, c]" ts] KW_PACKET_END_nonzero
  by (simp add: MAX_PACKET_SIZE_def)

section \<open>Runs of fragment events\<close>

lemma ProcessTrace_append:
  "ProcessTrace (xs @ ys) s =
     (case ProcessTrace xs s of Inl e \<Rightarrow> Inl e | Inr s' \<Rightarrow> ProcessTrace ys s')"
  by (induction xs arbitrary: s) (auto split: sum.splits)

lemma copy_at_Nil: "copy_at buf off [] = buf"
  by (simp add: copy_at_def)

lemma copy_at_copy_at:
  assumes "off + length xs + length ys \<le> length buf"
  shows "copy_at (copy_at buf off xs) (off + length xs) ys = copy_at buf off (xs @ ys)"
  using assms by (simp add: copy_at_def ac_simps)

lemma take_copy_at_0:
  "length xs \<le> length buf \<Longrightarrow> take (length xs) (copy_at buf 0 xs) = xs"
  by (simp add: copy_at_def)

lemma fragment_eventD:
  assumes "fragment_event L ev"
  shows "ProviderId ev = NdisCapId"
    "Id ev = tidPacketFragment \<or> Id ev = tidVMSwitchPacketFragment"
    "prop_LowerIfIndex ev = Inr L"
    "prop_Fragment ev = Inr (fragment_bytes ev)"
    "prop_FragmentSize ev = Inr (of_nat (length (fragment_bytes ev)))"
  using assms by (auto simp add: fragment_event_def fragment_bytes_def split: sum.splits)

lemma fragment_appended:
  assumes "Pass2 s" "GetInterface L s = Some Iface" "fragment_event L ev"
    "Keyword ev AND KW_PACKET_END = 0"
    "unat (AuxFragBufOffset s) + length (fragment_bytes ev) \<le> MAX_PACKET_SIZE"
  shows "EventCallback ev s =
     Inr (s\<lparr>AuxFragBuf := copy_at (AuxFragBuf s) (unat (AuxFragBufOffset s)) (fragment_bytes ev),
            AuxFragBufOffset := AuxFragBufOffset s + of_nat (length (fragment_bytes ev))\<rparr>)"
proof -
  note d = fragment_eventD [OF assms(3)]
  have u: "unat (word_of_nat (length (fragment_bytes ev)) :: 32 word) = length (fragment_bytes ev)"
    using assms(5) by (intro unat_length_32) simp
  have "EventCallback ev s = Fragment_event ev Iface s"
    using assms(1) d(1-3) assms(2) by (rule EventCallback_fragment)
  also have "\<dots> = Inr (s\<lparr>AuxFragBuf :=
              copy_at (AuxFragBuf s) (unat (AuxFragBufOffset s))
                (take (unat (word_of_nat (length (fragment_bytes ev)) :: 32 word)) (fragment_bytes ev)),
            AuxFragBufOffset := AuxFragBufOffset s + of_nat (length (fragment_bytes ev))\<rparr>)"
    using d(5,4) _ assms(4) by (rule Fragment_event_append) (use u assms(5) in simp)
  finally show ?thesis by (simp add: u)
qed

lemma unat_offset_add:
  assumes "unat (off :: 32 word) + n \<le> MAX_PACKET_SIZE"
  shows "unat (off + of_nat n) = unat off + n"
proof -
  have "n \<le> MAX_PACKET_SIZE" using assms by simp
  then have u: "unat (word_of_nat n :: 32 word) = n"
    by (simp add: unat_of_nat MAX_PACKET_SIZE_def)
  have "unat off + unat (word_of_nat n :: 32 word) < 2 ^ LENGTH(32)"
    using assms u by (simp add: MAX_PACKET_SIZE_def)
  then have "unat (off + word_of_nat n) = unat off + unat (word_of_nat n :: 32 word)"
    by (rule unat_add_lem [THEN iffD1])
  with u show ?thesis by simp
qed

lemma fragments_accumulate:
  assumes "Pass2 s" "GetInterface L s = Some Iface"
    "\<forall>e \<in> set evs. fragment_event L e \<and> Keyword e AND KW_PACKET_END = 0"
    "unat (AuxFragBufOffset s) + length (concat (map fragment_bytes evs)) \<le> MAX_PACKET_SIZE"
    "length (AuxFragBuf s) = MAX_PACKET_SIZE"
  shows "ProcessTrace evs s =
     Inr (s\<lparr>AuxFragBuf := copy_at (AuxFragBuf s) (unat (AuxFragBufOffset s))
                            (concat (map fragment_bytes evs)),
            AuxFragBufOffset := AuxFragBufOffset s +
                            of_nat (length (concat (map fragment_bytes evs)))\<rparr>)"
  using assms
proof (induction evs arbitrary: s)
  case Nil
  then show ?case by (simp add: copy_at_Nil)
next
  case (Cons e evs)
  let ?b = "fragment_bytes e"
  let ?rest = "concat (map fragment_bytes evs)"
  let ?s1 = "s\<lparr>AuxFragBuf := copy_at (AuxFragBuf s) (unat (AuxFragBufOffset s)) ?b,
            AuxFragBufOffset := AuxFragBufOffset s + of_nat (length ?b)\<rparr>"
  have tot: "unat (AuxFragBufOffset s) + length ?b + length ?rest \<le> MAX_PACKET_SIZE"
    using Cons.prems(4) by simp
  then have fit: "unat (AuxFragBufOffset s) + length ?b \<le> MAX_PACKET_SIZE" by simp
  from Cons.prems(3) have fe: "fragment_event L e" "Keyword e AND KW_PACKET_END = 0"
    by simp_all
  have step: "EventCallback e s = Inr ?s1"
    using Cons.prems(1,2) fe fit by (rule fragment_appended)
  have off1: "unat (AuxFragBufOffset ?s1) = unat (AuxFragBufOffset s) + length ?b"
    using unat_offset_add [OF fit] by simp
  have len1: "length (AuxFragBuf ?s1) = MAX_PACKET_SIZE"
    using fit Cons.prems(5) by (simp add: length_copy_at)
  have g1: "GetInterface L ?s1 = Some Iface"
    using Cons.prems(2) by (simp add: GetInterface_def)
  have p1: "Pass2 ?s1" using Cons.prems(1) by simp
  have a3: "\<forall>e \<in> set evs. fragment_event L e \<and> Keyword e AND KW_PACKET_END = 0"
    using Cons.prems(3) by simp
  have a4: "unat (AuxFragBufOffset ?s1) + length ?rest \<le> MAX_PACKET_SIZE"
    using tot off1 by simp
  note ih = Cons.IH [OF p1 g1 a3 a4 len1]
  have cc: "copy_at (copy_at (AuxFragBuf s) (unat (AuxFragBufOffset s)) ?b)
              (unat (AuxFragBufOffset s) + length ?b) ?rest =
            copy_at (AuxFragBuf s) (unat (AuxFragBufOffset s)) (?b @ ?rest)"
    using tot Cons.prems(5) by (intro copy_at_copy_at) simp
  have "ProcessTrace (e # evs) s = ProcessTrace evs ?s1"
    using step by simp
  also note ih
  also have "?s1\<lparr>AuxFragBuf := copy_at (AuxFragBuf ?s1) (unat (AuxFragBufOffset ?s1)) ?rest,
            AuxFragBufOffset := AuxFragBufOffset ?s1 + of_nat (length ?rest)\<rparr> =
      s\<lparr>AuxFragBuf := copy_at (AuxFragBuf s) (unat (AuxFragBufOffset s))
                            (concat (map fragment_bytes (e # evs))),
            AuxFragBufOffset := AuxFragBufOffset s +
                            of_nat (length (concat (map fragment_bytes (e # evs))))\<rparr>"
    using cc off1 by (simp add: add.assoc)
  finally show ?case .
qed

lemma length_concat_take:
  "length (concat (map f (take k xs))) \<le> length (concat (map f xs))"
proof -
  have "length (concat (map f xs)) =
      length (concat (map f (take k xs))) + length (concat (map f (drop k xs)))"
    by (metis append_take_drop_id concat_append length_append map_append)
  then show ?thesis by simp
qed

lemma nth_copy_at_0:
  "i < length xs \<Longrightarrow> copy_at buf 0 xs ! i = xs ! i"
  by (simp add: copy_at_def nth_append)

lemma take_clear_Protected:
  assumes "length xs \<le> length buf"
  shows "take (length xs) (clear_Protected (copy_at buf 0 xs)) = xs[1 := xs ! 1 AND 0xBF]"
proof -
  let ?X = "copy_at buf 0 xs"
  have t: "take (length xs) ?X = xs" using assms by (rule take_copy_at_0)
  have "take (length xs) (clear_Protected ?X) = (take (length xs) ?X)[1 := ?X ! 1 AND 0xBF]"
    by (simp add: clear_Protected_eq and_0xBF take_update_swap)
  also have "\<dots> = xs[1 := ?X ! 1 AND 0xBF]" by (simp only: t)
  also have "\<dots> = xs[1 := xs ! 1 AND 0xBF]"
  proof (cases "1 < length xs")
    case True
    then show ?thesis by (simp add: nth_copy_at_0)
  next
    case False
    then have "length xs \<le> 1" by simp
    then show ?thesis by (simp only: list_update_beyond)
  qed
  finally show ?thesis .
qed

section \<open>Sorting the interfaces\<close>

lemma InterfaceCompareFn_key:
  "InterfaceCompareFn A B \<le> 0 \<longleftrightarrow> interface_key A \<le> interface_key B"
proof -
  define ma mb la lb where "ma = unat (MiniportIfIndex A)" and "mb = unat (MiniportIfIndex B)"
    and "la = unat (LowerIfIndex A)" and "lb = unat (LowerIfIndex B)"
  have e: "MiniportIfIndex A = MiniportIfIndex B \<longleftrightarrow> ma = mb"
    "MiniportIfIndex A = LowerIfIndex A \<longleftrightarrow> ma = la"
    "LowerIfIndex A = MiniportIfIndex A \<longleftrightarrow> la = ma"
    "MiniportIfIndex B = LowerIfIndex B \<longleftrightarrow> mb = lb"
    "LowerIfIndex B = MiniportIfIndex B \<longleftrightarrow> lb = mb"
    "LowerIfIndex A < LowerIfIndex B \<longleftrightarrow> la < lb"
    "LowerIfIndex B < LowerIfIndex A \<longleftrightarrow> lb < la"
    "MiniportIfIndex A < MiniportIfIndex B \<longleftrightarrow> ma < mb"
    by (simp_all add: ma_def mb_def la_def lb_def word_less_nat_alt word_unat_eq_iff)
  have c: "InterfaceCompareFn A B \<le> 0 \<longleftrightarrow>
      (if ma = mb then (ma = la \<or> (mb \<noteq> lb \<and> la \<le> lb)) else ma < mb)"
    unfolding InterfaceCompareFn_def Let_def e by auto
  have k: "interface_key A = (ma, if la = ma then 0 else 1, la)"
    "interface_key B = (mb, if lb = mb then 0 else 1, lb)"
    unfolding interface_key_def e by (simp_all add: ma_def mb_def la_def lb_def)
  show ?thesis
    unfolding c k by (auto simp add: less_eq_prod_def less_prod_def)
qed

lemma qsort_insert_insort_key:
  assumes "\<And>a b. cmp a b \<le> 0 \<longleftrightarrow> key a \<le> key b"
  shows "qsort_insert cmp x ys = insort_key key x ys"
  by (induction ys) (simp_all add: assms)

lemma qsort_sort_key:
  assumes "\<And>a b. cmp a b \<le> 0 \<longleftrightarrow> (key a :: 'k :: linorder) \<le> key b"
  shows "qsort cmp xs = sort_key key xs"
proof -
  have "qsort_insert cmp = insort_key key"
    by (intro ext) (rule qsort_insert_insort_key [OF assms])
  then show ?thesis by (simp add: qsort_def sort_key_def)
qed

lemma InterfaceArray_sorted_sort_key:
  "InterfaceArray_sorted s = sort_key (\<lambda>p. interface_key (deref s p)) (collect_interfaces s)"
  unfolding InterfaceArray_sorted_def
  by (rule qsort_sort_key) (rule InterfaceCompareFn_key)

lemma sorted_wrt_distinct_map:
  assumes "sorted_wrt P xs" "distinct (map f xs)"
    "\<And>a b. P a b \<Longrightarrow> f a \<noteq> f b \<Longrightarrow> Q a b"
  shows "sorted_wrt Q xs"
  using assms(1,2)
proof (induction xs)
  case Nil
  then show ?case by simp
next
  case (Cons x xs)
  then show ?case by (auto intro: assms(3))
qed

lemma deref_set_PcapNgIfIndex:
  "deref (set_PcapNgIfIndex q i s) p =
     (if p = q \<and> snd q < length (InterfaceHashTable s (fst q))
      then (deref s p)\<lparr>PcapNgIfIndex := Some i\<rparr> else deref s p)"
proof (cases "fst p = fst q")
  case False
  then show ?thesis by (auto simp add: deref_def set_PcapNgIfIndex_def)
next
  case True
  show ?thesis
  proof (cases "snd p = snd q")
    case False
    with True show ?thesis
      by (auto simp add: deref_def set_PcapNgIfIndex_def prod_eq_iff)
  next
    case s: True
    with True have "p = q" by (simp add: prod_eq_iff)
    then show ?thesis
      by (auto simp add: deref_def set_PcapNgIfIndex_def not_less list_update_beyond)
  qed
qed

lemma length_set_PcapNgIfIndex:
  "length (InterfaceHashTable (set_PcapNgIfIndex q i s) b) = length (InterfaceHashTable s b)"
  by (simp add: set_PcapNgIfIndex_def)

lemma deref_write_step:
  "deref (write_step i q s) p =
     (if p = q \<and> snd q < length (InterfaceHashTable s (fst q))
      then (deref s p)\<lparr>PcapNgIfIndex := Some (of_nat i)\<rparr> else deref s p)"
proof -
  have "deref (write_step i q s) p = deref (set_PcapNgIfIndex q (of_nat i) s) p"
    by (simp add: write_step_def Let_def printf_def deref_def)
  then show ?thesis by (simp only: deref_set_PcapNgIfIndex)
qed

lemma length_write_step:
  "length (InterfaceHashTable (write_step i q s) b) = length (InterfaceHashTable s b)"
  by (simp add: write_step_def Let_def printf_def set_PcapNgIfIndex_def)

lemma OutFile_write_step:
  "OutFile (write_step i q s) =
     OutFile s @ [PcapNgWriteInterfaceDesc (Type (deref s q)) MAX_PACKET_SIZE]"
proof -
  have "Type (deref (set_PcapNgIfIndex q (of_nat i) s) q) = Type (deref s q)"
    by (simp add: deref_set_PcapNgIfIndex)
  then show ?thesis
    by (simp add: write_step_def Let_def printf_def set_PcapNgIfIndex_def)
qed

lemma write_loop_props:
  assumes "distinct ps" "\<forall>p \<in> set ps. snd p < length (InterfaceHashTable s (fst p))"
  shows "OutFile (write_loop k ps s) =
           OutFile s @ map (\<lambda>p. PcapNgWriteInterfaceDesc (Type (deref s p)) MAX_PACKET_SIZE) ps \<and>
         (\<forall>q. q \<notin> set ps \<longrightarrow> deref (write_loop k ps s) q = deref s q) \<and>
         (\<forall>j < length ps. deref (write_loop k ps s) (ps ! j) =
            (deref s (ps ! j))\<lparr>PcapNgIfIndex := Some (of_nat (k + j))\<rparr>)"
  using assms
proof (induction ps arbitrary: k s)
  case Nil
  then show ?case by simp
next
  case (Cons p ps)
  let ?s1 = "write_step k p s"
  have d: "distinct ps" and np: "p \<notin> set ps" using Cons.prems(1) by simp_all
  have vp: "snd p < length (InterfaceHashTable s (fst p))" using Cons.prems(2) by simp
  have v: "\<forall>q \<in> set ps. snd q < length (InterfaceHashTable ?s1 (fst q))"
    using Cons.prems(2) by (simp add: length_write_step)
  note ih = Cons.IH [OF d v, of "Suc k"]
  from ih have ih1: "OutFile (write_loop (Suc k) ps ?s1) =
      OutFile ?s1 @ map (\<lambda>p. PcapNgWriteInterfaceDesc (Type (deref ?s1 p)) MAX_PACKET_SIZE) ps"
    by (rule conjunct1)
  from ih have ih2: "deref (write_loop (Suc k) ps ?s1) q = deref ?s1 q" if "q \<notin> set ps" for q
    using that by blast
  from ih have ih3: "deref (write_loop (Suc k) ps ?s1) (ps ! j) =
      (deref ?s1 (ps ! j))\<lparr>PcapNgIfIndex := Some (of_nat (Suc k + j))\<rparr>" if "j < length ps" for j
    using that by blast
  have same: "deref ?s1 q = deref s q" if "q \<in> set ps" for q
    using that np by (auto simp add: deref_write_step)
  have out: "OutFile (write_loop k (p # ps) s) =
      OutFile s @ map (\<lambda>p. PcapNgWriteInterfaceDesc (Type (deref s p)) MAX_PACKET_SIZE) (p # ps)"
  proof -
    have "map (\<lambda>p. PcapNgWriteInterfaceDesc (Type (deref ?s1 p)) MAX_PACKET_SIZE) ps =
        map (\<lambda>p. PcapNgWriteInterfaceDesc (Type (deref s p)) MAX_PACKET_SIZE) ps"
      by (rule map_cong) (simp_all add: same)
    with ih1 show ?thesis by (simp add: OutFile_write_step)
  qed
  have others: "deref (write_loop k (p # ps) s) q = deref s q" if "q \<notin> set (p # ps)" for q
  proof -
    from that have a: "q \<notin> set ps" "q \<noteq> p" by auto
    have "deref (write_loop k (p # ps) s) q = deref ?s1 q" using ih2 [OF a(1)] by simp
    also have "\<dots> = deref s q" using a(2) by (simp add: deref_write_step)
    finally show ?thesis .
  qed
  have idx: "deref (write_loop k (p # ps) s) ((p # ps) ! j) =
      (deref s ((p # ps) ! j))\<lparr>PcapNgIfIndex := Some (of_nat (k + j))\<rparr>"
    if "j < length (p # ps)" for j
  proof (cases j)
    case 0
    have "deref (write_loop k (p # ps) s) p = deref ?s1 p" using ih2 [OF np] by simp
    also have "\<dots> = (deref s p)\<lparr>PcapNgIfIndex := Some (of_nat k)\<rparr>"
      using vp by (simp add: deref_write_step)
    finally show ?thesis using 0 by simp
  next
    case (Suc j')
    with that have j': "j' < length ps" by simp
    then have "ps ! j' \<in> set ps" by simp
    from same [OF this] ih3 [OF j'] Suc show ?thesis by simp
  qed
  from out others idx show ?case by blast
qed

lemma collect_interfaces_valid:
  "p \<in> set (collect_interfaces s) \<longleftrightarrow>
     fst p < IFACE_HT_SIZE \<and> snd p < length (InterfaceHashTable s (fst p))"
  by (cases p) (force simp add: collect_interfaces_def)

lemma map_deref_collect:
  "map (deref s) (collect_interfaces s) = concat (map (InterfaceHashTable s) [0..<IFACE_HT_SIZE])"
proof -
  have "map (deref s) (map (Pair i) [0..<length (InterfaceHashTable s i)]) = InterfaceHashTable s i"
    for i
    by (simp add: deref_def o_def map_nth)
  then show ?thesis
    by (simp add: collect_interfaces_def map_concat o_def)
qed

lemma key_order_rules:
  assumes "interface_key A \<le> interface_key B"
  shows "MiniportIfIndex A \<le> MiniportIfIndex B"
    and "LowerIfIndex A \<noteq> LowerIfIndex B \<Longrightarrow> MiniportIfIndex A = MiniportIfIndex B \<Longrightarrow>
         LowerIfIndex B \<noteq> MiniportIfIndex B"
    and "LowerIfIndex A \<noteq> LowerIfIndex B \<Longrightarrow> MiniportIfIndex A = MiniportIfIndex B \<Longrightarrow>
         LowerIfIndex A \<noteq> MiniportIfIndex A \<Longrightarrow> LowerIfIndex A < LowerIfIndex B"
proof -
  define ma mb la lb where "ma = unat (MiniportIfIndex A)" and "mb = unat (MiniportIfIndex B)"
    and "la = unat (LowerIfIndex A)" and "lb = unat (LowerIfIndex B)"
  have e: "MiniportIfIndex A = MiniportIfIndex B \<longleftrightarrow> ma = mb"
    "LowerIfIndex A = MiniportIfIndex A \<longleftrightarrow> la = ma"
    "LowerIfIndex B = MiniportIfIndex B \<longleftrightarrow> lb = mb"
    "LowerIfIndex A = LowerIfIndex B \<longleftrightarrow> la = lb"
    "LowerIfIndex A < LowerIfIndex B \<longleftrightarrow> la < lb"
    "MiniportIfIndex A \<le> MiniportIfIndex B \<longleftrightarrow> ma \<le> mb"
    by (simp_all add: ma_def mb_def la_def lb_def word_less_nat_alt word_le_nat_alt
        word_unat_eq_iff)
  have k: "(ma, (if la = ma then 0 else 1 :: nat), la) \<le> (mb, (if lb = mb then 0 else 1), lb)"
    using assms unfolding interface_key_def e by (simp add: ma_def mb_def la_def lb_def)
  show "MiniportIfIndex A \<le> MiniportIfIndex B"
    using k unfolding e by (auto simp add: less_eq_prod_def less_prod_def)
  show "LowerIfIndex A \<noteq> LowerIfIndex B \<Longrightarrow> MiniportIfIndex A = MiniportIfIndex B \<Longrightarrow>
         LowerIfIndex B \<noteq> MiniportIfIndex B"
    using k unfolding e by (auto simp add: less_eq_prod_def less_prod_def split: if_splits)
  show "LowerIfIndex A \<noteq> LowerIfIndex B \<Longrightarrow> MiniportIfIndex A = MiniportIfIndex B \<Longrightarrow>
         LowerIfIndex A \<noteq> MiniportIfIndex A \<Longrightarrow> LowerIfIndex A < LowerIfIndex B"
    using k unfolding e by (auto simp add: less_eq_prod_def less_prod_def split: if_splits)
qed

lemma discovery_fields:
  "ProviderId (discovery LM) = NdisCapId" "Id (discovery LM) = tidPacketFragment"
  "Keyword (discovery LM) = KW_PACKET_START OR KW_PACKET_END"
  "prop_LowerIfIndex (discovery LM) = Inr (fst LM)"
  "prop_MiniportIfIndex (discovery LM) = Inr (snd LM)"
  by (simp_all add: discovery_def)

lemma discovery_new:
  assumes "\<not> Pass2 s" "GetInterface L s = None" "malloc_ok s (malloc_calls s)"
  shows "EventCallback (discovery (L, M)) s =
     Inr (s\<lparr>InterfaceHashTable :=
              (InterfaceHashTable s)(unat L mod IFACE_HT_SIZE :=
                 \<lparr>LowerIfIndex = L, MiniportIfIndex = M, PcapNgIfIndex = None,
                  Type = PCAPNG_LINKTYPE_ETHERNET\<rparr> #
                 InterfaceHashTable s (unat L mod IFACE_HT_SIZE)),
            NumInterfaces := NumInterfaces s + 1,
            malloc_calls := Suc (malloc_calls s)\<rparr>)"
proof -
  have k: "(KW_PACKET_START OR KW_PACKET_END) AND KW_MEDIA_NATIVE_802_11 = 0"
    "(KW_PACKET_START OR KW_PACKET_END) AND KW_MEDIA_WIRELESS_WAN = 0"
    by (simp_all add: KW_PACKET_START_def KW_PACKET_END_def KW_MEDIA_NATIVE_802_11_def
        KW_MEDIA_WIRELESS_WAN_def)
  show ?thesis
    using assms k
    by (simp add: EventCallback_def Pass1_event_def AddInterface_def discovery_fields Let_def)
qed

lemma three_discovered:
  assumes "m 0" "m 1" "m 2"
    and "regs \<in> {[(7, 5), (5, 5), (3, 3)], [(7, 5), (3, 3), (5, 5)], [(5, 5), (7, 5), (3, 3)],
                 [(5, 5), (3, 3), (7, 5)], [(3, 3), (7, 5), (5, 5)], [(3, 3), (5, 5), (7, 5)]}"
  shows "ProcessTrace (map discovery regs) (initial_globals m) = Inr (example_three m)"
proof -
  have m: "m (Suc 0)" "m (Suc (Suc 0))" using assms(2,3) by (simp_all add: numeral_2_eq_2)
  have g: "GetInterface L (s\<lparr>InterfaceHashTable := t, NumInterfaces := n, malloc_calls := c\<rparr>) =
      find (\<lambda>Iface. LowerIfIndex Iface = L) (t (unat L mod 100))" for L s t n c
    by (simp add: GetInterface_def IFACE_HT_SIZE_def)
  have g0: "GetInterface L (initial_globals m) = None" for L
    by (simp add: GetInterface_def initial_globals_def)
  have i: "\<not> Pass2 (initial_globals m)" "malloc_ok (initial_globals m) = m"
    "malloc_calls (initial_globals m) = 0" "NumInterfaces (initial_globals m) = 0"
    "InterfaceHashTable (initial_globals m) = (\<lambda>_. [])"
    by (simp_all add: initial_globals_def)
  from assms(4) show ?thesis
    by (elim insertE emptyE)
       (simp_all add: discovery_new g g0 i assms(1) m IFACE_HT_SIZE_def example_three_def
          fun_eq_iff)
qed

lemma collect_three:
  "concat (map (\<lambda>i. map (Pair i)
      [0..<length ((if i = 3 then [a] else if i = 5 then [b] else if i = 7 then [c] else []))])
      [0..<100]) = [(3, 0), (5, 0), (7, 0 :: nat)]"
  by code_simp

lemma example_three_collect:
  "collect_interfaces (example_three m) = [(3, 0), (5, 0), (7, 0)]"
  by (simp add: collect_interfaces_def example_three_def IFACE_HT_SIZE_def collect_three)

lemma example_three_deref:
  "deref (example_three m) (3, 0) =
     \<lparr>LowerIfIndex = 3, MiniportIfIndex = 3, PcapNgIfIndex = None, Type = PCAPNG_LINKTYPE_ETHERNET\<rparr>"
  "deref (example_three m) (5, 0) =
     \<lparr>LowerIfIndex = 5, MiniportIfIndex = 5, PcapNgIfIndex = None, Type = PCAPNG_LINKTYPE_ETHERNET\<rparr>"
  "deref (example_three m) (7, 0) =
     \<lparr>LowerIfIndex = 7, MiniportIfIndex = 5, PcapNgIfIndex = None, Type = PCAPNG_LINKTYPE_ETHERNET\<rparr>"
  by (simp_all add: deref_def example_three_def)

lemma example_three_sorted:
  "InterfaceArray_sorted (example_three m) = [(3, 0), (5, 0), (7, 0)]"
  by (simp add: InterfaceArray_sorted_def example_three_collect qsort_def example_three_deref
      InterfaceCompareFn_def Let_def)

lemma example_three_fields:
  "malloc_ok (example_three m) = m" "malloc_calls (example_three m) = 3"
  "NumInterfaces (example_three m) = 3" "OutFile (example_three m) = []"
  by (simp_all add: example_three_def initial_globals_def)

lemma example_three_written:
  assumes "m 3"
  shows "\<exists>s'. WriteInterfaces (example_three m) = Inr s' \<and>
     map (\<lambda>L. Option.bind (GetInterface L s') PcapNgIfIndex) [3, 5, 7] =
       [Some 0, Some 1, Some 2]"
proof -
  have w: "WriteInterfaces (example_three m) =
      Inr (write_loop 0 [(3, 0), (5, 0), (7, 0)] ((example_three m)\<lparr>malloc_calls := 4\<rparr>))"
    using assms
    by (simp add: WriteInterfaces_def example_three_fields example_three_collect
        example_three_sorted)
  have t: "InterfaceHashTable (write_loop 0 [(3, 0), (5, 0), (7, 0)]
        ((example_three m)\<lparr>malloc_calls := 4\<rparr>)) =
      (\<lambda>b. if b = 3 then
                  [\<lparr>LowerIfIndex = 3, MiniportIfIndex = 3, PcapNgIfIndex = Some 0,
                    Type = PCAPNG_LINKTYPE_ETHERNET\<rparr>]
                else if b = 5 then
                  [\<lparr>LowerIfIndex = 5, MiniportIfIndex = 5, PcapNgIfIndex = Some 1,
                    Type = PCAPNG_LINKTYPE_ETHERNET\<rparr>]
                else if b = 7 then
                  [\<lparr>LowerIfIndex = 7, MiniportIfIndex = 5, PcapNgIfIndex = Some 2,
                    Type = PCAPNG_LINKTYPE_ETHERNET\<rparr>]
                else [])"
    by (simp add: write_step_def Let_def set_PcapNgIfIndex_def deref_def printf_def
        example_three_def fun_eq_iff)
  define s' where "s' = write_loop 0 [(3, 0), (5, 0), (7, 0)]
      ((example_three m)\<lparr>malloc_calls := 4\<rparr>)"
  note w' = w [folded s'_def] and t' = t [folded s'_def]
  have h: "map (\<lambda>L. Option.bind (GetInterface L s') PcapNgIfIndex) [3, 5, 7] =
       [Some 0, Some 1, Some 2]"
    by (simp add: GetInterface_def t' IFACE_HT_SIZE_def)
  show ?thesis by (rule exI [of _ s']) (simp only: w' h simp_thms)
qed

lemma collect_one:
  "concat (map (\<lambda>i. map (Pair i) [0..<length ((if i = 7 then [a] else []))]) [0..<100]) =
     [(7, 0 :: nat)]"
  by code_simp

lemma example_one_discovered:
  "ProcessTrace [discovery (7, 7)]
     ((initial_globals (\<lambda>_. True))\<lparr>OutFile := [PcapNgWriteSectionHeader]\<rparr>) = Inr example_one"
proof -
  let ?s0 = "(initial_globals (\<lambda>_. True))\<lparr>OutFile := [PcapNgWriteSectionHeader]\<rparr>"
  have g0: "GetInterface 7 ?s0 = None" by (simp add: GetInterface_def initial_globals_def)
  have i: "\<not> Pass2 ?s0" "malloc_ok ?s0 (malloc_calls ?s0)"
    by (simp_all add: initial_globals_def)
  show ?thesis
    by (simp add: discovery_new [OF i(1) g0 i(2)])
       (simp add: initial_globals_def example_one_def IFACE_HT_SIZE_def fun_eq_iff)
qed

lemma example_one_collect: "collect_interfaces example_one = [(7, 0)]"
  by (simp add: collect_interfaces_def example_one_def IFACE_HT_SIZE_def collect_one)

lemma example_one_sorted: "InterfaceArray_sorted example_one = [(7, 0)]"
  by (simp add: InterfaceArray_sorted_def example_one_collect qsort_def)

lemma example_one_fields:
  "malloc_ok example_one n" "NumInterfaces example_one = 1"
  by (simp_all add: example_one_def initial_globals_def)

lemma example_one_written:
  "WriteInterfaces example_one =
     Inr (write_loop 0 [(7, 0)] (example_one\<lparr>malloc_calls := Suc (malloc_calls example_one)\<rparr>))"
  by (simp add: WriteInterfaces_def example_one_collect example_one_sorted example_one_fields)

lemma example_one_pass2:
  "(write_loop 0 [(7, 0)] (example_one\<lparr>malloc_calls := Suc (malloc_calls example_one)\<rparr>))
     \<lparr>Pass2 := True\<rparr> = example_pass2"
  by (simp add: write_step_def Let_def set_PcapNgIfIndex_def deref_def printf_def
        initial_globals_def example_one_def example_pass2_def example_Iface_def fun_eq_iff)

lemma example_pass2_reached: "pass2_start [discovery (7, 7)] (\<lambda>_. True) = Inr example_pass2"
  by (simp only: pass2_start_def example_one_discovered example_one_written sum.case
      example_one_pass2)

lemma interface_key_inj:
  "interface_key A = interface_key B \<Longrightarrow> LowerIfIndex A = LowerIfIndex B"
  by (simp add: interface_key_def word_unat_eq_iff)

lemma qsort_contract_unique:
  assumes "distinct (map (\<lambda>p. LowerIfIndex (deref s p)) (collect_interfaces s))"
    and "qsort_contract (\<lambda>A B. InterfaceCompareFn (deref s A) (deref s B))
           (collect_interfaces s) ys"
  shows "ys = InterfaceArray_sorted s"
proof -
  let ?xs = "collect_interfaces s"
  let ?key = "\<lambda>p. interface_key (deref s p)"
  let ?zs = "sort_key ?key ?xs"
  from assms(2) have ms: "mset ys = mset ?xs"
    and so: "sorted_wrt (\<lambda>A B. InterfaceCompareFn (deref s A) (deref s B) \<le> 0) ys"
    by (simp_all add: qsort_contract_def)
  have injL: "inj_on (\<lambda>p. LowerIfIndex (deref s p)) (set ?xs)"
    using assms(1) by (simp add: distinct_map)
  have inj: "inj_on ?key (set ?xs)"
  proof (rule inj_onI)
    fix p q assume pq: "p \<in> set ?xs" "q \<in> set ?xs" and k: "?key p = ?key q"
    from k have "LowerIfIndex (deref s p) = LowerIfIndex (deref s q)"
      by (rule interface_key_inj)
    with injL pq show "p = q" by (auto dest: inj_onD)
  qed
  have dx: "distinct ?xs" using assms(1) by (simp add: distinct_map)
  have sety: "set ys = set ?xs" using ms by (rule mset_eq_setD)
  have dy: "distinct ys" using mset_eq_imp_distinct_iff [OF ms] dx by simp
  have s1: "sorted (map ?key ys)"
    using so by (simp add: sorted_map InterfaceCompareFn_key)
  have d1: "distinct (map ?key ys)" using dy inj sety by (simp add: distinct_map)
  have s2: "sorted (map ?key ?zs)" by simp
  have d2: "distinct (map ?key ?zs)" using dx inj by (simp add: distinct_map)
  have "set (map ?key ys) = set (map ?key ?zs)" using sety by simp
  from sorted_distinct_set_unique [OF s1 d1 s2 d2 this]
  have "map ?key ys = map ?key ?zs" .
  moreover have "inj_on ?key (set ys \<union> set ?zs)" using inj sety by simp
  ultimately have "ys = ?zs" by (simp add: inj_on_map_eq_map)
  then show ?thesis by (simp add: InterfaceArray_sorted_sort_key)
qed

lemma qsort_meets_contract:
  "qsort_contract (\<lambda>A B. InterfaceCompareFn (deref s A) (deref s B))
     (collect_interfaces s) (InterfaceArray_sorted s)"
proof -
  have "sorted (map (\<lambda>p. interface_key (deref s p)) (InterfaceArray_sorted s))"
    by (simp add: InterfaceArray_sorted_sort_key)
  then show ?thesis
    by (simp add: qsort_contract_def sorted_map InterfaceCompareFn_key
        InterfaceArray_sorted_sort_key)
qed

section \<open>Two more runs of both passes\<close>

text \<open>
  The traces \<open>example_mixed\<close> and \<open>example_unknown_phy\<close>, followed through pass 1,
  \<open>WriteInterfaces\<close> and pass 2. In both, pass 1 registers interface 7 as Ethernet and
  prints one warning about a later event with the native-802.11 keyword; in pass 2 the
  first event, which carries no bytes, is emitted as an empty packet.
\<close>

lemma example_one_GetInterface:
  "GetInterface 7 example_one =
     Some \<lparr>LowerIfIndex = 7, MiniportIfIndex = 7, PcapNgIfIndex = None,
            Type = PCAPNG_LINKTYPE_ETHERNET\<rparr>"
  by (simp add: GetInterface_def example_one_def IFACE_HT_SIZE_def)

lemma example_one_not_Pass2: "\<not> Pass2 example_one"
  by (simp add: example_one_def initial_globals_def)

lemma wifi_keyword:
  "(KW_PACKET_END OR KW_MEDIA_NATIVE_802_11) AND KW_PACKET_END \<noteq> 0"
  "(KW_PACKET_END OR KW_MEDIA_NATIVE_802_11) AND KW_MEDIA_NATIVE_802_11 \<noteq> 0"
  by (simp_all add: KW_PACKET_END_def KW_MEDIA_NATIVE_802_11_def)

lemma wifi_event_in_pass1:
  "EventCallback (example_fragment (KW_PACKET_END OR KW_MEDIA_NATIVE_802_11) ts bytes) example_one =
     Inr (printf inconsistent_media_type example_one)"
  using wifi_keyword(2)
  by (simp add: EventCallback_def Pass1_event_def example_fragment_fields tid_distinct
      example_one_not_Pass2 example_one_GetInterface)

lemma mixed_pass1:
  "ProcessTrace
     [discovery (7, 7),
      example_fragment (KW_PACKET_END OR KW_MEDIA_NATIVE_802_11) ts bytes]
     ((initial_globals (\<lambda>_. True))\<lparr>OutFile := [PcapNgWriteSectionHeader]\<rparr>) =
   Inr (printf inconsistent_media_type example_one)"
proof -
  have "ProcessTrace ([discovery (7, 7)] @
      [example_fragment (KW_PACKET_END OR KW_MEDIA_NATIVE_802_11) ts bytes])
     ((initial_globals (\<lambda>_. True))\<lparr>OutFile := [PcapNgWriteSectionHeader]\<rparr>) =
   Inr (printf inconsistent_media_type example_one)"
    by (simp only: ProcessTrace_append example_one_discovered sum.case)
       (simp add: wifi_event_in_pass1)
  then show ?thesis by simp
qed

lemma mixed_written:
  "WriteInterfaces (printf inconsistent_media_type example_one) =
     Inr (write_loop 0 [(7, 0)]
       ((printf inconsistent_media_type example_one)
          \<lparr>malloc_calls := Suc (malloc_calls example_one)\<rparr>))"
proof -
  have c: "collect_interfaces (printf inconsistent_media_type example_one) =
      collect_interfaces example_one"
    by (simp add: collect_interfaces_def printf_def)
  have d: "deref (printf inconsistent_media_type example_one) = deref example_one"
    by (simp add: deref_def printf_def fun_eq_iff)
  have so: "InterfaceArray_sorted (printf inconsistent_media_type example_one) = [(7, 0)]"
    using example_one_sorted by (simp add: InterfaceArray_sorted_def c d)
  show ?thesis
    by (simp add: WriteInterfaces_def c so example_one_collect)
       (simp add: printf_def example_one_fields)
qed

lemma mixed_written_pass2:
  "(write_loop 0 [(7, 0)]
       ((printf inconsistent_media_type example_one)
          \<lparr>malloc_calls := Suc (malloc_calls example_one)\<rparr>))\<lparr>Pass2 := True\<rparr> =
      example_pass2\<lparr>console :=
          [inconsistent_media_type, IF_line PCAPNG_LINKTYPE_ETHERNET 0 7 None]\<rparr>"
  by (simp add: write_step_def Let_def set_PcapNgIfIndex_def deref_def printf_def
      initial_globals_def example_one_def example_pass2_def example_Iface_def fun_eq_iff)

lemma mixed_pass2_start:
  "pass2_start
     [discovery (7, 7),
      example_fragment (KW_PACKET_END OR KW_MEDIA_NATIVE_802_11) ts bytes] (\<lambda>_. True) =
   Inr (example_pass2\<lparr>console :=
          [inconsistent_media_type, IF_line PCAPNG_LINKTYPE_ETHERNET 0 7 None]\<rparr>)"
  by (simp only: pass2_start_def mixed_pass1 mixed_written sum.case mixed_written_pass2)

lemma example_mixed_start: "pass2_start example_mixed (\<lambda>_. True) = Inr example_mixed_pass2"
  by (simp only: example_mixed_def wifi_frame_def example_mixed_pass2_def mixed_pass2_start)

lemma example_mixed_pass2_fields:
  "Pass2 example_mixed_pass2" "AuxFragBufOffset example_mixed_pass2 = 0"
  "AuxFragBuf example_mixed_pass2 = replicate MAX_PACKET_SIZE 0"
  "\<not> AddMetadata example_mixed_pass2"
  "OutFile example_mixed_pass2 =
     [PcapNgWriteSectionHeader, PcapNgWriteInterfaceDesc PCAPNG_LINKTYPE_ETHERNET MAX_PACKET_SIZE]"
  "GetInterface 7 example_mixed_pass2 = Some example_Iface"
  using example_GetInterface
  by (simp_all add: example_mixed_pass2_def example_pass2_fields GetInterface_def)

lemma discovery_sizes:
  "prop_FragmentSize (discovery LM) = Inr 0" "prop_Fragment (discovery LM) = Inr []"
  by (simp_all add: discovery_def)

lemma example_mixed_first:
  "EventCallback (discovery (7, 7)) example_mixed_pass2 =
     Inr (frame_end_state (discovery (7, 7)) example_mixed_pass2 0 0 [])"
proof -
  show ?thesis
    by (intro frame_end_emits [where L = 7 and Iface = example_Iface])
       (simp_all add: discovery_fields discovery_sizes example_mixed_pass2_fields
          example_Iface_index KW_PACKET_END_nonzero)
qed

lemma example_mixed_between:
  "Pass2 (frame_end_state (discovery (7, 7)) example_mixed_pass2 0 0 [])"
  "AuxFragBufOffset (frame_end_state (discovery (7, 7)) example_mixed_pass2 0 0 []) = 0"
  "AuxFragBuf (frame_end_state (discovery (7, 7)) example_mixed_pass2 0 0 []) =
     replicate MAX_PACKET_SIZE 0"
  "\<not> AddMetadata (frame_end_state (discovery (7, 7)) example_mixed_pass2 0 0 [])"
  "GetInterface 7 (frame_end_state (discovery (7, 7)) example_mixed_pass2 0 0 []) =
     Some example_Iface"
proof -
  have k: "(KW_PACKET_START OR KW_PACKET_END) AND KW_MEDIA_NATIVE_802_11 = 0"
    by (simp add: KW_PACKET_START_def KW_PACKET_END_def KW_MEDIA_NATIVE_802_11_def)
  show "Pass2 (frame_end_state (discovery (7, 7)) example_mixed_pass2 0 0 [])"
    "AuxFragBufOffset (frame_end_state (discovery (7, 7)) example_mixed_pass2 0 0 []) = 0"
    "\<not> AddMetadata (frame_end_state (discovery (7, 7)) example_mixed_pass2 0 0 [])"
    by (simp_all add: frame_end_state_fields example_mixed_pass2_fields)
  show "AuxFragBuf (frame_end_state (discovery (7, 7)) example_mixed_pass2 0 0 []) =
     replicate MAX_PACKET_SIZE 0"
    by (simp add: frame_end_state_fields frame_array_def discovery_fields k copy_at_Nil
        example_mixed_pass2_fields)
  show "GetInterface 7 (frame_end_state (discovery (7, 7)) example_mixed_pass2 0 0 []) =
     Some example_Iface"
    using example_mixed_pass2_fields(6)
    by (simp add: GetInterface_def frame_end_state_fields)
qed

lemma wifi_frame_fields:
  "ProviderId wifi_frame = NdisCapId"
  "Id wifi_frame = tidPacketFragment"
  "Keyword wifi_frame = KW_PACKET_END OR KW_MEDIA_NATIVE_802_11"
  "prop_LowerIfIndex wifi_frame = Inr 7"
  "prop_FragmentSize wifi_frame = Inr 3"
  "prop_Fragment wifi_frame = Inr [0x08, 0xC0, 0x3A]"
  by (simp_all add: wifi_frame_def example_fragment_fields)

lemma example_mixed_second:
  "EventCallback wifi_frame (frame_end_state (discovery (7, 7)) example_mixed_pass2 0 0 []) =
     Inr (frame_end_state wifi_frame
            (frame_end_state (discovery (7, 7)) example_mixed_pass2 0 0 []) 0 3
            [0x08, 0xC0, 0x3A])"
  by (intro frame_end_emits [where L = 7 and Iface = example_Iface])
     (simp_all add: wifi_frame_fields example_mixed_between example_Iface_index
        KW_PACKET_END_nonzero MAX_PACKET_SIZE_def)

lemma example_mixed_run:
  "wmain_passes example_mixed (\<lambda>_. True) =
     Inr (frame_end_state wifi_frame
            (frame_end_state (discovery (7, 7)) example_mixed_pass2 0 0 []) 0 3
            [0x08, 0xC0, 0x3A])"
proof -
  have "ProcessTrace example_mixed example_mixed_pass2 =
     Inr (frame_end_state wifi_frame
            (frame_end_state (discovery (7, 7)) example_mixed_pass2 0 0 []) 0 3
            [0x08, 0xC0, 0x3A])"
    by (simp add: example_mixed_def example_mixed_first example_mixed_second)
  then show ?thesis
    by (simp only: wmain_passes_def example_mixed_start sum.case)
qed

lemma example_mixed_payload:
  "packet_payload (frame_packet wifi_frame
      (frame_end_state (discovery (7, 7)) example_mixed_pass2 0 0 []) 0 3 [0x08, 0xC0, 0x3A]) =
   Some [0x08, 0x80, 0x3A]"
  using wifi_keyword(2)
  by (simp add: packet_payload_def frame_packet_def frame_array_def wifi_frame_fields
      example_mixed_between copy_at_def clear_Protected_def MAX_PACKET_SIZE_def)

lemma warned_GetInterface:
  "GetInterface 7 (printf inconsistent_media_type example_one) =
     Some \<lparr>LowerIfIndex = 7, MiniportIfIndex = 7, PcapNgIfIndex = None,
            Type = PCAPNG_LINKTYPE_ETHERNET\<rparr>"
  using example_one_GetInterface by (simp add: GetInterface_def printf_def)

lemma metadata_event_in_pass1:
  "EventCallback (example_metadata md) example_one =
     Inr (printf inconsistent_media_type example_one)"
  by (simp add: EventCallback_def Pass1_event_def example_metadata_def tid_distinct
      example_one_not_Pass2 example_one_GetInterface KW_MEDIA_NATIVE_802_11_def)

lemma ethernet_event_in_pass1:
  "EventCallback (example_fragment KW_PACKET_END ts bytes)
     (printf inconsistent_media_type example_one) =
     Inr (printf inconsistent_media_type example_one)"
proof -
  have k: "KW_PACKET_END AND KW_MEDIA_NATIVE_802_11 = 0"
    "KW_PACKET_END AND KW_MEDIA_WIRELESS_WAN = 0"
    by (simp_all add: KW_PACKET_END_def KW_MEDIA_NATIVE_802_11_def KW_MEDIA_WIRELESS_WAN_def)
  have p: "\<not> Pass2 (printf inconsistent_media_type example_one)"
    using example_one_not_Pass2 by (simp add: printf_def)
  show ?thesis
    by (simp add: EventCallback_def Pass1_event_def example_fragment_fields tid_distinct
        p warned_GetInterface k)
qed

lemma example_unknown_phy_start:
  "pass2_start example_unknown_phy (\<lambda>_. True) = Inr example_mixed_pass2"
proof -
  have "ProcessTrace ([discovery (7, 7)] @
      [example_metadata (example_record\<lparr>uPhyId := 11\<rparr>),
       example_fragment KW_PACKET_END 116444736000000010 [0x08, 0xC0, 0x3A]])
     ((initial_globals (\<lambda>_. True))\<lparr>OutFile := [PcapNgWriteSectionHeader]\<rparr>) =
   Inr (printf inconsistent_media_type example_one)"
    by (simp only: ProcessTrace_append example_one_discovered sum.case)
       (simp add: metadata_event_in_pass1 ethernet_event_in_pass1)
  then have r: "ProcessTrace example_unknown_phy
     ((initial_globals (\<lambda>_. True))\<lparr>OutFile := [PcapNgWriteSectionHeader]\<rparr>) =
   Inr (printf inconsistent_media_type example_one)"
    by (simp add: example_unknown_phy_def)
  show ?thesis
    by (simp only: pass2_start_def r mixed_written sum.case mixed_written_pass2
        example_mixed_pass2_def)
qed

section \<open>The claims\<close>

text \<open>
  C7. For every packet the callback emits, the time stamp handed to the writer, read as
  one 64-bit number, is the event's count of 100-nanosecond ticks divided by 10 (C's
  division, which is the plain quotient for a count that is not negative) minus
  11644473600000000; ticks = 116444736000000000 give exactly 0.
\<close>

theorem timestamp_conversion:
  assumes "EventCallback ev s = Inr s'"
    and "OutFile s' = OutFile s @ [PcapNgWriteEnhancedPacket c]"
  shows "sint (word_cat (TimeStampHigh c) (TimeStampLow c) :: 64 word) =
           sint (TimeStamp ev) sdiv 10 - 11644473600000000 \<and>
         (0 \<le> sint (TimeStamp ev) \<longrightarrow>
            sint (word_cat (TimeStampHigh c) (TimeStampLow c) :: 64 word) =
              uint (TimeStamp ev) div 10 - 11644473600000000) \<and>
         (TimeStamp ev = 116444736000000000 \<longrightarrow>
            TimeStampHigh c = 0 \<and> TimeStampLow c = 0)"
proof -
  from emitted_packet [OF assms] have
    hi: "TimeStampHigh c = HighPart (convert_TimeStamp (TimeStamp ev))" and
    lo: "TimeStampLow c = LowPart (convert_TimeStamp (TimeStamp ev))"
    by blast+
  have cat: "(word_cat (TimeStampHigh c) (TimeStampLow c) :: 64 word) =
      convert_TimeStamp (TimeStamp ev)"
    by (simp add: hi lo word_cat_halves)
  have nn: "sint (TimeStamp ev) sdiv 10 = uint (TimeStamp ev) div 10"
    if "0 \<le> sint (TimeStamp ev)"
  proof -
    have "sint (TimeStamp ev) < 2 ^ 64" using sint_lt [of "TimeStamp ev"] by simp
    then have "uint (TimeStamp ev) = sint (TimeStamp ev)"
      using that by (simp add: uint_sint take_bit_int_eq_self)
    then show ?thesis
      using that by (simp add: signed_divide_int_def sgn_if)
  qed
  have ep: "TimeStampHigh c = 0 \<and> TimeStampLow c = 0" if "TimeStamp ev = 116444736000000000"
    using that by (simp add: hi lo convert_epoch HighPart_def LowPart_def)
  show ?thesis
    using nn ep by (simp add: cat sint_convert_TimeStamp)
qed

theorem timestamp_conversion_witness:
  "EventCallback (example_fragment KW_PACKET_END 116444736000000000 [1, 2, 3]) example_pass2 =
     Inr (frame_end_state (example_fragment KW_PACKET_END 116444736000000000 [1, 2, 3])
            example_pass2 0 3 [1, 2, 3]) \<and>
   sint (word_cat
     (TimeStampHigh (frame_packet (example_fragment KW_PACKET_END 116444736000000000 [1, 2, 3])
        example_pass2 0 3 [1, 2, 3]))
     (TimeStampLow (frame_packet (example_fragment KW_PACKET_END 116444736000000000 [1, 2, 3])
        example_pass2 0 3 [1, 2, 3])) :: 64 word) = 0"
proof -
  note e = example_frame_3 [of 116444736000000000 1 2 3]
  from timestamp_conversion [OF e frame_end_state_fields(1)] e show ?thesis
    by (simp add: example_fragment_fields signed_divide_int_def)
qed

text \<open>
  C8, as stated: the two time-stamp arguments of the enhanced-packet call are the whole
  seconds and the remaining microseconds of the converted value. The code passes
  \<open>TimeStamp.HighPart\<close> and \<open>TimeStamp.LowPart\<close> instead. One second after the 1970
  epoch (ticks = 116444736010000000, converted value 1000000) the call gets high = 0
  and low = 1000000, where the claim asks for high = 1 and low = 0.
\<close>

theorem timestamp_seconds_counterexample:
  "\<not> isl (EventCallback (example_fragment KW_PACKET_END 116444736010000000 [1, 2, 3])
            example_pass2) \<and>
   uint (convert_TimeStamp
     (TimeStamp (example_fragment KW_PACKET_END 116444736010000000 [1, 2, 3]))) div 1000000 = 1 \<and>
   uint (convert_TimeStamp
     (TimeStamp (example_fragment KW_PACKET_END 116444736010000000 [1, 2, 3]))) mod 1000000 = 0 \<and>
   uint (TimeStampHigh (packet_of (last (OutFile (projr
     (EventCallback (example_fragment KW_PACKET_END 116444736010000000 [1, 2, 3])
        example_pass2)))))) = 0 \<and>
   uint (TimeStampLow (packet_of (last (OutFile (projr
     (EventCallback (example_fragment KW_PACKET_END 116444736010000000 [1, 2, 3])
        example_pass2)))))) = 1000000"
proof -
  have c: "convert_TimeStamp 116444736010000000 = 1000000"
    by (simp add: convert_TimeStamp_def signed_divide_int_def)
  show ?thesis
    by (simp add: example_frame_3 frame_end_state_fields frame_packet_fields
        example_fragment_fields c HighPart_def LowPart_def)
qed

text \<open>
  C8, amended: for every packet the callback emits, the two time-stamp arguments of
  the enhanced-packet call are the high and the low 32 bits of the converted 64-bit
  value of microseconds since 1970: high = usec div 2^32, low = usec mod 2^32.
\<close>

theorem timestamp_halves:
  assumes "EventCallback ev s = Inr s'"
    and "OutFile s' = OutFile s @ [PcapNgWriteEnhancedPacket c]"
  shows "uint (TimeStampHigh c) = uint (convert_TimeStamp (TimeStamp ev)) div 2 ^ 32 \<and>
         uint (TimeStampLow c) = uint (convert_TimeStamp (TimeStamp ev)) mod 2 ^ 32"
proof -
  from emitted_packet [OF assms] have
    "TimeStampHigh c = HighPart (convert_TimeStamp (TimeStamp ev))"
    "TimeStampLow c = LowPart (convert_TimeStamp (TimeStamp ev))"
    by blast+
  then show ?thesis by (simp add: uint_HighPart uint_LowPart)
qed

theorem timestamp_halves_witness:
  "EventCallback (example_fragment KW_PACKET_END 159394408960000050 [1, 2, 3]) example_pass2 =
     Inr (frame_end_state (example_fragment KW_PACKET_END 159394408960000050 [1, 2, 3])
            example_pass2 0 3 [1, 2, 3]) \<and>
   convert_TimeStamp 159394408960000050 = 4294967296000005 \<and>
   uint (TimeStampHigh (frame_packet (example_fragment KW_PACKET_END 159394408960000050 [1, 2, 3])
          example_pass2 0 3 [1, 2, 3])) = 1000000 \<and>
   uint (TimeStampLow (frame_packet (example_fragment KW_PACKET_END 159394408960000050 [1, 2, 3])
          example_pass2 0 3 [1, 2, 3])) = 5"
proof -
  note e = example_frame_3 [of 159394408960000050 1 2 3]
  have c: "convert_TimeStamp 159394408960000050 = 4294967296000005"
    by (simp add: convert_TimeStamp_def signed_divide_int_def)
  from timestamp_halves [OF e frame_end_state_fields(1)] e c show ?thesis
    by (simp add: example_fragment_fields)
qed

text \<open>
  C9. When a frame-end event emits a packet while a metadata record is pending, the
  length argument of the enhanced-packet call is the number of bytes accumulated (the
  fill offset plus the length of the last fragment) plus
  \<open>sizeof(DOT11_EXTSTA_RECV_CONTEXT)\<close>; with no record pending it is the number of
  bytes accumulated.
\<close>

theorem declared_packet_length:
  assumes "EventCallback ev s = Inr s'"
    and "OutFile s' = OutFile s @ [PcapNgWriteEnhancedPacket c]"
    and "prop_FragmentSize ev = Inr len"
    and "unat (AuxFragBufOffset s) \<le> MAX_PACKET_SIZE"
  shows "unat (FragLength c) =
           (if AddMetadata s
            then unat (AuxFragBufOffset s) + unat len + sizeof_DOT11_EXTSTA_RECV_CONTEXT
            else unat (AuxFragBufOffset s) + unat len)"
proof -
  from emitted_packet [OF assms(1,2)] obtain len' where
    l: "prop_FragmentSize ev = Inr len'" and
    fits': "\<not> (of_nat MAX_PACKET_SIZE :: 64 word) - ucast (AuxFragBufOffset s) < ucast len'" and
    fl': "FragLength c = (if AddMetadata s
        then of_nat sizeof_DOT11_EXTSTA_RECV_CONTEXT + (AuxFragBufOffset s + len')
        else AuxFragBufOffset s + len')"
    by blast
  from l assms(3) have eq: "len' = len" by simp
  note fits = fits' [unfolded eq] and fl = fl' [unfolded eq]
  from fits size_check [OF assms(4), of len]
  have le: "unat (AuxFragBufOffset s) + unat len \<le> MAX_PACKET_SIZE" by simp
  then have a: "unat (AuxFragBufOffset s + len) = unat (AuxFragBufOffset s) + unat len"
    by (intro unat_add_lem [THEN iffD1]) (simp add: MAX_PACKET_SIZE_def)
  have "unat (48 :: 32 word) + unat (AuxFragBufOffset s + len) < 2 ^ LENGTH(32)"
    using le a by (simp add: MAX_PACKET_SIZE_def)
  then have "unat ((48 :: 32 word) + (AuxFragBufOffset s + len)) =
      unat (48 :: 32 word) + unat (AuxFragBufOffset s + len)"
    by (rule unat_add_lem [THEN iffD1])
  with a fl show ?thesis
    by (simp add: sizeof_DOT11_EXTSTA_RECV_CONTEXT_def)
qed

theorem declared_packet_length_witness:
  "EventCallback (example_fragment KW_PACKET_END 116444736000000000 [1, 2, 3]) example_pending =
     Inr (frame_end_state (example_fragment KW_PACKET_END 116444736000000000 [1, 2, 3])
            example_pending 0 3 [1, 2, 3]) \<and>
   AddMetadata example_pending \<and> AuxFragBufOffset example_pending = 0 \<and>
   unat (FragLength (frame_packet (example_fragment KW_PACKET_END 116444736000000000 [1, 2, 3])
          example_pending 0 3 [1, 2, 3])) = 51"
proof -
  note e = example_frame_pending_3 [of 116444736000000000 1 2 3]
  have "prop_FragmentSize (example_fragment KW_PACKET_END 116444736000000000 [1, 2, 3]) = Inr 3"
    by (simp add: example_fragment_fields)
  from declared_packet_length [OF e frame_end_state_fields(1) this] e show ?thesis
    by (simp add: example_pending_fields sizeof_DOT11_EXTSTA_RECV_CONTEXT_def)
qed


text \<open>
  C5, as stated: a frame is rewritten when the media type of its interface is Wifi, and
  a frame of an Ethernet or RawIp interface is emitted unchanged. The code does not
  look at the \<open>Type\<close> of the interface here: it tests the keyword of the frame-end event
  (line 445). In the trace \<open>example_mixed\<close> interface 7 is registered as Ethernet by
  pass 1 and stays so; the frame [08, C0, 3A] on it, whose event carries the
  native-802.11 keyword, is emitted in pass 2 as [08, 80, 3A].
\<close>

theorem privacy_bit_interface_type_counterexample:
  "\<not> isl (pass2_start example_mixed (\<lambda>_. True)) \<and>
   prop_LowerIfIndex wifi_frame = Inr 7 \<and>
   map_option Type (GetInterface 7 (projr (pass2_start example_mixed (\<lambda>_. True)))) =
     Some PCAPNG_LINKTYPE_ETHERNET \<and>
   fragment_bytes wifi_frame = [0x08, 0xC0, 0x3A] \<and>
   \<not> isl (wmain_passes example_mixed (\<lambda>_. True)) \<and>
   map_option Type (GetInterface 7 (projr (wmain_passes example_mixed (\<lambda>_. True)))) =
     Some PCAPNG_LINKTYPE_ETHERNET \<and>
   map packet_payload (packets (OutFile (projr (wmain_passes example_mixed (\<lambda>_. True))))) =
     [Some [], Some [0x08, 0x80, 0x3A]]"
proof -
  have g: "GetInterface 7 (frame_end_state wifi_frame
            (frame_end_state (discovery (7, 7)) example_mixed_pass2 0 0 []) 0 3
            [0x08, 0xC0, 0x3A]) = Some example_Iface"
    using example_mixed_between(5) by (simp add: GetInterface_def frame_end_state_fields)
  have t: "Type example_Iface = PCAPNG_LINKTYPE_ETHERNET"
    by (simp add: example_Iface_def)
  have p0: "packet_payload (frame_packet (discovery (7, 7)) example_mixed_pass2 0 0 []) = Some []"
    by (simp add: packet_payload_def frame_packet_def example_mixed_pass2_fields)
  show ?thesis
    by (simp add: example_mixed_start example_mixed_run example_mixed_pass2_fields g t
        wifi_frame_fields fragment_bytes_def frame_end_state_fields example_mixed_payload p0)
qed

text \<open>
  C5, amended: for every packet the callback emits, whatever media type the interface
  of the frame was registered with: when the frame-end event carries the
  native-802.11 keyword, byte 1 of the frame handed to the writer has bit 0x40
  cleared and nothing else is changed, so a byte 0xC0 there becomes 0x80; when the
  event does not carry that keyword, the frame is handed over as accumulated.
  \<open>frame\<close> is the array after the last fragment was copied in.
\<close>

theorem privacy_bit_rewrite:
  assumes "EventCallback ev s = Inr s'"
    and "OutFile s' = OutFile s @ [PcapNgWriteEnhancedPacket c]"
    and "prop_FragmentSize ev = Inr len" and "prop_Fragment ev = Inr bytes"
    and "length (AuxFragBuf s) = MAX_PACKET_SIZE"
    and "unat (AuxFragBufOffset s) \<le> MAX_PACKET_SIZE"
    and "frame = copy_at (AuxFragBuf s) (unat (AuxFragBufOffset s)) (take (unat len) bytes)"
  shows "(Keyword ev AND KW_MEDIA_NATIVE_802_11 \<noteq> 0 \<longrightarrow>
            FragBuf c = frame[1 := frame ! 1 AND 0xBF] \<and>
            FragBuf c ! 1 AND 0x40 = 0 \<and>
            (frame ! 1 = 0xC0 \<longrightarrow> FragBuf c ! 1 = 0x80)) \<and>
         (Keyword ev AND KW_MEDIA_NATIVE_802_11 = 0 \<longrightarrow> FragBuf c = frame)"
proof -
  from emitted_packet [OF assms(1,2)] obtain len' bytes' where
    l: "prop_FragmentSize ev = Inr len'" "prop_Fragment ev = Inr bytes'" and
    fits': "\<not> (of_nat MAX_PACKET_SIZE :: 64 word) - ucast (AuxFragBufOffset s) < ucast len'" and
    fb': "FragBuf c = (if Keyword ev AND KW_MEDIA_NATIVE_802_11 \<noteq> 0
        then clear_Protected (copy_at (AuxFragBuf s) (unat (AuxFragBufOffset s)) (take (unat len') bytes'))
        else copy_at (AuxFragBuf s) (unat (AuxFragBufOffset s)) (take (unat len') bytes'))"
    by blast
  from l assms(3,4) have eq: "len' = len" "bytes' = bytes" by simp_all
  from fb' eq assms(7) have fb: "FragBuf c =
      (if Keyword ev AND KW_MEDIA_NATIVE_802_11 \<noteq> 0 then clear_Protected frame else frame)"
    by simp
  from fits' eq size_check [OF assms(6), of len]
  have le: "unat (AuxFragBufOffset s) + unat len \<le> MAX_PACKET_SIZE" by simp
  then have "unat (AuxFragBufOffset s) + length (take (unat len) bytes) \<le> length (AuxFragBuf s)"
    using assms(5) by simp
  from length_copy_at [OF this] assms(5,7) have len: "1 < length frame"
    by (simp add: MAX_PACKET_SIZE_def)
  have cp: "clear_Protected frame = frame[1 := frame ! 1 AND 0xBF]"
    by (simp add: clear_Protected_eq and_0xBF)
  have z: "(frame ! 1 AND 0xBF) AND 0x40 = 0"
    using and_0x40 [of "frame ! 1 AND 0xBF"] by (simp add: and_0xBF bit_unset_bit_iff)
  show ?thesis
    using len z by (auto simp add: fb cp)
qed

theorem privacy_bit_rewrite_witness:
  "EventCallback (example_fragment (KW_PACKET_END OR KW_MEDIA_NATIVE_802_11) 116444736000000000
       [0x08, 0xC0, 0x3A]) example_pass2 =
     Inr (frame_end_state (example_fragment (KW_PACKET_END OR KW_MEDIA_NATIVE_802_11)
            116444736000000000 [0x08, 0xC0, 0x3A]) example_pass2 0 3 [0x08, 0xC0, 0x3A]) \<and>
   (KW_PACKET_END OR KW_MEDIA_NATIVE_802_11) AND KW_MEDIA_NATIVE_802_11 \<noteq> 0 \<and>
   FragBuf (frame_packet (example_fragment (KW_PACKET_END OR KW_MEDIA_NATIVE_802_11)
            116444736000000000 [0x08, 0xC0, 0x3A]) example_pass2 0 3 [0x08, 0xC0, 0x3A]) ! 1 = 0x80"
proof -
  have kw: "(KW_PACKET_END OR KW_MEDIA_NATIVE_802_11) AND KW_PACKET_END \<noteq> 0"
    "(KW_PACKET_END OR KW_MEDIA_NATIVE_802_11) AND KW_MEDIA_NATIVE_802_11 \<noteq> 0"
    by (simp_all add: KW_PACKET_END_def KW_MEDIA_NATIVE_802_11_def)
  have e: "EventCallback (example_fragment (KW_PACKET_END OR KW_MEDIA_NATIVE_802_11) 116444736000000000
       [0x08, 0xC0, 0x3A]) example_pass2 =
     Inr (frame_end_state (example_fragment (KW_PACKET_END OR KW_MEDIA_NATIVE_802_11)
            116444736000000000 [0x08, 0xC0, 0x3A]) example_pass2 0 3 [0x08, 0xC0, 0x3A])"
    using example_frame [OF kw(1), of "[0x08, 0xC0, 0x3A]" 116444736000000000]
    by (simp add: MAX_PACKET_SIZE_def)
  have f: "[0x08, 0xC0, 0x3A] @ replicate 65532 (0 :: 8 word) =
    copy_at (AuxFragBuf example_pass2) (unat (AuxFragBufOffset example_pass2))
      (take (unat (3 :: 32 word)) [0x08, 0xC0, 0x3A])"
    by (simp add: example_pass2_fields copy_at_def MAX_PACKET_SIZE_def)
  from privacy_bit_rewrite [OF e frame_end_state_fields(1) _ _ _ _ f] kw(2) e
  show ?thesis
    by (simp add: example_fragment_fields example_pass2_fields MAX_PACKET_SIZE_def)
qed

lemma length_DOT11_PHY_TYPE_NAMES: "length DOT11_PHY_TYPE_NAMES = 11"
  by (simp add: DOT11_PHY_TYPE_NAMES_def)

lemma frame_end_out_of_bounds:
  assumes "Pass2 s" "ProviderId ev = NdisCapId"
    "Id ev = tidPacketFragment \<or> Id ev = tidVMSwitchPacketFragment"
    "prop_LowerIfIndex ev = Inr L" "GetInterface L s = Some Iface"
    "PcapNgIfIndex Iface = Some ifid"
    "prop_FragmentSize ev = Inr len" "prop_Fragment ev = Inr bytes"
    "unat (AuxFragBufOffset s) + unat len \<le> MAX_PACKET_SIZE"
    "Keyword ev AND KW_PACKET_END \<noteq> 0"
    "AddMetadata s" "length DOT11_PHY_TYPE_NAMES \<le> unat (uPhyId (PacketMetadata s))"
  shows "EventCallback ev s = Inl phy_name_out_of_bounds"
  using assms
  by (simp add: EventCallback_fragment Fragment_event_end Packet_end_out_of_bounds)

text \<open>
  C10. The table of phy-type names has 11 entries, indices 0 to 10.
  \<open>CombineMetadataWithPacket\<close> reads it at \<open>uPhyId\<close> with no check: the read is inside
  the table exactly when \<open>uPhyId \<le> 10\<close>, and then the call goes through; with
  \<open>uPhyId > 10\<close> it is a read outside the table, and so is the frame-end event of
  pass 2 that finds such a record pending.
\<close>

theorem phy_name_lookup_unchecked:
  "length DOT11_PHY_TYPE_NAMES = 11 \<and>
   (CombineMetadataWithPacket buf len ifid issend hi lo md pid s = Inl phy_name_out_of_bounds
      \<longleftrightarrow> 10 < unat (uPhyId md)) \<and>
   (unat (uPhyId md) \<le> 10 \<longrightarrow>
      (\<exists>s'. CombineMetadataWithPacket buf len ifid issend hi lo md pid s = Inr s')) \<and>
   (Pass2 t \<and> ProviderId ev = NdisCapId \<and>
    (Id ev = tidPacketFragment \<or> Id ev = tidVMSwitchPacketFragment) \<and>
    prop_LowerIfIndex ev = Inr L \<and> GetInterface L t = Some Iface \<and>
    PcapNgIfIndex Iface = Some i \<and>
    prop_FragmentSize ev = Inr n \<and> prop_Fragment ev = Inr bytes \<and>
    unat (AuxFragBufOffset t) + unat n \<le> MAX_PACKET_SIZE \<and>
    Keyword ev AND KW_PACKET_END \<noteq> 0 \<and>
    AddMetadata t \<and> 10 < unat (uPhyId (PacketMetadata t)) \<longrightarrow>
      EventCallback ev t = Inl phy_name_out_of_bounds)"
proof (intro conjI impI)
  show "length DOT11_PHY_TYPE_NAMES = 11" by (fact length_DOT11_PHY_TYPE_NAMES)
next
  show "CombineMetadataWithPacket buf len ifid issend hi lo md pid s = Inl phy_name_out_of_bounds
      \<longleftrightarrow> 10 < unat (uPhyId md)"
  proof (cases "unat (uPhyId md) < length DOT11_PHY_TYPE_NAMES")
    case True
    then show ?thesis
      by (simp add: CombineMetadataWithPacket_in_bounds length_DOT11_PHY_TYPE_NAMES)
  next
    case False
    then show ?thesis
      by (simp add: CombineMetadataWithPacket_out_of_bounds length_DOT11_PHY_TYPE_NAMES)
  qed
next
  assume "unat (uPhyId md) \<le> 10"
  then have "unat (uPhyId md) < length DOT11_PHY_TYPE_NAMES"
    by (simp add: length_DOT11_PHY_TYPE_NAMES)
  then show "\<exists>s'. CombineMetadataWithPacket buf len ifid issend hi lo md pid s = Inr s'"
    by (simp add: CombineMetadataWithPacket_in_bounds)
next
  assume a: "Pass2 t \<and> ProviderId ev = NdisCapId \<and>
    (Id ev = tidPacketFragment \<or> Id ev = tidVMSwitchPacketFragment) \<and>
    prop_LowerIfIndex ev = Inr L \<and> GetInterface L t = Some Iface \<and>
    PcapNgIfIndex Iface = Some i \<and>
    prop_FragmentSize ev = Inr n \<and> prop_Fragment ev = Inr bytes \<and>
    unat (AuxFragBufOffset t) + unat n \<le> MAX_PACKET_SIZE \<and>
    Keyword ev AND KW_PACKET_END \<noteq> 0 \<and>
    AddMetadata t \<and> 10 < unat (uPhyId (PacketMetadata t))"
  then have "length DOT11_PHY_TYPE_NAMES \<le> unat (uPhyId (PacketMetadata t))"
    by (simp add: length_DOT11_PHY_TYPE_NAMES)
  with a show "EventCallback ev t = Inl phy_name_out_of_bounds"
    by (intro frame_end_out_of_bounds [where L = L and Iface = Iface and ifid = i and len = n
          and bytes = bytes]) simp_all
qed

theorem phy_name_lookup_unchecked_witness:
  "AddMetadata (example_pending\<lparr>PacketMetadata := example_record\<lparr>uPhyId := 11\<rparr>\<rparr>) \<and>
   unat (uPhyId (PacketMetadata (example_pending\<lparr>PacketMetadata := example_record\<lparr>uPhyId := 11\<rparr>\<rparr>))) = 11 \<and>
   EventCallback (example_fragment KW_PACKET_END 116444736000000000 [1, 2, 3])
     (example_pending\<lparr>PacketMetadata := example_record\<lparr>uPhyId := 11\<rparr>\<rparr>) =
     Inl phy_name_out_of_bounds \<and>
   CombineMetadataWithPacket [] 0 0 0 0 0 (example_record\<lparr>uPhyId := 11\<rparr>) 0 example_pending =
     Inl phy_name_out_of_bounds \<and>
   (\<exists>s'. CombineMetadataWithPacket [] 0 0 0 0 0 (example_record\<lparr>uPhyId := 10\<rparr>) 0 example_pending =
     Inr s')"
proof -
  let ?t = "example_pending\<lparr>PacketMetadata := example_record\<lparr>uPhyId := 11\<rparr>\<rparr>"
  let ?ev = "example_fragment KW_PACKET_END 116444736000000000 [1, 2, 3]"
  have g: "GetInterface 7 ?t = Some example_Iface"
    using example_pending_fields(7) by (simp add: GetInterface_def)
  have h: "Pass2 ?t \<and> ProviderId ?ev = NdisCapId \<and>
    (Id ?ev = tidPacketFragment \<or> Id ?ev = tidVMSwitchPacketFragment) \<and>
    prop_LowerIfIndex ?ev = Inr 7 \<and> GetInterface 7 ?t = Some example_Iface \<and>
    PcapNgIfIndex example_Iface = Some 0 \<and>
    prop_FragmentSize ?ev = Inr 3 \<and> prop_Fragment ?ev = Inr [1, 2, 3] \<and>
    unat (AuxFragBufOffset ?t) + unat (3 :: 32 word) \<le> MAX_PACKET_SIZE \<and>
    Keyword ?ev AND KW_PACKET_END \<noteq> 0 \<and>
    AddMetadata ?t \<and> 10 < unat (uPhyId (PacketMetadata ?t))"
    using g by (simp add: example_fragment_fields example_pending_fields example_Iface_index
        MAX_PACKET_SIZE_def KW_PACKET_END_nonzero)
  from phy_name_lookup_unchecked [of "[]" 0 0 0 0 0 "example_record\<lparr>uPhyId := 11\<rparr>" 0
      example_pending ?t ?ev 7 example_Iface 0 3 "[1, 2, 3]"]
    phy_name_lookup_unchecked [of "[]" 0 0 0 0 0 "example_record\<lparr>uPhyId := 10\<rparr>" 0
      example_pending ?t ?ev 7 example_Iface 0 3 "[1, 2, 3]"] h
  show ?thesis
    by (simp add: example_pending_fields)
qed

text \<open>
  C2, as stated: the payload of the one packet is the concatenation of the fragments.
  A single-fragment frame of three bytes whose event carries the native-802.11
  keyword, with byte 1 equal to 0xC0, is emitted with byte 1 equal to 0x80: the
  payload is not the concatenation.
\<close>

theorem reassembly_counterexample:
  "fragment_event 7 (example_fragment (KW_PACKET_END OR KW_MEDIA_NATIVE_802_11)
      116444736000000000 [0x08, 0xC0, 0x3A]) \<and>
   Pass2 example_pass2 \<and> AuxFragBufOffset example_pass2 = 0 \<and>
   fragment_bytes (example_fragment (KW_PACKET_END OR KW_MEDIA_NATIVE_802_11)
      116444736000000000 [0x08, 0xC0, 0x3A]) = [0x08, 0xC0, 0x3A] \<and>
   \<not> isl (ProcessTrace [example_fragment (KW_PACKET_END OR KW_MEDIA_NATIVE_802_11)
      116444736000000000 [0x08, 0xC0, 0x3A]] example_pass2) \<and>
   packet_payload (packet_of (last (OutFile (projr
     (ProcessTrace [example_fragment (KW_PACKET_END OR KW_MEDIA_NATIVE_802_11)
        116444736000000000 [0x08, 0xC0, 0x3A]] example_pass2))))) = Some [0x08, 0x80, 0x3A]"
proof -
  have kw: "(KW_PACKET_END OR KW_MEDIA_NATIVE_802_11) AND KW_PACKET_END \<noteq> 0"
    "(KW_PACKET_END OR KW_MEDIA_NATIVE_802_11) AND KW_MEDIA_NATIVE_802_11 \<noteq> 0"
    by (simp_all add: KW_PACKET_END_def KW_MEDIA_NATIVE_802_11_def)
  have e: "EventCallback (example_fragment (KW_PACKET_END OR KW_MEDIA_NATIVE_802_11) 116444736000000000
       [0x08, 0xC0, 0x3A]) example_pass2 =
     Inr (frame_end_state (example_fragment (KW_PACKET_END OR KW_MEDIA_NATIVE_802_11)
            116444736000000000 [0x08, 0xC0, 0x3A]) example_pass2 0 3 [0x08, 0xC0, 0x3A])"
    using example_frame [OF kw(1), of "[0x08, 0xC0, 0x3A]" 116444736000000000]
    by (simp add: MAX_PACKET_SIZE_def)
  have fe: "fragment_event 7 (example_fragment (KW_PACKET_END OR KW_MEDIA_NATIVE_802_11)
      116444736000000000 [0x08, 0xC0, 0x3A])"
    by (simp add: fragment_event_def example_fragment_fields)
  have p: "packet_payload (frame_packet (example_fragment (KW_PACKET_END OR KW_MEDIA_NATIVE_802_11)
            116444736000000000 [0x08, 0xC0, 0x3A]) example_pass2 0 3 [0x08, 0xC0, 0x3A]) =
      Some [0x08, 0x80, 0x3A]"
    using kw(2)
    by (simp add: packet_payload_def frame_packet_def frame_array_def example_fragment_fields
        example_pass2_fields copy_at_def clear_Protected_def MAX_PACKET_SIZE_def)
  show ?thesis
    using fe p by (simp add: e frame_end_state_fields example_pass2_fields
        fragment_bytes_def example_fragment_fields)
qed


text \<open>
  C2, amended: fragment events b1, ..., bn (n \<ge> 1) on one interface known from pass 1,
  delivered in pass 2 from an empty fragment buffer with no metadata record pending,
  only the last one carrying the frame-end keyword, of at most 65535 bytes together.
  Then exactly one packet is emitted, by the last event, none by the events before it;
  its payload is the concatenation b1 || ... || bn, except that a frame whose last
  event carries the native-802.11 keyword has bit 0x40 of byte 1 cleared.
\<close>

theorem fragments_reassembled:
  assumes "Pass2 s" and "AuxFragBufOffset s = 0" and "length (AuxFragBuf s) = MAX_PACKET_SIZE"
    and "\<not> AddMetadata s"
    and "GetInterface L s = Some Iface" and "PcapNgIfIndex Iface = Some ifid"
    and "\<forall>e \<in> set evs. fragment_event L e \<and> Keyword e AND KW_PACKET_END = 0"
    and "fragment_event L ev" and "Keyword ev AND KW_PACKET_END \<noteq> 0"
    and "frame = concat (map fragment_bytes (evs @ [ev]))"
    and "length frame \<le> MAX_PACKET_SIZE"
  shows "(\<exists>s' c. ProcessTrace (evs @ [ev]) s = Inr s' \<and>
            OutFile s' = OutFile s @ [PcapNgWriteEnhancedPacket c] \<and>
            packet_payload c =
              Some (if Keyword ev AND KW_MEDIA_NATIVE_802_11 \<noteq> 0
                    then frame[1 := frame ! 1 AND 0xBF] else frame) \<and>
            AuxFragBufOffset s' = 0) \<and>
         (\<forall>k \<le> length evs. \<exists>sk. ProcessTrace (take k evs) s = Inr sk \<and> OutFile sk = OutFile s)"
proof (intro conjI allI impI)
  fix k assume "k \<le> length evs"
  have a: "\<forall>e \<in> set (take k evs). fragment_event L e \<and> Keyword e AND KW_PACKET_END = 0"
    using assms(7) by (meson in_set_takeD)
  have "length (concat (map fragment_bytes (take k evs))) \<le> length frame"
    using length_concat_take [of fragment_bytes k evs] by (simp add: assms(10))
  then have b: "unat (AuxFragBufOffset s) + length (concat (map fragment_bytes (take k evs)))
      \<le> MAX_PACKET_SIZE"
    using assms(2,11) by simp
  from fragments_accumulate [OF assms(1,5) a b assms(3)]
  show "\<exists>sk. ProcessTrace (take k evs) s = Inr sk \<and> OutFile sk = OutFile s"
    by simp
next
  let ?front = "concat (map fragment_bytes evs)"
  let ?b = "fragment_bytes ev"
  let ?s1 = "s\<lparr>AuxFragBuf := copy_at (AuxFragBuf s) (unat (AuxFragBufOffset s)) ?front,
            AuxFragBufOffset := AuxFragBufOffset s + of_nat (length ?front)\<rparr>"
  let ?len = "of_nat (length ?b) :: 32 word"
  have fr: "frame = ?front @ ?b" by (simp add: assms(10))
  have tot: "length ?front + length ?b \<le> MAX_PACKET_SIZE" using assms(11) fr by simp
  have b: "unat (AuxFragBufOffset s) + length ?front \<le> MAX_PACKET_SIZE"
    using tot assms(2) by simp
  note run = fragments_accumulate [OF assms(1,5,7) b assms(3)]
  note d = fragment_eventD [OF assms(8)]
  have off1: "unat (AuxFragBufOffset ?s1) = length ?front"
    using unat_offset_add [of 0 "length ?front"] tot assms(2) by simp
  have ul: "unat ?len = length ?b"
    using tot by (intro unat_length_32) simp
  have g1: "GetInterface L ?s1 = Some Iface" using assms(5) by (simp add: GetInterface_def)
  have e: "EventCallback ev ?s1 = Inr (frame_end_state ev ?s1 ifid ?len ?b)"
  proof (rule frame_end_emits [OF _ d(1-3) g1 assms(6) d(5,4) _ assms(9)])
    show "Pass2 ?s1" using assms(1) by simp
    show "unat (AuxFragBufOffset ?s1) + unat ?len \<le> MAX_PACKET_SIZE"
      using off1 ul tot by simp
    show "AddMetadata ?s1 \<longrightarrow>
        unat (uPhyId (PacketMetadata ?s1)) < length DOT11_PHY_TYPE_NAMES"
      using assms(4) by simp
  qed
  have buf: "copy_at (AuxFragBuf ?s1) (unat (AuxFragBufOffset ?s1)) (take (unat ?len) ?b) =
      copy_at (AuxFragBuf s) 0 frame"
  proof -
    have "copy_at (copy_at (AuxFragBuf s) 0 ?front) (0 + length ?front) ?b =
        copy_at (AuxFragBuf s) 0 (?front @ ?b)"
      using tot assms(3) by (intro copy_at_copy_at) simp
    then show ?thesis using off1 ul assms(2) fr by simp
  qed
  have fl: "unat (FragLength (frame_packet ev ?s1 ifid ?len ?b)) = length frame"
  proof -
    have "FragLength (frame_packet ev ?s1 ifid ?len ?b) = of_nat (length ?front) + ?len"
      using assms(2,4) by (simp add: frame_packet_def)
    moreover have "unat ((of_nat (length ?front) :: 32 word) + ?len) = length ?front + length ?b"
      using unat_offset_add [of "of_nat (length ?front)" "length ?b"] off1 tot assms(2) by simp
    ultimately show ?thesis using fr by simp
  qed
  have lenbuf: "length (copy_at (AuxFragBuf s) 0 frame) = MAX_PACKET_SIZE"
    using assms(3,11) by (simp add: length_copy_at)
  have fle: "length frame \<le> length (AuxFragBuf s)" using assms(3,11) by simp
  have pay: "packet_payload (frame_packet ev ?s1 ifid ?len ?b) =
      Some (if Keyword ev AND KW_MEDIA_NATIVE_802_11 \<noteq> 0
            then frame[1 := frame ! 1 AND 0xBF] else frame)"
  proof (cases "Keyword ev AND KW_MEDIA_NATIVE_802_11 \<noteq> 0")
    case True
    then have fb: "FragBuf (frame_packet ev ?s1 ifid ?len ?b) =
        clear_Protected (copy_at (AuxFragBuf s) 0 frame)"
      using buf by (simp add: frame_packet_def frame_array_def)
    have "length (clear_Protected (copy_at (AuxFragBuf s) 0 frame)) = MAX_PACKET_SIZE"
      using lenbuf by (simp add: clear_Protected_eq)
    with True fb fl assms(11) take_clear_Protected [OF fle] show ?thesis
      by (simp add: packet_payload_def)
  next
    case False
    then have fb: "FragBuf (frame_packet ev ?s1 ifid ?len ?b) = copy_at (AuxFragBuf s) 0 frame"
      using buf by (simp add: frame_packet_def frame_array_def)
    with False fl lenbuf assms(11) take_copy_at_0 [OF fle] show ?thesis
      by (simp add: packet_payload_def)
  qed
  have "ProcessTrace (evs @ [ev]) s = Inr (frame_end_state ev ?s1 ifid ?len ?b)"
    using run e by (simp add: ProcessTrace_append)
  moreover have "OutFile (frame_end_state ev ?s1 ifid ?len ?b) =
      OutFile s @ [PcapNgWriteEnhancedPacket (frame_packet ev ?s1 ifid ?len ?b)]"
    by (simp add: frame_end_state_fields)
  moreover have "AuxFragBufOffset (frame_end_state ev ?s1 ifid ?len ?b) = 0"
    by (simp add: frame_end_state_fields)
  ultimately show "\<exists>s' c. ProcessTrace (evs @ [ev]) s = Inr s' \<and>
            OutFile s' = OutFile s @ [PcapNgWriteEnhancedPacket c] \<and>
            packet_payload c =
              Some (if Keyword ev AND KW_MEDIA_NATIVE_802_11 \<noteq> 0
                    then frame[1 := frame ! 1 AND 0xBF] else frame) \<and>
            AuxFragBufOffset s' = 0"
    using pay by blast
qed

lemma example_fragment_event: "fragment_event 7 (example_fragment kw ts bytes)"
  by (simp add: fragment_event_def example_fragment_fields)

lemma example_fragment_bytes: "fragment_bytes (example_fragment kw ts bytes) = bytes"
  by (simp add: fragment_bytes_def example_fragment_fields)

theorem fragments_reassembled_witness:
  "Pass2 example_pass2 \<and> AuxFragBufOffset example_pass2 = 0 \<and> \<not> AddMetadata example_pass2 \<and>
   GetInterface 7 example_pass2 = Some example_Iface \<and>
   fragment_event 7 (example_fragment KW_PACKET_START 116444736000000000 [1, 2]) \<and>
   fragment_event 7 (example_fragment 0 116444736000000010 [3]) \<and>
   fragment_event 7 (example_fragment KW_PACKET_END 116444736000000020 [4, 5]) \<and>
   (\<exists>s' c. ProcessTrace
       [example_fragment KW_PACKET_START 116444736000000000 [1, 2],
        example_fragment 0 116444736000000010 [3],
        example_fragment KW_PACKET_END 116444736000000020 [4, 5]] example_pass2 = Inr s' \<and>
      OutFile s' = OutFile example_pass2 @ [PcapNgWriteEnhancedPacket c] \<and>
      packet_payload c = Some [1, 2, 3, 4, 5] \<and> AuxFragBufOffset s' = 0)"
proof -
  let ?evs = "[example_fragment KW_PACKET_START 116444736000000000 [1, 2],
        example_fragment 0 116444736000000010 [3]]"
  let ?ev = "example_fragment KW_PACKET_END 116444736000000020 [4, 5]"
  have a: "\<forall>e \<in> set ?evs. fragment_event 7 e \<and> Keyword e AND KW_PACKET_END = 0"
    by (simp add: example_fragment_event example_fragment_fields KW_PACKET_START_def
        KW_PACKET_END_def)
  have b: "Keyword ?ev AND KW_PACKET_END \<noteq> 0"
    by (simp add: example_fragment_fields KW_PACKET_END_def)
  have c: "[1, 2, 3, 4, 5] = concat (map fragment_bytes (?evs @ [?ev]))"
    by (simp add: example_fragment_bytes)
  have d: "length [1 :: 8 word, 2, 3, 4, 5] \<le> MAX_PACKET_SIZE"
    by (simp add: MAX_PACKET_SIZE_def)
  have l: "length (AuxFragBuf example_pass2) = MAX_PACKET_SIZE"
    by (simp add: example_pass2_fields)
  have k: "Keyword ?ev AND KW_MEDIA_NATIVE_802_11 = 0"
    by (simp add: example_fragment_fields KW_PACKET_END_def KW_MEDIA_NATIVE_802_11_def)
  from fragments_reassembled [OF example_pass2_fields(1,2) l example_pass2_fields(4)
      example_GetInterface example_Iface_index a example_fragment_event b c d] k
  show ?thesis
    by (simp add: example_pass2_fields example_GetInterface example_fragment_event)
qed

lemma quiet_event:
  assumes "Pass2 s" "Id e \<noteq> tidPacketMetadata" "Keyword e AND KW_PACKET_END = 0"
    "EventCallback e s = Inr s'"
  shows "OutFile s' = OutFile s \<and> AddMetadata s' = AddMetadata s \<and>
         PacketMetadata s' = PacketMetadata s \<and> Pass2 s' \<and>
         InterfaceHashTable s' = InterfaceHashTable s"
  using assms
  by (auto simp add: EventCallback_def Fragment_event_def printf_def Let_def
      split: if_splits sum.splits option.splits)

lemma quiet_events:
  assumes "Pass2 s" "\<forall>e \<in> set evs. Id e \<noteq> tidPacketMetadata \<and> Keyword e AND KW_PACKET_END = 0"
    "ProcessTrace evs s = Inr s'"
  shows "OutFile s' = OutFile s \<and> AddMetadata s' = AddMetadata s \<and>
         PacketMetadata s' = PacketMetadata s \<and> Pass2 s' \<and>
         InterfaceHashTable s' = InterfaceHashTable s"
  using assms
proof (induction evs arbitrary: s)
  case Nil
  then show ?case by simp
next
  case (Cons e evs)
  from Cons.prems(3) obtain s1 where
    e: "EventCallback e s = Inr s1" and r: "ProcessTrace evs s1 = Inr s'"
    by (auto split: sum.splits)
  from Cons.prems(2) have q: "Id e \<noteq> tidPacketMetadata" "Keyword e AND KW_PACKET_END = 0"
    by simp_all
  note a = quiet_event [OF Cons.prems(1) q e]
  from a have p1: "Pass2 s1" by simp
  from Cons.prems(2) have "\<forall>e \<in> set evs. Id e \<noteq> tidPacketMetadata \<and> Keyword e AND KW_PACKET_END = 0"
    by simp
  from Cons.IH [OF p1 this r] a show ?case by simp
qed

text \<open>
  The metadata slot while the phy id of the record lies within the table of names. In
  pass 2, a valid metadata event (its size is that of the structure, its record
  readable) whose phy id is at most 10 stores its record in the single slot, whatever
  the slot held before, and emits nothing. The events up to the next frame end leave
  the slot alone. The next frame-end event, on any interface, then emits one packet
  whose comment is the formatted record (receive flags, phy type, centre channel,
  number of MPDUs, RSSI, data rate) followed by the process id, and empties the slot. A
  frame-end event that finds the slot empty emits a packet whose comment is the
  process id alone.
\<close>

theorem metadata_attached:
  assumes "Pass2 s"
    and "ProviderId mev = NdisCapId" and "Id mev = tidPacketMetadata"
    and "prop_LowerIfIndex mev = Inr L" and "GetInterface L s = Some Iface"
    and "prop_MetadataSize mev = Inr msz" and "unat msz = sizeof_DOT11_EXTSTA_RECV_CONTEXT"
    and "prop_Metadata mev = Inr md" and "unat (uPhyId md) \<le> 10"
    and "\<forall>e \<in> set mids. Id e \<noteq> tidPacketMetadata \<and> Keyword e AND KW_PACKET_END = 0"
    and "ProcessTrace mids (s\<lparr>PacketMetadata := md, AddMetadata := True\<rparr>) = Inr t"
    and "fragment_event L' fev" and "Keyword fev AND KW_PACKET_END \<noteq> 0"
    and "GetInterface L' s = Some Iface'" and "PcapNgIfIndex Iface' = Some ifid"
    and "unat (AuxFragBufOffset t) + length (fragment_bytes fev) \<le> MAX_PACKET_SIZE"
  shows "EventCallback mev s = Inr (s\<lparr>PacketMetadata := md, AddMetadata := True\<rparr>) \<and>
         OutFile t = OutFile s \<and>
         (\<exists>t' c. EventCallback fev t = Inr t' \<and>
            OutFile t' = OutFile s @ [PcapNgWriteEnhancedPacket c] \<and>
            Comment c = Some (metadata_text md (DOT11_PHY_TYPE_NAMES ! unat (uPhyId md))
                                (ProcessId fev)) \<and>
            \<not> AddMetadata t' \<and> PacketMetadata t' = zero_metadata) \<and>
         (\<forall>u L2 Iface2 ifid2 fev2.
            Pass2 u \<and> \<not> AddMetadata u \<and> fragment_event L2 fev2 \<and>
            Keyword fev2 AND KW_PACKET_END \<noteq> 0 \<and>
            GetInterface L2 u = Some Iface2 \<and> PcapNgIfIndex Iface2 = Some ifid2 \<and>
            unat (AuxFragBufOffset u) + length (fragment_bytes fev2) \<le> MAX_PACKET_SIZE \<longrightarrow>
            (\<exists>u' c. EventCallback fev2 u = Inr u' \<and>
               OutFile u' = OutFile u @ [PcapNgWriteEnhancedPacket c] \<and>
               Comment c = Some (pid_text (ProcessId fev2))))"
proof (intro conjI allI impI)
  show m: "EventCallback mev s = Inr (s\<lparr>PacketMetadata := md, AddMetadata := True\<rparr>)"
    using assms(1-8) by (rule EventCallback_metadata)
  have p: "Pass2 (s\<lparr>PacketMetadata := md, AddMetadata := True\<rparr>)" using assms(1) by simp
  note q = quiet_events [OF p assms(10,11)]
  from q show "OutFile t = OutFile s" by simp
  from q have t: "Pass2 t" "AddMetadata t" "PacketMetadata t = md"
    "InterfaceHashTable t = InterfaceHashTable s"
    by simp_all
  note d = fragment_eventD [OF assms(12)]
  have g: "GetInterface L' t = Some Iface'" using assms(14) t(4) by (simp add: GetInterface_def)
  have ul: "unat (of_nat (length (fragment_bytes fev)) :: 32 word) = length (fragment_bytes fev)"
    using assms(16) by (intro unat_length_32) simp
  have e: "EventCallback fev t =
      Inr (frame_end_state fev t ifid (of_nat (length (fragment_bytes fev))) (fragment_bytes fev))"
  proof (rule frame_end_emits [OF t(1) d(1-3) g assms(15) d(5,4) _ assms(13)])
    show "unat (AuxFragBufOffset t) + unat (of_nat (length (fragment_bytes fev)) :: 32 word)
        \<le> MAX_PACKET_SIZE"
      using assms(16) ul by simp
    show "AddMetadata t \<longrightarrow> unat (uPhyId (PacketMetadata t)) < length DOT11_PHY_TYPE_NAMES"
      using assms(9) t(3) by (simp add: length_DOT11_PHY_TYPE_NAMES)
  qed
  show "\<exists>t' c. EventCallback fev t = Inr t' \<and>
            OutFile t' = OutFile s @ [PcapNgWriteEnhancedPacket c] \<and>
            Comment c = Some (metadata_text md (DOT11_PHY_TYPE_NAMES ! unat (uPhyId md))
                                (ProcessId fev)) \<and>
            \<not> AddMetadata t' \<and> PacketMetadata t' = zero_metadata"
    using e t q
    by (simp add: frame_end_state_fields frame_packet_fields frame_comment_def)
next
  fix u L2 Iface2 ifid2 fev2
  assume a: "Pass2 u \<and> \<not> AddMetadata u \<and> fragment_event L2 fev2 \<and>
            Keyword fev2 AND KW_PACKET_END \<noteq> 0 \<and>
            GetInterface L2 u = Some Iface2 \<and> PcapNgIfIndex Iface2 = Some ifid2 \<and>
            unat (AuxFragBufOffset u) + length (fragment_bytes fev2) \<le> MAX_PACKET_SIZE"
  then have fe: "fragment_event L2 fev2" by simp
  note d = fragment_eventD [OF fe]
  have ul: "unat (of_nat (length (fragment_bytes fev2)) :: 32 word) = length (fragment_bytes fev2)"
    using a by (intro unat_length_32) simp
  have e: "EventCallback fev2 u =
      Inr (frame_end_state fev2 u ifid2 (of_nat (length (fragment_bytes fev2))) (fragment_bytes fev2))"
    using a ul
    by (intro frame_end_emits [OF _ d(1-3) _ _ d(5,4), where Iface = Iface2]) simp_all
  show "\<exists>u' c. EventCallback fev2 u = Inr u' \<and>
               OutFile u' = OutFile u @ [PcapNgWriteEnhancedPacket c] \<and>
               Comment c = Some (pid_text (ProcessId fev2))"
    using e a
    by (simp add: frame_end_state_fields frame_packet_fields frame_comment_def)
qed

lemma example_comment:
  "metadata_text (example_record\<lparr>uPhyId := 8, lRSSI := 0xFFFFFFB5\<rparr>)
     (DOT11_PHY_TYPE_NAMES ! unat (uPhyId (example_record\<lparr>uPhyId := 8, lRSSI := 0xFFFFFFB5\<rparr>)))
     4242 =
   ''Packet Metadata: ReceiveFlags:0x1f, PhyType:802.11ac, CenterCh:2437, NumMPDUsReceived:1, RSSI:-75, DataRate:130, PID=4242''"
  by (simp add: metadata_text_def example_record_def DOT11_PHY_TYPE_NAMES_def
      fmt_u.simps fmt_x.simps fmt_d_def digit_char_def)

lemma example_pid_comment: "pid_text 4242 = ''PID=4242''"
  by (simp add: pid_text_def fmt_u.simps fmt_d_def digit_char_def)

theorem metadata_attached_witness:
  "AddMetadata example_pending \<and> PacketMetadata example_pending = example_record \<and>
   EventCallback (example_metadata (example_record\<lparr>uPhyId := 8, lRSSI := 0xFFFFFFB5\<rparr>))
     example_pending =
     Inr (example_pending\<lparr>PacketMetadata := example_record\<lparr>uPhyId := 8, lRSSI := 0xFFFFFFB5\<rparr>,
            AddMetadata := True\<rparr>) \<and>
   (\<exists>t t' c.
      ProcessTrace [example_fragment KW_PACKET_START 116444736000000000 [1, 2]]
        (example_pending\<lparr>PacketMetadata := example_record\<lparr>uPhyId := 8, lRSSI := 0xFFFFFFB5\<rparr>,
            AddMetadata := True\<rparr>) = Inr t \<and>
      EventCallback (example_fragment KW_PACKET_END 116444736000000010 [3]) t = Inr t' \<and>
      OutFile t' = OutFile example_pending @ [PcapNgWriteEnhancedPacket c] \<and>
      Comment c = Some ''Packet Metadata: ReceiveFlags:0x1f, PhyType:802.11ac, CenterCh:2437, NumMPDUsReceived:1, RSSI:-75, DataRate:130, PID=4242'' \<and>
      \<not> AddMetadata t' \<and> PacketMetadata t' = zero_metadata) \<and>
   (\<exists>u' c. EventCallback (example_fragment KW_PACKET_END 116444736000000010 [3]) example_pass2 = Inr u' \<and>
      OutFile u' = OutFile example_pass2 @ [PcapNgWriteEnhancedPacket c] \<and>
      Comment c = Some ''PID=4242'')"
proof -
  let ?md = "example_record\<lparr>uPhyId := 8, lRSSI := 0xFFFFFFB5\<rparr>"
  let ?mev = "example_metadata ?md"
  let ?s1 = "example_pending\<lparr>PacketMetadata := ?md, AddMetadata := True\<rparr>"
  let ?mids = "[example_fragment KW_PACKET_START 116444736000000000 [1, 2]]"
  let ?fev = "example_fragment KW_PACKET_END 116444736000000010 [3]"
  let ?t = "?s1\<lparr>AuxFragBuf := copy_at (AuxFragBuf ?s1) (unat (AuxFragBufOffset ?s1))
                            (concat (map fragment_bytes ?mids)),
            AuxFragBufOffset := AuxFragBufOffset ?s1 +
                            of_nat (length (concat (map fragment_bytes ?mids)))\<rparr>"
  have g: "GetInterface 7 ?s1 = Some example_Iface"
    using example_pending_fields(7) by (simp add: GetInterface_def)
  have q: "\<forall>e \<in> set ?mids. fragment_event 7 e \<and> Keyword e AND KW_PACKET_END = 0"
    by (simp add: example_fragment_event example_fragment_fields KW_PACKET_START_def
        KW_PACKET_END_def)
  have run: "ProcessTrace ?mids ?s1 = Inr ?t"
    by (rule fragments_accumulate [OF _ g q])
       (simp_all add: example_pending_fields example_fragment_bytes MAX_PACKET_SIZE_def)
  have q': "\<forall>e \<in> set ?mids. Id e \<noteq> tidPacketMetadata \<and> Keyword e AND KW_PACKET_END = 0"
    by (simp add: example_fragment_fields tid_distinct KW_PACKET_START_def KW_PACKET_END_def)
  have sz: "unat (48 :: 32 word) = sizeof_DOT11_EXTSTA_RECV_CONTEXT"
    by (simp add: sizeof_DOT11_EXTSTA_RECV_CONTEXT_def)
  have phy: "unat (uPhyId ?md) \<le> 10" by (simp add: example_record_def)
  have k: "Keyword ?fev AND KW_PACKET_END \<noteq> 0"
    by (simp add: example_fragment_fields KW_PACKET_END_nonzero)
  have fit: "unat (AuxFragBufOffset ?t) + length (fragment_bytes ?fev) \<le> MAX_PACKET_SIZE"
    by (simp add: example_pending_fields example_fragment_bytes MAX_PACKET_SIZE_def)
  note inst = metadata_attached [OF example_pending_fields(1) example_metadata_fields(1-3)
      example_pending_fields(7) example_metadata_fields(4) sz example_metadata_fields(5) phy
      q' run example_fragment_event k example_pending_fields(7) example_Iface_index fit]
  have u: "Pass2 example_pass2 \<and> \<not> AddMetadata example_pass2 \<and> fragment_event 7 ?fev \<and>
            Keyword ?fev AND KW_PACKET_END \<noteq> 0 \<and>
            GetInterface 7 example_pass2 = Some example_Iface \<and>
            PcapNgIfIndex example_Iface = Some 0 \<and>
            unat (AuxFragBufOffset example_pass2) + length (fragment_bytes ?fev)
              \<le> MAX_PACKET_SIZE"
    using k by (simp add: example_pass2_fields example_fragment_event example_GetInterface
        example_Iface_index example_fragment_bytes MAX_PACKET_SIZE_def)
  note a = inst [THEN conjunct1]
  from inst [THEN conjunct2, THEN conjunct2, THEN conjunct1] obtain t' c where b: "EventCallback ?fev ?t = Inr t'"
      "OutFile t' = OutFile example_pending @ [PcapNgWriteEnhancedPacket c]"
      "Comment c = Some (metadata_text ?md (DOT11_PHY_TYPE_NAMES ! unat (uPhyId ?md))
                                (ProcessId ?fev))"
      "\<not> AddMetadata t'" "PacketMetadata t' = zero_metadata"
    by (elim exE conjE)
  from inst [THEN conjunct2, THEN conjunct2, THEN conjunct2, rule_format, OF u]
  obtain u' c' where d: "EventCallback ?fev example_pass2 = Inr u'"
      "OutFile u' = OutFile example_pass2 @ [PcapNgWriteEnhancedPacket c']"
      "Comment c' = Some (pid_text (ProcessId ?fev))"
    by (elim exE conjE)
  from b(3) have b3: "Comment c = Some ''Packet Metadata: ReceiveFlags:0x1f, PhyType:802.11ac, CenterCh:2437, NumMPDUsReceived:1, RSSI:-75, DataRate:130, PID=4242''"
    by (simp only: example_comment example_fragment_fields)
  from d(3) have d3: "Comment c' = Some ''PID=4242''"
    by (simp only: example_pid_comment example_fragment_fields)
  have p1: "AddMetadata example_pending \<and> PacketMetadata example_pending = example_record"
    by (simp add: example_pending_fields)
  have p3: "\<exists>t t' c.
      ProcessTrace ?mids ?s1 = Inr t \<and>
      EventCallback ?fev t = Inr t' \<and>
      OutFile t' = OutFile example_pending @ [PcapNgWriteEnhancedPacket c] \<and>
      Comment c = Some ''Packet Metadata: ReceiveFlags:0x1f, PhyType:802.11ac, CenterCh:2437, NumMPDUsReceived:1, RSSI:-75, DataRate:130, PID=4242'' \<and>
      \<not> AddMetadata t' \<and> PacketMetadata t' = zero_metadata"
  proof (intro exI conjI)
    show "ProcessTrace ?mids ?s1 = Inr ?t" by (fact run)
    show "EventCallback ?fev ?t = Inr t'" by (fact b(1))
    show "OutFile t' = OutFile example_pending @ [PcapNgWriteEnhancedPacket c]" by (fact b(2))
    show "Comment c = Some ''Packet Metadata: ReceiveFlags:0x1f, PhyType:802.11ac, CenterCh:2437, NumMPDUsReceived:1, RSSI:-75, DataRate:130, PID=4242''"
      by (fact b3)
    show "\<not> AddMetadata t'" by (fact b(4))
    show "PacketMetadata t' = zero_metadata" by (fact b(5))
  qed
  have p4: "\<exists>u' c. EventCallback ?fev example_pass2 = Inr u' \<and>
      OutFile u' = OutFile example_pass2 @ [PcapNgWriteEnhancedPacket c] \<and>
      Comment c = Some ''PID=4242''"
  proof (intro exI conjI)
    show "EventCallback ?fev example_pass2 = Inr u'" by (fact d(1))
    show "OutFile u' = OutFile example_pass2 @ [PcapNgWriteEnhancedPacket c']" by (fact d(2))
    show "Comment c' = Some ''PID=4242''" by (fact d3)
  qed
  from p1 a p3 p4 show ?thesis by (intro conjI) (erule conjunct1 conjunct2 | assumption)+
qed

text \<open>
  C6. The claim: a valid metadata event followed by the next frame-end event produces
  one packet whose comment holds the formatted fields of the record. The metadata
  branch checks the size of the record and that it can be read (lines 337 to 364),
  and stores it; it does not look at \<open>uPhyId\<close>. With a record whose phy id is above
  10 in the slot, the next frame-end event, on any interface, reads the table of
  names outside its 11 entries (line 239) on its way to the comment: the run stops
  there and the frame is not emitted. Up to that event nothing was emitted either.
\<close>

theorem metadata_phy_id_unchecked:
  assumes "Pass2 s"
    and "ProviderId mev = NdisCapId" and "Id mev = tidPacketMetadata"
    and "prop_LowerIfIndex mev = Inr L" and "GetInterface L s = Some Iface"
    and "prop_MetadataSize mev = Inr msz" and "unat msz = sizeof_DOT11_EXTSTA_RECV_CONTEXT"
    and "prop_Metadata mev = Inr md" and "10 < unat (uPhyId md)"
    and "\<forall>e \<in> set mids. Id e \<noteq> tidPacketMetadata \<and> Keyword e AND KW_PACKET_END = 0"
    and "ProcessTrace mids (s\<lparr>PacketMetadata := md, AddMetadata := True\<rparr>) = Inr t"
    and "fragment_event L' fev" and "Keyword fev AND KW_PACKET_END \<noteq> 0"
    and "GetInterface L' s = Some Iface'" and "PcapNgIfIndex Iface' = Some ifid"
    and "unat (AuxFragBufOffset t) + length (fragment_bytes fev) \<le> MAX_PACKET_SIZE"
  shows "EventCallback mev s = Inr (s\<lparr>PacketMetadata := md, AddMetadata := True\<rparr>) \<and>
         OutFile t = OutFile s \<and> AddMetadata t \<and> PacketMetadata t = md \<and>
         EventCallback fev t = Inl phy_name_out_of_bounds \<and>
         ProcessTrace (mev # mids @ [fev]) s = Inl phy_name_out_of_bounds"
proof -
  have m: "EventCallback mev s = Inr (s\<lparr>PacketMetadata := md, AddMetadata := True\<rparr>)"
    using assms(1-8) by (rule EventCallback_metadata)
  have p: "Pass2 (s\<lparr>PacketMetadata := md, AddMetadata := True\<rparr>)" using assms(1) by simp
  note q = quiet_events [OF p assms(10,11)]
  from q have t: "Pass2 t" "AddMetadata t" "PacketMetadata t = md"
    "InterfaceHashTable t = InterfaceHashTable s" "OutFile t = OutFile s"
    by simp_all
  note d = fragment_eventD [OF assms(12)]
  have g: "GetInterface L' t = Some Iface'" using assms(14) t(4) by (simp add: GetInterface_def)
  have ul: "unat (of_nat (length (fragment_bytes fev)) :: 32 word) = length (fragment_bytes fev)"
    using assms(16) by (intro unat_length_32) simp
  have e: "EventCallback fev t = Inl phy_name_out_of_bounds"
  proof (rule frame_end_out_of_bounds [OF t(1) d(1-3) g assms(15) d(5,4) _ assms(13) t(2)])
    show "unat (AuxFragBufOffset t) + unat (of_nat (length (fragment_bytes fev)) :: 32 word)
        \<le> MAX_PACKET_SIZE"
      using assms(16) ul by simp
    show "length DOT11_PHY_TYPE_NAMES \<le> unat (uPhyId (PacketMetadata t))"
      using assms(9) t(3) by (simp add: length_DOT11_PHY_TYPE_NAMES)
  qed
  have "ProcessTrace (mev # mids @ [fev]) s = Inl phy_name_out_of_bounds"
    by (simp add: m ProcessTrace_append assms(11) e)
  with m t e show ?thesis by simp
qed

theorem metadata_phy_id_unchecked_witness:
  "unat (uPhyId (example_record\<lparr>uPhyId := 11\<rparr>)) = 11 \<and>
   pass2_start example_unknown_phy (\<lambda>_. True) = Inr example_mixed_pass2 \<and>
   EventCallback (discovery (7, 7)) example_mixed_pass2 =
     Inr (frame_end_state (discovery (7, 7)) example_mixed_pass2 0 0 []) \<and>
   EventCallback (example_metadata (example_record\<lparr>uPhyId := 11\<rparr>))
     (frame_end_state (discovery (7, 7)) example_mixed_pass2 0 0 []) =
     Inr ((frame_end_state (discovery (7, 7)) example_mixed_pass2 0 0 [])
            \<lparr>PacketMetadata := example_record\<lparr>uPhyId := 11\<rparr>, AddMetadata := True\<rparr>) \<and>
   EventCallback (example_fragment KW_PACKET_END 116444736000000010 [0x08, 0xC0, 0x3A])
     ((frame_end_state (discovery (7, 7)) example_mixed_pass2 0 0 [])
            \<lparr>PacketMetadata := example_record\<lparr>uPhyId := 11\<rparr>, AddMetadata := True\<rparr>) =
     Inl phy_name_out_of_bounds \<and>
   wmain_passes example_unknown_phy (\<lambda>_. True) = Inl phy_name_out_of_bounds"
proof -
  let ?s = "frame_end_state (discovery (7, 7)) example_mixed_pass2 0 0 []"
  let ?md = "example_record\<lparr>uPhyId := 11\<rparr>"
  let ?mev = "example_metadata ?md"
  let ?fev = "example_fragment KW_PACKET_END 116444736000000010 [0x08, 0xC0, 0x3A]"
  let ?t = "?s\<lparr>PacketMetadata := ?md, AddMetadata := True\<rparr>"
  have sz: "unat (48 :: 32 word) = sizeof_DOT11_EXTSTA_RECV_CONTEXT"
    by (simp add: sizeof_DOT11_EXTSTA_RECV_CONTEXT_def)
  have phy: "10 < unat (uPhyId ?md)" by simp
  have q: "\<forall>e \<in> set []. Id e \<noteq> tidPacketMetadata \<and> Keyword e AND KW_PACKET_END = 0"
    by simp
  have run: "ProcessTrace [] ?t = Inr ?t" by simp
  have k: "Keyword ?fev AND KW_PACKET_END \<noteq> 0"
    by (simp add: example_fragment_fields KW_PACKET_END_nonzero)
  have fit: "unat (AuxFragBufOffset ?t) + length (fragment_bytes ?fev) \<le> MAX_PACKET_SIZE"
    by (simp add: example_mixed_between example_fragment_bytes MAX_PACKET_SIZE_def)
  note inst = metadata_phy_id_unchecked [OF example_mixed_between(1) example_metadata_fields(1-3)
      example_mixed_between(5) example_metadata_fields(4) sz example_metadata_fields(5) phy
      q run example_fragment_event k example_mixed_between(5) example_Iface_index fit]
  from inst have a: "EventCallback ?mev ?s = Inr ?t" by (rule conjunct1)
  from inst have b: "EventCallback ?fev ?t = Inl phy_name_out_of_bounds" by simp
  from inst have c: "ProcessTrace [?mev, ?fev] ?s = Inl phy_name_out_of_bounds" by simp
  have "ProcessTrace example_unknown_phy example_mixed_pass2 = Inl phy_name_out_of_bounds"
    using c by (simp add: example_unknown_phy_def example_mixed_first)
  then have d: "wmain_passes example_unknown_phy (\<lambda>_. True) = Inl phy_name_out_of_bounds"
    by (simp only: wmain_passes_def example_unknown_phy_start sum.case)
  have e: "unat (uPhyId ?md) = 11" by simp
  from e example_unknown_phy_start example_mixed_first a b d show ?thesis
    by (intro conjI)
qed

text \<open>
  C3. The claim: a fragment that would take the buffer past 65535 bytes is rejected,
  the pending bytes are discarded by resetting the fill offset to 0, and no packet is
  emitted for that frame. The code rejects the event and prints its message, but
  returns with the fill offset and the buffer as they were: the bytes already
  accumulated stay pending.
\<close>

theorem oversized_fragment_keeps_pending_bytes:
  assumes "Pass2 s" and "ProviderId ev = NdisCapId"
    and "Id ev = tidPacketFragment \<or> Id ev = tidVMSwitchPacketFragment"
    and "prop_LowerIfIndex ev = Inr L" and "GetInterface L s = Some Iface"
    and "prop_FragmentSize ev = Inr len"
    and "unat (AuxFragBufOffset s) \<le> MAX_PACKET_SIZE"
    and "MAX_PACKET_SIZE < unat (AuxFragBufOffset s) + unat len"
  shows "\<exists>s'. EventCallback ev s = Inr s' \<and> OutFile s' = OutFile s \<and>
           console s' = console s @ [packet_too_large (AuxFragBufOffset s + len)] \<and>
           AuxFragBufOffset s' = AuxFragBufOffset s \<and> AuxFragBuf s' = AuxFragBuf s"
proof -
  have "EventCallback ev s = Fragment_event ev Iface s"
    using assms(1-5) by (rule EventCallback_fragment)
  also have "\<dots> = Inr (printf (packet_too_large (AuxFragBufOffset s + len)) s)"
    using assms(6-8) by (rule Fragment_event_too_large)
  finally show ?thesis by (simp add: printf_def)
qed


theorem oversized_fragment_keeps_pending_bytes_witness:
  "\<exists>s1 s2 s3 c.
     EventCallback (example_fragment KW_PACKET_START 116444736000000000 (replicate 65000 1))
       example_pass2 = Inr s1 \<and>
     AuxFragBufOffset s1 = 65000 \<and>
     EventCallback (example_fragment KW_PACKET_END 116444736000000010 (replicate 1000 2)) s1 =
       Inr s2 \<and>
     OutFile s2 = OutFile example_pass2 \<and> AuxFragBufOffset s2 = 65000 \<and>
     EventCallback (example_fragment KW_PACKET_END 116444736000000020 [3, 3, 3]) s2 = Inr s3 \<and>
     OutFile s3 = OutFile example_pass2 @ [PcapNgWriteEnhancedPacket c] \<and>
     FragLength c = 65003 \<and>
     packet_payload c = Some (replicate 65000 1 @ [3, 3, 3])"
proof -
  let ?e1 = "example_fragment KW_PACKET_START 116444736000000000 (replicate 65000 1)"
  let ?e2 = "example_fragment KW_PACKET_END 116444736000000010 (replicate 1000 2)"
  let ?e3 = "example_fragment KW_PACKET_END 116444736000000020 [3, 3, 3]"
  let ?s1 = "example_pass2\<lparr>AuxFragBuf := replicate 65000 1 @ replicate 535 0,
                AuxFragBufOffset := 65000\<rparr>"
  have k1: "Keyword ?e1 AND KW_PACKET_END = 0"
    by (simp add: example_fragment_fields KW_PACKET_START_def KW_PACKET_END_def)
  have "EventCallback ?e1 example_pass2 =
     Inr (example_pass2\<lparr>AuxFragBuf := copy_at (AuxFragBuf example_pass2)
              (unat (AuxFragBufOffset example_pass2)) (fragment_bytes ?e1),
            AuxFragBufOffset := AuxFragBufOffset example_pass2 +
              of_nat (length (fragment_bytes ?e1))\<rparr>)"
    by (rule fragment_appended [OF example_pass2_fields(1) example_GetInterface
          example_fragment_event k1])
       (simp add: example_pass2_fields example_fragment_bytes MAX_PACKET_SIZE_def)
  then have e1: "EventCallback ?e1 example_pass2 = Inr ?s1"
    by (simp add: example_pass2_fields example_fragment_bytes copy_at_def MAX_PACKET_SIZE_def)
  have g1: "GetInterface 7 ?s1 = Some example_Iface"
    using example_GetInterface by (simp add: GetInterface_def)
  have p1: "Pass2 ?s1" by (simp add: example_pass2_fields)
  have sz: "prop_FragmentSize ?e2 = Inr 1000" by (simp add: example_fragment_fields)
  have "\<exists>s'. EventCallback ?e2 ?s1 = Inr s' \<and> OutFile s' = OutFile ?s1 \<and>
           console s' = console ?s1 @ [packet_too_large (AuxFragBufOffset ?s1 + 1000)] \<and>
           AuxFragBufOffset s' = AuxFragBufOffset ?s1 \<and> AuxFragBuf s' = AuxFragBuf ?s1"
    by (rule oversized_fragment_keeps_pending_bytes [OF p1 example_fragment_fields(1) _
          example_fragment_fields(6) g1 sz])
       (simp_all add: example_fragment_fields MAX_PACKET_SIZE_def)
  then obtain s2 where e2: "EventCallback ?e2 ?s1 = Inr s2" and
    o2: "OutFile s2 = OutFile ?s1" "AuxFragBufOffset s2 = AuxFragBufOffset ?s1"
      "AuxFragBuf s2 = AuxFragBuf ?s1"
    by (elim exE conjE)
  have "EventCallback ?e2 ?s1 = Fragment_event ?e2 example_Iface ?s1"
    by (rule EventCallback_fragment [OF p1 example_fragment_fields(1) _
          example_fragment_fields(6) g1]) (simp add: example_fragment_fields)
  also have "\<dots> = Inr (printf (packet_too_large (AuxFragBufOffset ?s1 + 1000)) ?s1)"
    by (rule Fragment_event_too_large [OF sz]) (simp_all add: MAX_PACKET_SIZE_def)
  finally have s2: "s2 = printf (packet_too_large (AuxFragBufOffset ?s1 + 1000)) ?s1"
    using e2 by simp
  have f2: "Pass2 s2" "\<not> AddMetadata s2" "GetInterface 7 s2 = Some example_Iface"
    using g1 by (simp_all add: s2 printf_def example_pass2_fields GetInterface_def)
  have off2: "AuxFragBufOffset s2 = 65000" using o2(2) by simp
  have buf2: "AuxFragBuf s2 = replicate 65000 1 @ replicate 535 0" using o2(3) by simp
  have e3: "EventCallback ?e3 s2 = Inr (frame_end_state ?e3 s2 0 3 [3, 3, 3])"
    by (rule frame_end_emits [OF f2(1) example_fragment_fields(1) _ example_fragment_fields(6)
          f2(3) example_Iface_index _ example_fragment_fields(8)])
       (simp_all add: example_fragment_fields off2 f2 MAX_PACKET_SIZE_def KW_PACKET_END_nonzero)
  have k3: "Keyword ?e3 AND KW_MEDIA_NATIVE_802_11 = 0"
    by (simp add: example_fragment_fields KW_PACKET_END_def KW_MEDIA_NATIVE_802_11_def)
  have fl: "FragLength (frame_packet ?e3 s2 0 3 [3, 3, 3]) = 65003"
    using f2(2) by (simp add: frame_packet_fields off2)
  have fb: "FragBuf (frame_packet ?e3 s2 0 3 [3, 3, 3]) =
      replicate 65000 1 @ [3, 3, 3] @ replicate 532 0"
    using k3 by (simp add: frame_packet_fields frame_array_def off2 buf2 copy_at_def)
  have pay: "packet_payload (frame_packet ?e3 s2 0 3 [3, 3, 3]) =
      Some (replicate 65000 1 @ [3, 3, 3])"
    by (simp add: packet_payload_def fl fb)
  show ?thesis
  proof (intro exI conjI)
    show "EventCallback ?e1 example_pass2 = Inr ?s1" by (fact e1)
    show "AuxFragBufOffset ?s1 = 65000" by simp
    show "EventCallback ?e2 ?s1 = Inr s2" by (fact e2)
    show "OutFile s2 = OutFile example_pass2" using o2(1) by simp
    show "AuxFragBufOffset s2 = 65000" by (fact off2)
    show "EventCallback ?e3 s2 = Inr (frame_end_state ?e3 s2 0 3 [3, 3, 3])" by (fact e3)
    show "OutFile (frame_end_state ?e3 s2 0 3 [3, 3, 3]) =
        OutFile example_pass2 @ [PcapNgWriteEnhancedPacket (frame_packet ?e3 s2 0 3 [3, 3, 3])]"
      using o2(1) by (simp add: frame_end_state_fields)
    show "FragLength (frame_packet ?e3 s2 0 3 [3, 3, 3]) = 65003" by (fact fl)
    show "packet_payload (frame_packet ?e3 s2 0 3 [3, 3, 3]) =
        Some (replicate 65000 1 @ [3, 3, 3])" by (fact pay)
  qed
qed

text \<open>
  C1. Take any table of registered interfaces with pairwise different \<open>LowerIfIndex\<close>
  (and \<open>NumInterfaces\<close> their number, the allocation of the array succeeding). The
  array \<open>arr\<close> that \<open>WriteInterfaces\<close> has after \<open>qsort\<close> holds exactly the registered
  interfaces, in ascending order of \<open>MiniportIfIndex\<close>; among entries with the same
  \<open>MiniportIfIndex\<close> none comes before the one whose \<open>LowerIfIndex\<close> equals it, and
  the others are in ascending order of \<open>LowerIfIndex\<close>. The interface descriptions
  are written in the order of \<open>arr\<close>, and the entry at position \<open>i\<close> gets
  \<open>PcapNgIfIndex = i\<close>.
\<close>

theorem canonical_interface_order:
  assumes "malloc_ok s (malloc_calls s)"
    and "length (collect_interfaces s) = unat (NumInterfaces s)"
    and "distinct (map (\<lambda>p. LowerIfIndex (deref s p)) (collect_interfaces s))"
    and "arr = map (deref s) (InterfaceArray_sorted s)"
  shows "mset arr = mset (concat (map (InterfaceHashTable s) [0..<IFACE_HT_SIZE])) \<and>
         sorted_wrt (\<lambda>A B. MiniportIfIndex A \<le> MiniportIfIndex B) arr \<and>
         sorted_wrt (\<lambda>A B. MiniportIfIndex A = MiniportIfIndex B \<longrightarrow>
                             LowerIfIndex B \<noteq> MiniportIfIndex B) arr \<and>
         sorted_wrt (\<lambda>A B. MiniportIfIndex A = MiniportIfIndex B \<and>
                             LowerIfIndex A \<noteq> MiniportIfIndex A \<longrightarrow>
                             LowerIfIndex A < LowerIfIndex B) arr \<and>
         (\<exists>s'. WriteInterfaces s = Inr s' \<and>
            OutFile s' =
              OutFile s @ map (\<lambda>A. PcapNgWriteInterfaceDesc (Type A) MAX_PACKET_SIZE) arr \<and>
            (\<forall>i < length arr.
               deref s' (InterfaceArray_sorted s ! i) =
                 (arr ! i)\<lparr>PcapNgIfIndex := Some (of_nat i)\<rparr> \<and>
               unat (of_nat i :: ULONG) = i))"
proof -
  let ?refs = "collect_interfaces s"
  let ?sorted = "InterfaceArray_sorted s"
  let ?key = "\<lambda>p. interface_key (deref s p)"
  have srt: "?sorted = sort_key ?key ?refs" by (rule InterfaceArray_sorted_sort_key)
  have ms: "mset ?sorted = mset ?refs" by (simp add: srt)
  have m: "mset arr = mset (concat (map (InterfaceHashTable s) [0..<IFACE_HT_SIZE]))"
  proof -
    have "mset arr = mset (map (deref s) ?refs)"
      unfolding assms(4) using ms by (metis mset_map)
    then show ?thesis by (simp only: map_deref_collect)
  qed
  have "sorted (map ?key ?sorted)" by (simp add: srt)
  then have sk: "sorted_wrt (\<lambda>A B. interface_key A \<le> interface_key B) arr"
    by (simp add: assms(4) sorted_map sorted_wrt_map)
  have "mset (map (\<lambda>p. LowerIfIndex (deref s p)) ?sorted) =
      mset (map (\<lambda>p. LowerIfIndex (deref s p)) ?refs)"
    using ms by (metis mset_map)
  from mset_eq_imp_distinct_iff [OF this] assms(3)
  have "distinct (map (\<lambda>p. LowerIfIndex (deref s p)) ?sorted)" by simp
  then have dl: "distinct (map LowerIfIndex arr)" by (simp add: assms(4) o_def)
  have o1: "sorted_wrt (\<lambda>A B. MiniportIfIndex A \<le> MiniportIfIndex B) arr"
    by (rule sorted_wrt_mono_rel [OF _ sk]) (rule key_order_rules(1))
  have o2: "sorted_wrt (\<lambda>A B. MiniportIfIndex A = MiniportIfIndex B \<longrightarrow>
                             LowerIfIndex B \<noteq> MiniportIfIndex B) arr"
    by (rule sorted_wrt_distinct_map [OF sk dl]) (use key_order_rules(2) in blast)
  have o3: "sorted_wrt (\<lambda>A B. MiniportIfIndex A = MiniportIfIndex B \<and>
                             LowerIfIndex A \<noteq> MiniportIfIndex A \<longrightarrow>
                             LowerIfIndex A < LowerIfIndex B) arr"
    by (rule sorted_wrt_distinct_map [OF sk dl]) (use key_order_rules(3) in blast)
  let ?s0 = "s\<lparr>malloc_calls := Suc (malloc_calls s)\<rparr>"
  have w: "WriteInterfaces s = Inr (write_loop 0 ?sorted ?s0)"
    using assms(1,2) by (simp add: WriteInterfaces_def)
  have d0: "deref ?s0 = deref s" by (simp add: deref_def fun_eq_iff)
  have "distinct ?refs" using assms(3) by (simp add: distinct_map)
  then have ds: "distinct ?sorted" by (simp add: srt)
  have vs: "\<forall>p \<in> set ?sorted. snd p < length (InterfaceHashTable ?s0 (fst p))"
    by (simp add: srt collect_interfaces_valid)
  note wl = write_loop_props [OF ds vs, of 0]
  have la: "length arr = unat (NumInterfaces s)"
    using assms(2) by (simp add: assms(4) srt)
  have out: "OutFile (write_loop 0 ?sorted ?s0) =
      OutFile s @ map (\<lambda>A. PcapNgWriteInterfaceDesc (Type A) MAX_PACKET_SIZE) arr"
    using wl by (simp add: d0 assms(4) o_def)
  have idx: "deref (write_loop 0 ?sorted ?s0) (?sorted ! i) =
      (arr ! i)\<lparr>PcapNgIfIndex := Some (of_nat i)\<rparr> \<and> unat (of_nat i :: ULONG) = i"
    if "i < length arr" for i
  proof -
    have i: "i < length ?sorted" using that by (simp add: assms(4))
    have "unat (NumInterfaces s) < 2 ^ 32" using unsigned_less [of "NumInterfaces s"] by simp
    with that la have "i < 2 ^ 32" by simp
    then have u: "unat (of_nat i :: ULONG) = i" by (simp add: unat_of_nat)
    from wl i have "deref (write_loop 0 ?sorted ?s0) (?sorted ! i) =
        (deref ?s0 (?sorted ! i))\<lparr>PcapNgIfIndex := Some (of_nat (0 + i))\<rparr>"
      by blast
    with u i show ?thesis by (simp add: d0 assms(4))
  qed
  from m o1 o2 o3 w out idx show ?thesis by blast
qed

text \<open>
  C4, as stated: with (7 over 5), (5 over 5) and (3 over 3) registered, the finalized
  order is [5, 7, 3]. Registered in the order the scenario gives, the array after
  \<open>qsort\<close> is [3, 5, 7]: the group of miniport 3 comes first.
\<close>

theorem scenario_order_counterexample:
  "\<not> isl (ProcessTrace (map discovery [(7, 5), (5, 5), (3, 3)]) (initial_globals (\<lambda>_. True))) \<and>
   map (LowerIfIndex \<circ>
        deref (projr (ProcessTrace (map discovery [(7, 5), (5, 5), (3, 3)])
                 (initial_globals (\<lambda>_. True)))))
     (InterfaceArray_sorted (projr (ProcessTrace (map discovery [(7, 5), (5, 5), (3, 3)])
                 (initial_globals (\<lambda>_. True))))) = [3, 5, 7] \<and>
   map (LowerIfIndex \<circ>
        deref (projr (ProcessTrace (map discovery [(7, 5), (5, 5), (3, 3)])
                 (initial_globals (\<lambda>_. True)))))
     (InterfaceArray_sorted (projr (ProcessTrace (map discovery [(7, 5), (5, 5), (3, 3)])
                 (initial_globals (\<lambda>_. True))))) \<noteq> [5, 7, 3]"
proof -
  have "ProcessTrace (map discovery [(7, 5), (5, 5), (3, 3)]) (initial_globals (\<lambda>_. True)) =
      Inr (example_three (\<lambda>_. True))"
    by (rule three_discovered) simp_all
  then show ?thesis
    by (simp add: example_three_sorted example_three_deref)
qed

text \<open>
  C4, amended: with (7 over 5), (5 over 5) and (3 over 3) registered in pass 1, in any
  of the six discovery orders, the finalized order is [3, 5, 7] by \<open>LowerIfIndex\<close>: the
  group of miniport 3, then in the group of miniport 5 the miniport itself (5) before
  the interface layered over it (7); they get the output indices 0, 1 and 2.
\<close>

theorem scenario_order:
  assumes "m 0" and "m 1" and "m 2" and "m 3"
    and "regs \<in> {[(7, 5), (5, 5), (3, 3)], [(7, 5), (3, 3), (5, 5)], [(5, 5), (7, 5), (3, 3)],
                 [(5, 5), (3, 3), (7, 5)], [(3, 3), (7, 5), (5, 5)], [(3, 3), (5, 5), (7, 5)]}"
  shows "\<exists>s s'. ProcessTrace (map discovery regs) (initial_globals m) = Inr s \<and>
           map (LowerIfIndex \<circ> deref s) (InterfaceArray_sorted s) = [3, 5, 7] \<and>
           WriteInterfaces s = Inr s' \<and>
           map (\<lambda>L. Option.bind (GetInterface L s') PcapNgIfIndex) [3, 5, 7] =
             [Some 0, Some 1, Some 2]"
proof -
  have p: "ProcessTrace (map discovery regs) (initial_globals m) = Inr (example_three m)"
    using assms(1,2,3,5) by (rule three_discovered)
  have o: "map (LowerIfIndex \<circ> deref (example_three m)) (InterfaceArray_sorted (example_three m)) =
      [3, 5, 7]"
    by (simp add: example_three_sorted example_three_deref)
  from example_three_written [of m, OF assms(4)] obtain s' where
    w: "WriteInterfaces (example_three m) = Inr s'"
    "map (\<lambda>L. Option.bind (GetInterface L s') PcapNgIfIndex) [3, 5, 7] =
       [Some 0, Some 1, Some 2]"
    by (elim exE conjE)
  show ?thesis
    by (rule exI [of _ "example_three m"], rule exI [of _ s']) (simp only: p o w simp_thms)
qed

theorem scenario_order_witness:
  "\<exists>s s'. ProcessTrace (map discovery [(5, 5), (3, 3), (7, 5)]) (initial_globals (\<lambda>_. True)) = Inr s \<and>
           map (LowerIfIndex \<circ> deref s) (InterfaceArray_sorted s) = [3, 5, 7] \<and>
           WriteInterfaces s = Inr s' \<and>
           map (\<lambda>L. Option.bind (GetInterface L s') PcapNgIfIndex) [3, 5, 7] =
             [Some 0, Some 1, Some 2]"
  by (rule scenario_order) simp_all

theorem canonical_interface_order_witness:
  "malloc_ok (example_three (\<lambda>_. True)) (malloc_calls (example_three (\<lambda>_. True))) \<and>
   length (collect_interfaces (example_three (\<lambda>_. True))) =
     unat (NumInterfaces (example_three (\<lambda>_. True))) \<and>
   map (LowerIfIndex \<circ> deref (example_three (\<lambda>_. True)))
     (collect_interfaces (example_three (\<lambda>_. True))) = [3, 5, 7] \<and>
   map (deref (example_three (\<lambda>_. True))) (InterfaceArray_sorted (example_three (\<lambda>_. True))) =
     [\<lparr>LowerIfIndex = 3, MiniportIfIndex = 3, PcapNgIfIndex = None, Type = PCAPNG_LINKTYPE_ETHERNET\<rparr>,
      \<lparr>LowerIfIndex = 5, MiniportIfIndex = 5, PcapNgIfIndex = None, Type = PCAPNG_LINKTYPE_ETHERNET\<rparr>,
      \<lparr>LowerIfIndex = 7, MiniportIfIndex = 5, PcapNgIfIndex = None, Type = PCAPNG_LINKTYPE_ETHERNET\<rparr>] \<and>
   (\<exists>s'. WriteInterfaces (example_three (\<lambda>_. True)) = Inr s' \<and>
      OutFile s' =
        [PcapNgWriteInterfaceDesc PCAPNG_LINKTYPE_ETHERNET MAX_PACKET_SIZE,
         PcapNgWriteInterfaceDesc PCAPNG_LINKTYPE_ETHERNET MAX_PACKET_SIZE,
         PcapNgWriteInterfaceDesc PCAPNG_LINKTYPE_ETHERNET MAX_PACKET_SIZE] \<and>
      PcapNgIfIndex (deref s' (3, 0)) = Some 0 \<and>
      PcapNgIfIndex (deref s' (5, 0)) = Some 1 \<and>
      PcapNgIfIndex (deref s' (7, 0)) = Some 2)"
proof -
  let ?S = "example_three (\<lambda>_. True)"
  let ?arr = "[\<lparr>LowerIfIndex = 3, MiniportIfIndex = 3, PcapNgIfIndex = None, Type = PCAPNG_LINKTYPE_ETHERNET\<rparr>,
      \<lparr>LowerIfIndex = 5, MiniportIfIndex = 5, PcapNgIfIndex = None, Type = PCAPNG_LINKTYPE_ETHERNET\<rparr>,
      \<lparr>LowerIfIndex = 7, MiniportIfIndex = 5, PcapNgIfIndex = None, Type = PCAPNG_LINKTYPE_ETHERNET\<rparr>]"
  have h1: "malloc_ok ?S (malloc_calls ?S)" by (simp add: example_three_fields)
  have h2: "length (collect_interfaces ?S) = unat (NumInterfaces ?S)"
    by (simp add: example_three_collect example_three_fields)
  have l: "map (LowerIfIndex \<circ> deref ?S) (collect_interfaces ?S) = [3, 5, 7]"
    by (simp add: example_three_collect example_three_deref)
  have h3: "distinct (map (\<lambda>p. LowerIfIndex (deref ?S p)) (collect_interfaces ?S))"
    by (simp add: example_three_collect example_three_deref)
  have h4: "?arr = map (deref ?S) (InterfaceArray_sorted ?S)"
    by (simp add: example_three_sorted example_three_deref)
  from canonical_interface_order [OF h1 h2 h3 h4] obtain s' where
    w: "WriteInterfaces ?S = Inr s'" and
    o: "OutFile s' =
      OutFile ?S @ map (\<lambda>A. PcapNgWriteInterfaceDesc (Type A) MAX_PACKET_SIZE) ?arr" and
    i: "\<forall>i < length ?arr. deref s' (InterfaceArray_sorted ?S ! i) =
          (?arr ! i)\<lparr>PcapNgIfIndex := Some (of_nat i)\<rparr> \<and> unat (of_nat i :: ULONG) = i"
    by (elim exE conjE)
  from i [rule_format, of 0] i [rule_format, of 1] i [rule_format, of 2]
  have x: "PcapNgIfIndex (deref s' (3, 0)) = Some 0" "PcapNgIfIndex (deref s' (5, 0)) = Some 1"
    "PcapNgIfIndex (deref s' (7, 0)) = Some 2"
    by (simp_all add: example_three_sorted)
  from o have o': "OutFile s' =
        [PcapNgWriteInterfaceDesc PCAPNG_LINKTYPE_ETHERNET MAX_PACKET_SIZE,
         PcapNgWriteInterfaceDesc PCAPNG_LINKTYPE_ETHERNET MAX_PACKET_SIZE,
         PcapNgWriteInterfaceDesc PCAPNG_LINKTYPE_ETHERNET MAX_PACKET_SIZE]"
    by (simp add: example_three_fields)
  have "\<exists>s'. WriteInterfaces ?S = Inr s' \<and>
      OutFile s' =
        [PcapNgWriteInterfaceDesc PCAPNG_LINKTYPE_ETHERNET MAX_PACKET_SIZE,
         PcapNgWriteInterfaceDesc PCAPNG_LINKTYPE_ETHERNET MAX_PACKET_SIZE,
         PcapNgWriteInterfaceDesc PCAPNG_LINKTYPE_ETHERNET MAX_PACKET_SIZE] \<and>
      PcapNgIfIndex (deref s' (3, 0)) = Some 0 \<and>
      PcapNgIfIndex (deref s' (5, 0)) = Some 1 \<and>
      PcapNgIfIndex (deref s' (7, 0)) = Some 2"
    by (rule exI [of _ s']) (simp only: w o' x simp_thms)
  with h1 h2 l h4 [symmetric] show ?thesis by (simp only: simp_thms)
qed

end
